theory Spec2Isabelle
  imports Complex_Main
begin

section \<open>Numeric values\<close>

text \<open>
  The program computes on IEEE floating-point tensors: the base probabilities and the
  power are float64 (NumPy), the logits and everything TensorFlow computes are float32.
  A value is a real number or one of the special values; a finite result of an operation
  is the exact result rounded to the format of the operation, to the nearest value of
  the format with ties to even, and becomes an infinity when the rounded value is beyond
  the format's range. Signed zeros are not distinguished.
\<close>

datatype fl = Fin real | PInf | NInf | NaN

fun fl_is_finite :: "fl \<Rightarrow> bool" where
  "fl_is_finite (Fin r) = True"
| "fl_is_finite PInf = False"
| "fl_is_finite NInf = False"
| "fl_is_finite NaN = False"

text \<open>A finite value of magnitude at most \<open>b\<close>.\<close>

fun fl_within :: "real \<Rightarrow> fl \<Rightarrow> bool" where
  "fl_within b (Fin r) = (\<bar>r\<bar> \<le> b)"
| "fl_within b PInf = False"
| "fl_within b NInf = False"
| "fl_within b NaN = False"

text \<open>Rounding to the nearest integer, ties to even.\<close>

definition rne :: "real \<Rightarrow> int" where
  "rne y =
     (let f = \<lfloor>y\<rfloor>; d = y - of_int f
      in if d < 1 / 2 then f else if 1 / 2 < d then f + 1 else if even f then f else f + 1)"

text \<open>
  Rounding of a positive number \<open>y\<close> to \<open>p\<close> significant bits: the unit of the last place
  is \<open>2\<close> to the exponent of \<open>y\<close> (not below the least exponent \<open>emin\<close>, where the
  subnormal numbers begin) minus \<open>p - 1\<close>.
\<close>

definition round_mag :: "nat \<Rightarrow> int \<Rightarrow> real \<Rightarrow> real" where
  "round_mag p emin y =
     (let u = 2 powr of_int (max \<lfloor>log 2 y\<rfloor> emin - int p + 1)
      in of_int (rne (y / u)) * u)"

definition round_nearest :: "nat \<Rightarrow> int \<Rightarrow> real \<Rightarrow> real" where
  "round_nearest p emin x =
     (if x = 0 then 0
      else if 0 < x then round_mag p emin x
      else - round_mag p emin (- x))"

definition to_float :: "nat \<Rightarrow> int \<Rightarrow> int \<Rightarrow> real \<Rightarrow> fl" where
  "to_float p emin emax x =
     (let y = round_nearest p emin x
      in if 2 powr of_int (emax + 1) \<le> y then PInf
         else if y \<le> - (2 powr of_int (emax + 1)) then NInf
         else Fin y)"

definition float32 :: "real \<Rightarrow> fl" where
  "float32 = to_float 24 (- 126) 127"

definition float64 :: "real \<Rightarrow> fl" where
  "float64 = to_float 53 (- 1022) 1023"

text \<open>
  The operations, each with the rounding \<open>r\<close> of its format. Addition of opposite
  infinities is NaN; subtraction is addition of the negated value.
\<close>

fun add_with :: "(real \<Rightarrow> fl) \<Rightarrow> fl \<Rightarrow> fl \<Rightarrow> fl" where
  "add_with r NaN b = NaN"
| "add_with r a NaN = NaN"
| "add_with r (Fin a) (Fin b) = r (a + b)"
| "add_with r (Fin a) PInf = PInf"
| "add_with r (Fin a) NInf = NInf"
| "add_with r PInf (Fin b) = PInf"
| "add_with r PInf PInf = PInf"
| "add_with r PInf NInf = NaN"
| "add_with r NInf (Fin b) = NInf"
| "add_with r NInf NInf = NInf"
| "add_with r NInf PInf = NaN"

fun fl_neg :: "fl \<Rightarrow> fl" where
  "fl_neg (Fin a) = Fin (- a)"
| "fl_neg PInf = NInf"
| "fl_neg NInf = PInf"
| "fl_neg NaN = NaN"

definition sub_with :: "(real \<Rightarrow> fl) \<Rightarrow> fl \<Rightarrow> fl \<Rightarrow> fl" where
  "sub_with r a b = add_with r a (fl_neg b)"

text \<open>The logarithm of zero is \<open>-inf\<close>, of a negative number NaN.\<close>

fun log_with :: "(real \<Rightarrow> fl) \<Rightarrow> fl \<Rightarrow> fl" where
  "log_with r (Fin x) = (if 0 < x then r (ln x) else if x = 0 then NInf else NaN)"
| "log_with r PInf = PInf"
| "log_with r NInf = NaN"
| "log_with r NaN = NaN"

fun exp_with :: "(real \<Rightarrow> fl) \<Rightarrow> fl \<Rightarrow> fl" where
  "exp_with r (Fin x) = r (exp x)"
| "exp_with r PInf = PInf"
| "exp_with r NInf = Fin 0"
| "exp_with r NaN = NaN"

fun div_nat_with :: "(real \<Rightarrow> fl) \<Rightarrow> fl \<Rightarrow> nat \<Rightarrow> fl" where
  "div_nat_with r (Fin s) n = r (s / real n)"
| "div_nat_with r PInf n = PInf"
| "div_nat_with r NInf n = NInf"
| "div_nat_with r NaN n = NaN"

text \<open>A conversion to the format of \<open>r\<close>, as \<^verbatim>\<open>tf.cast(..., dtype=tf.float32)\<close>.\<close>

fun cast_with :: "(real \<Rightarrow> fl) \<Rightarrow> fl \<Rightarrow> fl" where
  "cast_with r (Fin x) = r x"
| "cast_with r PInf = PInf"
| "cast_with r NInf = NInf"
| "cast_with r NaN = NaN"

text \<open>
  The power \<^verbatim>\<open>x ** y\<close> of a float64 array entry \<open>x\<close> and a Python float \<open>y\<close>:
  \<open>x ** 0\<close> is 1, \<open>0 ** y\<close> is 0 for positive \<open>y\<close> and \<open>inf\<close> for negative \<open>y\<close>, and a
  negative base has a power only for an integral exponent (NaN otherwise).
\<close>

definition np_power :: "(real \<Rightarrow> fl) \<Rightarrow> real \<Rightarrow> real \<Rightarrow> fl" where
  "np_power r x y =
     (if y = 0 then Fin 1
      else if 0 < x then r (x powr y)
      else if x = 0 then (if 0 < y then Fin 0 else PInf)
      else if y = of_int \<lfloor>y\<rfloor> then r ((if even \<lfloor>y\<rfloor> then 1 else - 1) * ((- x) powr y))
      else NaN)"

text \<open>The float32 operations of TensorFlow.\<close>

definition fl_add :: "fl \<Rightarrow> fl \<Rightarrow> fl" where
  "fl_add = add_with float32"

definition fl_sub :: "fl \<Rightarrow> fl \<Rightarrow> fl" where
  "fl_sub = sub_with float32"

definition tf_math_log :: "fl \<Rightarrow> fl" where
  "tf_math_log = log_with float32"

definition fl_exp :: "fl \<Rightarrow> fl" where
  "fl_exp = exp_with float32"

definition fl_div_nat :: "fl \<Rightarrow> nat \<Rightarrow> fl" where
  "fl_div_nat = div_nat_with float32"

text \<open>IEEE comparison: every comparison with NaN is false.\<close>

fun fl_gt :: "fl \<Rightarrow> fl \<Rightarrow> bool" where
  "fl_gt NaN b = False"
| "fl_gt a NaN = False"
| "fl_gt (Fin a) (Fin b) = (b < a)"
| "fl_gt (Fin a) PInf = False"
| "fl_gt (Fin a) NInf = True"
| "fl_gt PInf (Fin b) = True"
| "fl_gt PInf PInf = False"
| "fl_gt PInf NInf = True"
| "fl_gt NInf b = False"

text \<open>
  The arithmetic of a computation: the rounding of its float32 and of its float64
  operations. The program runs in \<open>ieee\<close>; \<open>exact_arith\<close> rounds nothing and is the exact
  arithmetic some statements about the program are made in.
\<close>

record arith =
  single :: "real \<Rightarrow> fl"
  double :: "real \<Rightarrow> fl"

definition ieee :: arith where
  "ieee = \<lparr>single = float32, double = float64\<rparr>"

definition exact_arith :: arith where
  "exact_arith = \<lparr>single = Fin, double = Fin\<rparr>"

section \<open>Errors\<close>

datatype error =
    KeyError
  | ZeroDivisionError
  | NotFoundError
  | ValueError
  | TypeError
  | NameError
  | InvalidArgumentError

section \<open>Broadcasting\<close>

text \<open>
  A binary operation of two vectors of lengths \<open>C\<close> and \<open>K\<close> is elementwise when \<open>C = K\<close>,
  broadcasts the single element when one of the lengths is 1, and raises otherwise. A
  logits matrix is a list of rows; a binary operation of a matrix of shape \<open>N \<times> C\<close> and a
  vector of length \<open>K\<close> broadcasts the vector over the rows.
\<close>

definition broadcast_row :: "('a \<Rightarrow> 'b \<Rightarrow> 'c) \<Rightarrow> 'a list \<Rightarrow> 'b list \<Rightarrow> error + 'c list" where
  "broadcast_row f row v =
     (if length row = length v then Inr (map2 f row v)
      else if length v = 1 then Inr (map (\<lambda>a. f a (hd v)) row)
      else if length row = 1 then Inr (map (\<lambda>b. f (hd row) b) v)
      else Inl InvalidArgumentError)"

fun broadcast_rows :: "(fl \<Rightarrow> fl \<Rightarrow> fl) \<Rightarrow> fl list list \<Rightarrow> fl list \<Rightarrow> error + fl list list" where
  "broadcast_rows f [] v = Inr []"
| "broadcast_rows f (row # rows) v =
     (case broadcast_row f row v of
        Inl e \<Rightarrow> Inl e
      | Inr r \<Rightarrow> (case broadcast_rows f rows v of Inl e \<Rightarrow> Inl e | Inr rs \<Rightarrow> Inr (r # rs)))"

section \<open>The log-prior term\<close>

text \<open>
  The expression \<^verbatim>\<open>tf.math.log(tf.cast(base_probs**tau + 1e-12, dtype=tf.float32))\<close>
  occurs twice in \<^verbatim>\<open>main.py\<close>: in \<^verbatim>\<open>loss_fn\<close> (lines 147-148) and in the
  test loop of \<^verbatim>\<open>main\<close> (lines 110-111). With \<^verbatim>\<open>base_probs = None\<close> the power
  raises a \<^verbatim>\<open>TypeError\<close>. \<open>epsilon\<close> is the number the literal \<^verbatim>\<open>1e-12\<close> denotes; the
  literal is a float64.
\<close>

definition epsilon :: real where
  "epsilon = 1 / 10 ^ 12"

text \<open>
  In the arithmetic \<open>ar\<close>, for one base probability \<open>q\<close>: the power and the sum with the
  literal are float64 operations of NumPy, the cast gives a float32, and the logarithm
  is a float32 operation. The term is the vector of these, one for each class.
\<close>

definition log_prior_term :: "arith \<Rightarrow> real \<Rightarrow> real \<Rightarrow> fl" where
  "log_prior_term ar q tau =
     log_with (single ar)
       (cast_with (single ar)
         (add_with (double ar) (np_power (double ar) q tau) (double ar epsilon)))"

definition log_adjustment_in :: "arith \<Rightarrow> real list option \<Rightarrow> real \<Rightarrow> error + fl list" where
  "log_adjustment_in ar base_probs tau =
     (case base_probs of
        None \<Rightarrow> Inl TypeError
      | Some p \<Rightarrow> Inr (map (\<lambda>q. log_prior_term ar q tau) p))"

text \<open>Lines 110-111: \<^verbatim>\<open>adjusted_logits = logits - tf.math.log(...)\<close>.\<close>

definition posthoc_adjusted_logits_in ::
  "arith \<Rightarrow> real list option \<Rightarrow> real \<Rightarrow> fl list list \<Rightarrow> error + fl list list" where
  "posthoc_adjusted_logits_in ar base_probs tau logits =
     (case log_adjustment_in ar base_probs tau of
        Inl e \<Rightarrow> Inl e
      | Inr v \<Rightarrow> broadcast_rows (sub_with (single ar)) logits v)"

text \<open>Lines 147-148: \<^verbatim>\<open>logits = logits + tf.math.log(...)\<close>.\<close>

definition loss_adjusted_logits_in ::
  "arith \<Rightarrow> real list option \<Rightarrow> real \<Rightarrow> fl list list \<Rightarrow> error + fl list list" where
  "loss_adjusted_logits_in ar base_probs tau logits =
     (case log_adjustment_in ar base_probs tau of
        Inl e \<Rightarrow> Inl e
      | Inr v \<Rightarrow> broadcast_rows (add_with (single ar)) logits v)"

text \<open>What the program computes: the three in the arithmetic \<open>ieee\<close>.\<close>

definition log_adjustment :: "real list option \<Rightarrow> real \<Rightarrow> error + fl list" where
  "log_adjustment = log_adjustment_in ieee"

definition posthoc_adjusted_logits ::
  "real list option \<Rightarrow> real \<Rightarrow> fl list list \<Rightarrow> error + fl list list" where
  "posthoc_adjusted_logits = posthoc_adjusted_logits_in ieee"

definition loss_adjusted_logits ::
  "real list option \<Rightarrow> real \<Rightarrow> fl list list \<Rightarrow> error + fl list list" where
  "loss_adjusted_logits = loss_adjusted_logits_in ieee"

section \<open>The loss function\<close>

fun tf_reduce_sum :: "fl list \<Rightarrow> fl" where
  "tf_reduce_sum [] = Fin 0"
| "tf_reduce_sum (v # vs) = fl_add v (tf_reduce_sum vs)"

text \<open>\<^verbatim>\<open>tf.reduce_mean(loss, axis=0)\<close>; the mean of an empty batch is NaN.\<close>

definition tf_reduce_mean :: "fl list \<Rightarrow> fl" where
  "tf_reduce_mean vs = (if vs = [] then NaN else fl_div_nat (tf_reduce_sum vs) (length vs))"

text \<open>
  \<^verbatim>\<open>tf.nn.sparse_softmax_cross_entropy_with_logits\<close>: for each example the negative
  log of the softmax probability of its label, \<open>log (\<Sum>j. exp l\<^sub>j) - l\<^sub>y\<close>. A label outside
  \<open>[0, C)\<close> and a batch whose labels and rows differ in number raise.
\<close>

definition xent_row :: "int \<Rightarrow> fl list \<Rightarrow> error + fl" where
  "xent_row y row =
     (if y < 0 \<or> int (length row) \<le> y then Inl InvalidArgumentError
      else Inr (fl_sub (tf_math_log (tf_reduce_sum (map fl_exp row))) (row ! nat y)))"

fun sparse_softmax_cross_entropy_with_logits :: "int list \<Rightarrow> fl list list \<Rightarrow> error + fl list" where
  "sparse_softmax_cross_entropy_with_logits [] [] = Inr []"
| "sparse_softmax_cross_entropy_with_logits (y # ys) (row # rows) =
     (case xent_row y row of
        Inl e \<Rightarrow> Inl e
      | Inr l \<Rightarrow>
          (case sparse_softmax_cross_entropy_with_logits ys rows of
             Inl e \<Rightarrow> Inl e
           | Inr ls \<Rightarrow> Inr (l # ls)))"
| "sparse_softmax_cross_entropy_with_logits [] (row # rows) = Inl InvalidArgumentError"
| "sparse_softmax_cross_entropy_with_logits (y # ys) [] = Inl InvalidArgumentError"

text \<open>The closure \<^verbatim>\<open>loss_fn\<close> of \<^verbatim>\<open>build_loss_fn\<close>, with its captured variables as arguments.\<close>

definition loss_fn ::
  "bool \<Rightarrow> real list option \<Rightarrow> real \<Rightarrow> int list \<Rightarrow> fl list list \<Rightarrow> error + fl" where
  "loss_fn use_la_loss base_probs tau labels logits =
     (case (if use_la_loss then loss_adjusted_logits base_probs tau logits else Inr logits) of
        Inl e \<Rightarrow> Inl e
      | Inr logits' \<Rightarrow>
          (case sparse_softmax_cross_entropy_with_logits labels logits' of
             Inl e \<Rightarrow> Inl e
           | Inr loss \<Rightarrow> Inr (tf_reduce_mean loss)))"

text \<open>
  \<^verbatim>\<open>build_loss_fn\<close> defines the closure and returns it; it evaluates none of its
  arguments. Its result is typed as a fallible construction so that a failure of the
  construction could be told from a failure of a call.
\<close>

definition build_loss_fn ::
  "bool \<Rightarrow> real list option \<Rightarrow> real \<Rightarrow> error + (int list \<Rightarrow> fl list list \<Rightarrow> error + fl)" where
  "build_loss_fn use_la_loss base_probs tau = Inr (loss_fn use_la_loss base_probs tau)"

section \<open>Accuracy accumulators\<close>

text \<open>
  \<^verbatim>\<open>tf.keras.metrics.SparseCategoricalAccuracy\<close> keeps the number of examples whose
  label is the index of the greatest logit and the number of examples seen.
  \<^verbatim>\<open>argmax\<close> returns the first index of the greatest entry; NaN wins no comparison.
  A row without entries raises. The labels are compared with the indices by
  \<^verbatim>\<open>tf.equal\<close>, which broadcasts a single label or a single index and raises when
  the numbers differ otherwise. \<^verbatim>\<open>result\<close> of an accumulator that has seen
  nothing is 0.
\<close>

record metric =
  acc_total :: nat
  acc_count :: nat

definition new_metric :: metric where
  "new_metric = \<lparr>acc_total = 0, acc_count = 0\<rparr>"

fun argmax_from :: "nat \<Rightarrow> nat \<times> fl \<Rightarrow> fl list \<Rightarrow> nat" where
  "argmax_from i best [] = fst best"
| "argmax_from i best (v # vs) =
     argmax_from (Suc i) (if fl_gt v (snd best) then (i, v) else best) vs"

definition tf_argmax :: "fl list \<Rightarrow> error + nat" where
  "tf_argmax row = (if row = [] then Inl InvalidArgumentError else Inr (argmax_from 0 (0, NInf) row))"

fun argmax_rows :: "fl list list \<Rightarrow> error + nat list" where
  "argmax_rows [] = Inr []"
| "argmax_rows (row # rows) =
     (case tf_argmax row of
        Inl e \<Rightarrow> Inl e
      | Inr k \<Rightarrow> (case argmax_rows rows of Inl e \<Rightarrow> Inl e | Inr ks \<Rightarrow> Inr (k # ks)))"

definition matches :: "int list \<Rightarrow> fl list list \<Rightarrow> error + bool list" where
  "matches y_true y_pred =
     (case argmax_rows y_pred of
        Inl e \<Rightarrow> Inl e
      | Inr ks \<Rightarrow> broadcast_row (\<lambda>y k. int k = y) y_true ks)"

definition update_state :: "metric \<Rightarrow> int list \<Rightarrow> fl list list \<Rightarrow> error + metric" where
  "update_state m y_true y_pred =
     (case matches y_true y_pred of
        Inl e \<Rightarrow> Inl e
      | Inr ms \<Rightarrow>
          Inr \<lparr>acc_total = acc_total m + length (filter id ms), acc_count = acc_count m + length ms\<rparr>)"

definition result :: "metric \<Rightarrow> real" where
  "result m = (if acc_count m = 0 then 0 else real (acc_total m) / real (acc_count m))"

definition reset_states :: "metric \<Rightarrow> metric" where
  "reset_states m = \<lparr>acc_total = 0, acc_count = 0\<rparr>"

section \<open>Configuration and collaborators\<close>

text \<open>The class \<^verbatim>\<open>FLAGS\<close> (lines 10-17) and its values.\<close>

record flags =
  dataset :: string
  data_home :: string
  train_batch_size :: nat
  test_batch_size :: nat
  mode :: string
  tau :: real
  tb_log_dir :: string

definition FLAGS :: flags where
  "FLAGS = \<lparr>dataset = ''cifar10-lt'', data_home = ''data'', train_batch_size = 128,
     test_batch_size = 100, mode = ''loss'', tau = 1, tb_log_dir = ''log''\<rparr>"

text \<open>An entry of \<^verbatim>\<open>utils.dataset_mappings()\<close>, with the fields \<^verbatim>\<open>main\<close> reads.\<close>

record 's dataset_info =
  num_train :: nat
  num_classes :: nat
  num_epochs :: nat
  lr_schedule :: 's

text \<open>
  What reading the base-probabilities file gives: \<^verbatim>\<open>tf.errors.NotFoundError\<close>, a
  \<^verbatim>\<open>ValueError\<close> of \<^verbatim>\<open>np.loadtxt\<close>, or the vector.
\<close>

datatype read_result = NotFound | Unparsable | Loaded "real list"

text \<open>
  The modules \<^verbatim>\<open>utils\<close> and \<^verbatim>\<open>models\<close>, the file system and the optimizer are
  not part of the repository's source; they are parameters. \<open>'x\<close> is a batch of inputs,
  \<open>'w\<close> the variables of the model and the optimizer, \<open>'s\<close> a learning-rate schedule.
  A dataset is a finite list of batches that may differ at each iteration over it (the
  last argument of \<open>create_tf_dataset\<close> is the epoch). \<open>apply_gradients\<close> stands for
  \<^verbatim>\<open>tape.gradient\<close> followed by \<^verbatim>\<open>optimizer.apply_gradients\<close>: from the schedule,
  the steps per epoch, the optimizer's iteration count, the loss as a function of the
  variables and the variables, it gives the new variables.
\<close>

record ('x, 'w, 's) env =
  dataset_mappings :: "string \<Rightarrow> 's dataset_info option"
  create_tf_dataset :: "'s dataset_info \<Rightarrow> string \<Rightarrow> nat \<Rightarrow> bool \<Rightarrow> nat \<Rightarrow> ('x \<times> int list) list"
  cifar_resnet32 :: "nat \<Rightarrow> 'w"
  model_call :: "'w \<Rightarrow> 'x \<Rightarrow> bool \<Rightarrow> fl list list"
  model_losses :: "'w \<Rightarrow> fl list"
  gfile_loadtxt :: "string \<Rightarrow> read_result"
  apply_gradients :: "'s \<Rightarrow> nat \<Rightarrow> nat \<Rightarrow> ('w \<Rightarrow> error + fl) \<Rightarrow> 'w \<Rightarrow> 'w"

definition os_path_join :: "string \<Rightarrow> string \<Rightarrow> string" where
  "os_path_join a b =
     (if b \<noteq> [] \<and> hd b = CHR ''/'' then b
      else if a = [] \<or> last a = CHR ''/'' then a @ b
      else a @ ''/'' @ b)"

section \<open>The state of a run\<close>

text \<open>
  What the run prints and what it writes to the two summary writers, in order. A printed
  value is kept as the number, not as the text \<^verbatim>\<open>{:.4f}\<close> formats; a summary is the
  writer's directory, the name, the value and the step. The progress bar of
  \<^verbatim>\<open>tqdm\<close> is not an event.
\<close>

datatype event =
    PrintTrainingLoss nat fl
  | PrintTrainingAccuracy real
  | PrintTestAccuracy real
  | PrintAdjustedTestAccuracy real
  | Scalar string string fl nat

record 'w state =
  weights :: 'w
  iterations :: nat
  train_acc_metric :: metric
  test_acc_metric :: metric
  test_adj_acc_metric :: "metric option"
  emitted :: "event list"

text \<open>
  What lines 23-71 of \<^verbatim>\<open>main\<close> compute before the first epoch. \<open>iterations\<close> of the
  state is the step counter of the optimizer.
\<close>

record ('x, 'w, 's) prepared =
  ds_info :: "'s dataset_info"
  batches_per_epoch :: nat
  train_dataset :: "nat \<Rightarrow> ('x \<times> int list) list"
  test_dataset :: "nat \<Rightarrow> ('x \<times> int list) list"
  base_probs :: "real list option"
  the_loss_fn :: "int list \<Rightarrow> fl list list \<Rightarrow> error + fl"
  posthoc_adjusting :: bool
  train_summary_writer :: string
  test_summary_writer :: string
  initial :: "'w state"

section \<open>Startup\<close>

text \<open>
  Lines 33-43: the path of the base probabilities and the guarded read. Then the startup
  in the order of lines 23-71: the lookup of the dataset (a \<^verbatim>\<open>KeyError\<close> for an unknown
  name), \<^verbatim>\<open>int(dataset.num_train / FLAGS.train_batch_size)\<close> (a
  \<^verbatim>\<open>ZeroDivisionError\<close> for a batch size of zero), the datasets and the model, the
  read, the loss function, the accumulators and the summary writers.
\<close>

definition base_probs_path :: "flags \<Rightarrow> string" where
  "base_probs_path fl = os_path_join (data_home fl) (dataset fl @ ''_base_probs.txt'')"

definition read_base_probs :: "('x, 'w, 's) env \<Rightarrow> flags \<Rightarrow> error + real list option" where
  "read_base_probs env fl =
     (case gfile_loadtxt env (base_probs_path fl) of
        Loaded v \<Rightarrow> Inr (Some v)
      | Unparsable \<Rightarrow> Inl ValueError
      | NotFound \<Rightarrow>
          (if mode fl \<in> set [''posthoc'', ''loss''] then Inl NotFoundError else Inr None))"

definition startup :: "('x, 'w, 's) env \<Rightarrow> flags \<Rightarrow> error + ('x, 'w, 's) prepared" where
  "startup env fl =
     (case dataset_mappings env (dataset fl) of
        None \<Rightarrow> Inl KeyError
      | Some ds \<Rightarrow>
          if train_batch_size fl = 0 then Inl ZeroDivisionError
          else
            (case read_base_probs env fl of
               Inl e \<Rightarrow> Inl e
             | Inr bp \<Rightarrow>
                 (case build_loss_fn (mode fl = ''loss'') bp (tau fl) of
                    Inl e \<Rightarrow> Inl e
                  | Inr lf \<Rightarrow>
                      Inr \<lparr>ds_info = ds,
                           batches_per_epoch = num_train ds div train_batch_size fl,
                           train_dataset = create_tf_dataset env ds (data_home fl) (train_batch_size fl) True,
                           test_dataset = create_tf_dataset env ds (data_home fl) (test_batch_size fl) False,
                           base_probs = bp,
                           the_loss_fn = lf,
                           posthoc_adjusting = (mode fl = ''posthoc''),
                           train_summary_writer = os_path_join (tb_log_dir fl) ''train'',
                           test_summary_writer = os_path_join (tb_log_dir fl) ''test'',
                           initial = \<lparr>weights = cifar_resnet32 env (num_classes ds),
                             iterations = 0,
                             train_acc_metric = new_metric,
                             test_acc_metric = new_metric,
                             test_adj_acc_metric = (if mode fl = ''posthoc'' then Some new_metric else None),
                             emitted = []\<rparr>\<rparr>)))"

section \<open>The training and test loops\<close>

text \<open>Lines 78-93: one training step on the batch \<open>(x, y)\<close> at index \<open>step\<close>.\<close>

definition train_batch ::
  "('x, 'w, 's) env \<Rightarrow> ('x, 'w, 's) prepared \<Rightarrow> nat \<Rightarrow> nat \<Rightarrow> 'x \<times> int list \<Rightarrow> 'w state \<Rightarrow>
     error + 'w state" where
  "train_batch env ps epoch step b st =
     (case b of (x, y) \<Rightarrow>
        (let logits = model_call env (weights st) x True in
           (case the_loss_fn ps y logits of
              Inl e \<Rightarrow> Inl e
            | Inr l \<Rightarrow>
               (let loss_value = fl_add l (tf_reduce_sum (model_losses env (weights st)));
                    w' = apply_gradients env (lr_schedule (ds_info ps)) (batches_per_epoch ps)
                           (iterations st)
                           (\<lambda>w. (case the_loss_fn ps y (model_call env w x True) of
                                    Inl e \<Rightarrow> Inl e
                                  | Inr l' \<Rightarrow> Inr (fl_add l' (tf_reduce_sum (model_losses env w)))))
                           (weights st)
                in (case update_state (train_acc_metric st) y logits of
                      Inl e \<Rightarrow> Inl e
                    | Inr m \<Rightarrow>
                        Inr (st\<lparr>weights := w',
                                iterations := Suc (iterations st),
                                train_acc_metric := m,
                                emitted := emitted st @
                                  (if step mod 1000 = 0
                                   then [PrintTrainingLoss step loss_value,
                                         Scalar (train_summary_writer ps) ''batch loss'' loss_value
                                           (epoch * batches_per_epoch ps + step)]
                                   else [])\<rparr>))))))"

text \<open>Line 77: \<^verbatim>\<open>for step, (x, y) in enumerate(train_dataset)\<close>.\<close>

fun train_loop ::
  "('x, 'w, 's) env \<Rightarrow> ('x, 'w, 's) prepared \<Rightarrow> nat \<Rightarrow> nat \<Rightarrow> ('x \<times> int list) list \<Rightarrow> 'w state \<Rightarrow>
     error + 'w state" where
  "train_loop env ps epoch step [] st = Inr st"
| "train_loop env ps epoch step (b # bs) st =
     (case train_batch env ps epoch step b st of
        Inl e \<Rightarrow> Inl e
      | Inr st' \<Rightarrow> train_loop env ps epoch (Suc step) bs st')"

text \<open>Lines 105-112: one test batch.\<close>

definition test_batch ::
  "('x, 'w, 's) env \<Rightarrow> ('x, 'w, 's) prepared \<Rightarrow> flags \<Rightarrow> 'x \<times> int list \<Rightarrow> 'w state \<Rightarrow> error + 'w state" where
  "test_batch env ps fl b st =
     (case b of (x, y) \<Rightarrow>
        (let logits = model_call env (weights st) x False in
           (case update_state (test_acc_metric st) y logits of
              Inl e \<Rightarrow> Inl e
            | Inr m \<Rightarrow>
               (let st1 = st\<lparr>test_acc_metric := m\<rparr> in
                  (if posthoc_adjusting ps then
                     (case posthoc_adjusted_logits (base_probs ps) (tau fl) logits of
                        Inl e \<Rightarrow> Inl e
                      | Inr adjusted_logits \<Rightarrow>
                          (case test_adj_acc_metric st1 of
                             None \<Rightarrow> Inl NameError
                           | Some ma \<Rightarrow>
                               (case update_state ma y adjusted_logits of
                                  Inl e \<Rightarrow> Inl e
                                | Inr ma' \<Rightarrow> Inr (st1\<lparr>test_adj_acc_metric := Some ma'\<rparr>))))
                   else Inr st1)))))"

fun test_loop ::
  "('x, 'w, 's) env \<Rightarrow> ('x, 'w, 's) prepared \<Rightarrow> flags \<Rightarrow> ('x \<times> int list) list \<Rightarrow> 'w state \<Rightarrow>
     error + 'w state" where
  "test_loop env ps fl [] st = Inr st"
| "test_loop env ps fl (b # bs) st =
     (case test_batch env ps fl b st of
        Inl e \<Rightarrow> Inl e
      | Inr st' \<Rightarrow> test_loop env ps fl bs st')"

text \<open>Lines 95-101: the training accuracy is read, the accumulator reset, the value reported.\<close>

definition report_train :: "('x, 'w, 's) prepared \<Rightarrow> nat \<Rightarrow> 'w state \<Rightarrow> 'w state" where
  "report_train ps epoch st =
     (let train_acc = result (train_acc_metric st) in
      st\<lparr>train_acc_metric := reset_states (train_acc_metric st),
         emitted := emitted st @
           [PrintTrainingAccuracy train_acc,
            Scalar (train_summary_writer ps) ''accuracy'' (Fin train_acc)
              ((epoch + 1) * batches_per_epoch ps)]\<rparr>)"

text \<open>Lines 114-131: the test accuracies are read, the accumulators reset, the values reported.\<close>

definition report_test :: "('x, 'w, 's) prepared \<Rightarrow> nat \<Rightarrow> 'w state \<Rightarrow> error + 'w state" where
  "report_test ps epoch st =
     (let test_acc = result (test_acc_metric st);
          st1 = st\<lparr>test_acc_metric := reset_states (test_acc_metric st),
                  emitted := emitted st @
                    [PrintTestAccuracy test_acc,
                     Scalar (test_summary_writer ps) ''accuracy'' (Fin test_acc)
                       ((epoch + 1) * batches_per_epoch ps)]\<rparr>
      in if posthoc_adjusting ps then
           (case test_adj_acc_metric st1 of
              None \<Rightarrow> Inl NameError
            | Some ma \<Rightarrow>
                let test_adj_acc = result ma in
                Inr (st1\<lparr>test_adj_acc_metric := Some (reset_states ma),
                        emitted := emitted st1 @
                          [PrintAdjustedTestAccuracy test_adj_acc,
                           Scalar (test_summary_writer ps) ''logit-adjusted accuracy''
                             (Fin test_adj_acc) ((epoch + 1) * batches_per_epoch ps)]\<rparr>))
         else Inr st1)"

text \<open>Lines 74-131: the body of the loop over the epochs.\<close>

definition run_epoch ::
  "('x, 'w, 's) env \<Rightarrow> ('x, 'w, 's) prepared \<Rightarrow> flags \<Rightarrow> nat \<Rightarrow> 'w state \<Rightarrow> error + 'w state" where
  "run_epoch env ps fl epoch st =
     (case train_loop env ps epoch 0 (train_dataset ps epoch) st of
        Inl e \<Rightarrow> Inl e
      | Inr st1 \<Rightarrow>
          (case test_loop env ps fl (test_dataset ps epoch) (report_train ps epoch st1) of
             Inl e \<Rightarrow> Inl e
           | Inr st2 \<Rightarrow> report_test ps epoch st2))"

fun epochs_loop ::
  "('x, 'w, 's) env \<Rightarrow> ('x, 'w, 's) prepared \<Rightarrow> flags \<Rightarrow> nat list \<Rightarrow> 'w state \<Rightarrow> error + 'w state" where
  "epochs_loop env ps fl [] st = Inr st"
| "epochs_loop env ps fl (epoch # epochs) st =
     (case run_epoch env ps fl epoch st of
        Inl e \<Rightarrow> Inl e
      | Inr st' \<Rightarrow> epochs_loop env ps fl epochs st')"

text \<open>\<^verbatim>\<open>main\<close>: the startup, then one training and one test pass per epoch.\<close>

definition main :: "('x, 'w, 's) env \<Rightarrow> flags \<Rightarrow> error + 'w state" where
  "main env fl =
     (case startup env fl of
        Inl e \<Rightarrow> Inl e
      | Inr ps \<Rightarrow> epochs_loop env ps fl [0..<num_epochs (ds_info ps)] (initial ps))"

section \<open>The transform as the specification states it\<close>

text \<open>
  The specification's contract of the logit-adjustment transform: \<open>L' = L + log (p\<^sup>t + \<epsilon>)\<close>,
  the shift broadcast across the batch dimension. It is written here from the
  specification's words, to be compared with what the two places of the code compute: a
  row of \<open>C\<close> logits and the \<open>C\<close> entries of \<open>p\<close> are taken class by class, the sum is the
  float32 addition of the logits, and the number \<open>log (p\<^sup>t + \<epsilon>)\<close> of a class is the
  log-prior term as the program computes it, so that the comparison is one of the sign
  and of the shape of the shift.
\<close>

definition spec_transform :: "fl list list \<Rightarrow> real list \<Rightarrow> real \<Rightarrow> fl list list" where
  "spec_transform L p t =
     map (\<lambda>row. map2 (\<lambda>l q. fl_add l (log_prior_term ieee q t)) row p) L"

section \<open>What an accumulator has seen\<close>

text \<open>
  To state what a reported accuracy is the accuracy of: the pairs of labels and logits
  of a list of batches, and the accumulator that has been updated with each of them in
  turn. In the training loop the variables change with every step, so the logits of a
  batch are those of the model at that step.
\<close>

fun accumulate :: "metric \<Rightarrow> (int list \<times> fl list list) list \<Rightarrow> error + metric" where
  "accumulate m [] = Inr m"
| "accumulate m (yl # obs) =
     (case update_state m (fst yl) (snd yl) of
        Inl e \<Rightarrow> Inl e
      | Inr m' \<Rightarrow> accumulate m' obs)"

fun train_seen ::
  "('x, 'w, 's) env \<Rightarrow> ('x, 'w, 's) prepared \<Rightarrow> nat \<Rightarrow> nat \<Rightarrow> ('x \<times> int list) list \<Rightarrow> 'w state \<Rightarrow>
     (int list \<times> fl list list) list" where
  "train_seen env ps epoch step [] st = []"
| "train_seen env ps epoch step (b # bs) st =
     (snd b, model_call env (weights st) (fst b) True) #
     (case train_batch env ps epoch step b st of
        Inl e \<Rightarrow> []
      | Inr st' \<Rightarrow> train_seen env ps epoch (Suc step) bs st')"

definition test_seen ::
  "('x, 'w, 's) env \<Rightarrow> 'w \<Rightarrow> ('x \<times> int list) list \<Rightarrow> (int list \<times> fl list list) list" where
  "test_seen env w bs = map (\<lambda>b. (snd b, model_call env w (fst b) False)) bs"

fun adjust_all ::
  "real list option \<Rightarrow> real \<Rightarrow> (int list \<times> fl list list) list \<Rightarrow>
     error + (int list \<times> fl list list) list" where
  "adjust_all bp t [] = Inr []"
| "adjust_all bp t (yl # obs) =
     (case posthoc_adjusted_logits bp t (snd yl) of
        Inl e \<Rightarrow> Inl e
      | Inr L' \<Rightarrow>
          (case adjust_all bp t obs of
             Inl e \<Rightarrow> Inl e
           | Inr obs' \<Rightarrow> Inr ((fst yl, L') # obs')))"

text \<open>An accumulator is fresh when it has been created or reset and not updated since.\<close>

definition fresh :: "('x, 'w, 's) prepared \<Rightarrow> 'w state \<Rightarrow> bool" where
  "fresh ps st =
     (train_acc_metric st = new_metric \<and> test_acc_metric st = new_metric \<and>
      test_adj_acc_metric st = (if posthoc_adjusting ps then Some new_metric else None))"

text \<open>The events of the batch loss, every 1000 steps, and the events of the end of an epoch.\<close>

fun is_batch_loss :: "event \<Rightarrow> bool" where
  "is_batch_loss (PrintTrainingLoss step v) = True"
| "is_batch_loss (Scalar writer name v step) = (name = ''batch loss'')"
| "is_batch_loss (PrintTrainingAccuracy a) = False"
| "is_batch_loss (PrintTestAccuracy a) = False"
| "is_batch_loss (PrintAdjustedTestAccuracy a) = False"

definition epoch_reports :: "event list \<Rightarrow> event list" where
  "epoch_reports evs = filter (\<lambda>e. \<not> is_batch_loss e) evs"

fun is_adjusted_report :: "event \<Rightarrow> bool" where
  "is_adjusted_report (PrintAdjustedTestAccuracy a) = True"
| "is_adjusted_report (Scalar writer name v step) = (name = ''logit-adjusted accuracy'')"
| "is_adjusted_report (PrintTrainingLoss step v) = False"
| "is_adjusted_report (PrintTrainingAccuracy a) = False"
| "is_adjusted_report (PrintTestAccuracy a) = False"

text \<open>What the end of an epoch reports of an accumulator \<open>m\<close>.\<close>

definition train_report :: "('x, 'w, 's) prepared \<Rightarrow> nat \<Rightarrow> metric \<Rightarrow> event list" where
  "train_report ps epoch m =
     [PrintTrainingAccuracy (result m),
      Scalar (train_summary_writer ps) ''accuracy'' (Fin (result m))
        ((epoch + 1) * batches_per_epoch ps)]"

definition test_report :: "('x, 'w, 's) prepared \<Rightarrow> nat \<Rightarrow> metric \<Rightarrow> event list" where
  "test_report ps epoch m =
     [PrintTestAccuracy (result m),
      Scalar (test_summary_writer ps) ''accuracy'' (Fin (result m))
        ((epoch + 1) * batches_per_epoch ps)]"

definition adjusted_report :: "('x, 'w, 's) prepared \<Rightarrow> nat \<Rightarrow> metric \<Rightarrow> event list" where
  "adjusted_report ps epoch m =
     [PrintAdjustedTestAccuracy (result m),
      Scalar (test_summary_writer ps) ''logit-adjusted accuracy'' (Fin (result m))
        ((epoch + 1) * batches_per_epoch ps)]"

text \<open>
  A shift by \<open>c\<close> keeps the order of a row when every logit that is greater than \<open>-inf\<close>,
  the value the search for the greatest logit starts from, or than another logit of the
  row, is still so after the shift: the rounding of the subtraction makes no two of them
  equal.
\<close>

definition order_kept :: "fl \<Rightarrow> fl list \<Rightarrow> bool" where
  "order_kept c row =
     list_all (\<lambda>a. (\<not> fl_gt a NInf \<or> fl_gt (fl_sub a c) NInf) \<and>
                    list_all (\<lambda>b. \<not> fl_gt a b \<or> fl_gt (fl_sub a c) (fl_sub b c)) row) row"

section \<open>A small concrete run\<close>

text \<open>
  A dataset of four classes with two training batches and one test batch of one example
  each, a model that always answers with the same logits, an optimizer that counts its
  steps, and a file of uniform base probabilities. The theorems below are instantiated
  with it.
\<close>

definition example_env :: "(nat, nat, unit) env" where
  "example_env =
     \<lparr>dataset_mappings =
        (\<lambda>name. if name = ''toy''
                 then Some \<lparr>num_train = 2, num_classes = 4, num_epochs = 1, lr_schedule = ()\<rparr>
                 else None),
      create_tf_dataset =
        (\<lambda>ds home batch_size training epoch. if training then [(0, [2]), (1, [1])] else [(2, [2])]),
      cifar_resnet32 = (\<lambda>C. 0),
      model_call = (\<lambda>w x training. [[Fin 1, Fin 0, Fin 3, Fin 2]]),
      model_losses = (\<lambda>w. []),
      gfile_loadtxt =
        (\<lambda>path. if path = ''data/toy_base_probs.txt'' then Loaded [1 / 4, 1 / 4, 1 / 4, 1 / 4]
                 else NotFound),
      apply_gradients = (\<lambda>schedule steps_per_epoch it objective w. Suc w)\<rparr>"

definition example_env_without_file :: "(nat, nat, unit) env" where
  "example_env_without_file = example_env\<lparr>gfile_loadtxt := (\<lambda>path. NotFound)\<rparr>"

text \<open>The same run with two epochs, and with logits that are far apart.\<close>

definition example_env_two_epochs :: "(nat, nat, unit) env" where
  "example_env_two_epochs =
     example_env\<lparr>dataset_mappings :=
        (\<lambda>name. if name = ''toy''
                 then Some \<lparr>num_train = 2, num_classes = 4, num_epochs = 2, lr_schedule = ()\<rparr>
                 else None)\<rparr>"

definition example_env_apart :: "(nat, nat, unit) env" where
  "example_env_apart =
     example_env\<lparr>model_call := (\<lambda>w x training. [[Fin 4, Fin 0, Fin 64, Fin 16]])\<rparr>"

text \<open>
  A run with logits of which two are closer to each other than the float32 numbers around
  the log-prior term are (\<open>2\<^sup>-\<^sup>2\<^sup>7\<close> is a float32), and a test batch whose label is the
  class of the greatest logit.
\<close>

definition example_env_tie :: "(nat, nat, unit) env" where
  "example_env_tie =
     example_env\<lparr>model_call := (\<lambda>w x training. [[Fin 0, Fin (1 / 2 ^ 27), Fin 0, Fin 0]]),
       create_tf_dataset :=
         (\<lambda>ds home batch_size training epoch.
            if training then [(0, [2]), (1, [1])] else [(2, [1])])\<rparr>"

definition example_flags :: "string \<Rightarrow> flags" where
  "example_flags m =
     \<lparr>dataset = ''toy'', data_home = ''data'', train_batch_size = 1, test_batch_size = 1,
      mode = m, tau = 1, tb_log_dir = ''log''\<rparr>"

section \<open>Properties of the numeric operations\<close>

subsection \<open>Rounding\<close>

lemma pos_of_two_powr_le: "2 powr a \<le> y \<Longrightarrow> 0 < (y::real)"
proof -
  assume "2 powr a \<le> y"
  moreover have "0 < (2::real) powr a" by simp
  ultimately show ?thesis by linarith
qed

lemma rne_bounds: "\<lfloor>y\<rfloor> \<le> rne y \<and> rne y \<le> \<lfloor>y\<rfloor> + 1"
  by (simp add: rne_def Let_def)

lemma rne_of_int [simp]: "rne (of_int n) = n"
  by (simp add: rne_def)

lemma rne_near: "0 \<le> d \<Longrightarrow> d < 1 / 2 \<Longrightarrow> rne (of_int n + d) = n"
proof -
  assume d: "0 \<le> d" "d < 1 / 2"
  then have "\<lfloor>of_int n + d\<rfloor> = n" by linarith
  then show ?thesis using d by (simp add: rne_def Let_def)
qed

lemma rne_ge: "of_int n \<le> y \<Longrightarrow> n \<le> rne y"
proof -
  assume "of_int n \<le> y"
  then have "n \<le> \<lfloor>y\<rfloor>" by (simp add: le_floor_iff)
  then show ?thesis using rne_bounds [of y] by linarith
qed

lemma rne_le: "y \<le> of_int n \<Longrightarrow> rne y \<le> n"
proof (cases "y = of_int n")
  case True
  then show ?thesis by simp
next
  case False
  assume "y \<le> of_int n"
  with False have "y < of_int n" by simp
  then have "\<lfloor>y\<rfloor> < n" by (simp add: floor_less_iff)
  then show ?thesis using rne_bounds [of y] by linarith
qed

lemma rne_mono: "y \<le> z \<Longrightarrow> rne y \<le> rne z"
proof -
  assume yz: "y \<le> z"
  then have f: "\<lfloor>y\<rfloor> \<le> \<lfloor>z\<rfloor>" by (rule floor_mono)
  show ?thesis
  proof (cases "\<lfloor>y\<rfloor> = \<lfloor>z\<rfloor>")
    case True
    then show ?thesis using yz by (auto simp: rne_def Let_def)
  next
    case False
    with f have "\<lfloor>y\<rfloor> + 1 \<le> \<lfloor>z\<rfloor>" by simp
    then show ?thesis using rne_bounds [of y] rne_bounds [of z] by linarith
  qed
qed

lemma floor_log2_eq:
  assumes "2 powr of_int e \<le> y" and "y < 2 powr of_int (e + 1)"
  shows "\<lfloor>log 2 y\<rfloor> = e"
proof -
  have pos: "0 < y" using assms(1) by (rule pos_of_two_powr_le)
  have "of_int e \<le> log 2 y" using assms(1) pos by (simp add: le_log_iff)
  moreover have "log 2 y < of_int (e + 1)" using assms(2) pos by (simp add: log_less_iff)
  ultimately show ?thesis by (simp add: floor_eq_iff)
qed

lemma floor_log2_bounds:
  assumes "0 < y"
  shows "2 powr of_int \<lfloor>log 2 y\<rfloor> \<le> y" and "y < 2 powr of_int (\<lfloor>log 2 y\<rfloor> + 1)"
proof -
  show "2 powr of_int \<lfloor>log 2 y\<rfloor> \<le> y"
    by (rule iffD1 [OF le_log_iff [of 2 y]]) (use assms in simp_all)
  have "log 2 y < of_int (\<lfloor>log 2 y\<rfloor> + 1)" by linarith
  then show "y < 2 powr of_int (\<lfloor>log 2 y\<rfloor> + 1)"
    by (rule iffD1 [OF log_less_iff [of 2 y], rotated 2]) (use assms in simp_all)
qed


lemma two_powr_int_add: "2 powr of_int a * 2 powr of_int b = (2::real) powr of_int (a + b)"
  by (simp add: powr_add)

lemma two_powr_nat: "(2::real) powr of_int (int n) = of_int (2 ^ n)"
  by (simp add: powr_realpow)

lemma two_powr_int_le: "(2::real) powr of_int a \<le> 2 powr of_int b \<longleftrightarrow> a \<le> b"
  by simp

lemma two_powr_int_less: "(2::real) powr of_int a < 2 powr of_int b \<longleftrightarrow> a < b"
  by simp

lemma round_mag_unfold:
  "round_mag p emin y =
     of_int (rne (y / 2 powr of_int (max \<lfloor>log 2 y\<rfloor> emin - int p + 1)))
       * 2 powr of_int (max \<lfloor>log 2 y\<rfloor> emin - int p + 1)"
  by (simp add: round_mag_def Let_def)

lemma two_powr_split:
  "a = b + c \<Longrightarrow> (2::real) powr of_int a = 2 powr of_int b * 2 powr of_int c"
  by (simp add: powr_add)

lemma two_powr_pred: "1 \<le> p \<Longrightarrow> (2::real) powr of_int (int p - 1) = of_int (2 ^ (p - 1))"
  using two_powr_nat [of "p - 1"] by (simp add: of_nat_diff)

lemma round_mag_ge_pow2:
  assumes "2 powr of_int k \<le> y" and "emin \<le> k" and "1 \<le> p"
  shows "2 powr of_int k \<le> round_mag p emin y"
proof -
  define e where "e = \<lfloor>log 2 y\<rfloor>"
  define u :: real where "u = 2 powr of_int (e - int p + 1)"
  have pos: "0 < y" using assms(1) by (rule pos_of_two_powr_le)
  have lo: "2 powr of_int e \<le> y" and hi: "y < 2 powr of_int (e + 1)"
    using floor_log2_bounds [OF pos] by (simp_all add: e_def)
  have "2 powr of_int k < (2::real) powr of_int (e + 1)" using assms(1) hi by linarith
  then have ke: "k \<le> e" by simp
  then have E: "max e emin = e" using assms(2) by simp
  have u: "0 < u" by (simp add: u_def)
  have eu: "(2::real) powr of_int e = 2 powr of_int (int p - 1) * u"
    unfolding u_def by (rule two_powr_split) simp
  have "2 powr of_int (int p - 1) \<le> y / u"
    using lo u by (simp add: eu pos_le_divide_eq)
  then have "of_int (2 ^ (p - 1)) \<le> y / u" by (simp only: two_powr_pred [OF assms(3)])
  then have "2 ^ (p - 1) \<le> rne (y / u)" by (rule rne_ge)
  then have "(of_int (2 ^ (p - 1)) :: real) \<le> of_int (rne (y / u))" by (simp only: of_int_le_iff)
  then have "(2::real) powr of_int (int p - 1) \<le> of_int (rne (y / u))"
    by (simp only: two_powr_pred [OF assms(3)])
  then have "2 powr of_int (int p - 1) * u \<le> of_int (rne (y / u)) * u"
    using u by (simp add: mult_right_mono)
  then have "2 powr of_int e \<le> round_mag p emin y"
    by (simp only: eu round_mag_unfold e_def [symmetric] E u_def [symmetric])
  moreover have "(2::real) powr of_int k \<le> 2 powr of_int e" using ke by simp
  ultimately show ?thesis by linarith
qed

lemma round_mag_le_pow2:
  assumes "0 < y" and "y \<le> 2 powr of_int k" and "emin \<le> k" and "1 \<le> p"
  shows "round_mag p emin y \<le> 2 powr of_int k"
proof -
  define e where "e = \<lfloor>log 2 y\<rfloor>"
  define E where "E = max e emin"
  define u :: real where "u = 2 powr of_int (E - int p + 1)"
  have lo: "2 powr of_int e \<le> y"
    using floor_log2_bounds [OF assms(1)] by (simp_all add: e_def)
  have "2 powr of_int e \<le> (2::real) powr of_int k" using assms(2) lo by linarith
  then have "e \<le> k" by simp
  then have Ek: "E \<le> k" using assms(3) by (simp add: E_def)
  have u: "0 < u" by (simp add: u_def)
  define n where "n = nat (k - E) + (p - 1)"
  have n: "int n = k - E + int p - 1" using Ek assms(4) by (simp add: n_def of_nat_diff)
  have "(2::real) powr of_int k = 2 powr of_int (int n) * u"
    unfolding u_def by (rule two_powr_split) (simp add: n)
  then have ku: "(2::real) powr of_int k = of_int (2 ^ n) * u"
    by (simp only: two_powr_nat)
  have "y / u \<le> of_int (2 ^ n)" using assms(2) u by (simp add: ku pos_divide_le_eq)
  then have "rne (y / u) \<le> 2 ^ n" by (rule rne_le)
  then have "(of_int (rne (y / u)) :: real) \<le> of_int (2 ^ n)" by (simp only: of_int_le_iff)
  then have "of_int (rne (y / u)) * u \<le> of_int (2 ^ n) * u"
    using u by (simp add: mult_right_mono)
  then show ?thesis
    by (simp only: ku round_mag_unfold e_def [symmetric] E_def [symmetric] u_def [symmetric])
qed

lemma round_mag_nonneg: "0 < y \<Longrightarrow> 0 \<le> round_mag p emin y"
proof -
  assume "0 < y"
  then have "0 \<le> y / 2 powr of_int (max \<lfloor>log 2 y\<rfloor> emin - int p + 1)" by simp
  then have "0 \<le> rne (y / 2 powr of_int (max \<lfloor>log 2 y\<rfloor> emin - int p + 1))"
    using rne_ge [of 0] by simp
  then show ?thesis by (simp add: round_mag_unfold)
qed

lemma round_mag_grid:
  assumes "emin \<le> E" and "1 \<le> p" and "2 ^ (p - 1) \<le> m" and "m < 2 ^ p"
    and "0 \<le> d" and "d < 1 / 2"
  shows "round_mag p emin ((of_int m + d) * 2 powr of_int (E - int p + 1))
    = of_int m * 2 powr of_int (E - int p + 1)"
proof -
  define u :: real where "u = 2 powr of_int (E - int p + 1)"
  define y where "y = (of_int m + d) * u"
  have u: "0 < u" by (simp add: u_def)
  have "(2::real) powr of_int E = 2 powr of_int (int p - 1) * u"
    unfolding u_def by (rule two_powr_split) simp
  then have Eu: "(2::real) powr of_int E = of_int (2 ^ (p - 1)) * u"
    by (simp only: two_powr_pred [OF assms(2)])
  have "(2::real) powr of_int (E + 1) = 2 powr of_int (int p) * u"
    unfolding u_def by (rule two_powr_split) simp
  then have E1u: "(2::real) powr of_int (E + 1) = of_int (2 ^ p) * u"
    by (simp only: two_powr_nat)
  have "(of_int (2 ^ (p - 1)) :: real) \<le> of_int m" using assms(3) by (simp only: of_int_le_iff)
  then have "of_int (2 ^ (p - 1)) \<le> of_int m + d" using assms(5) by linarith
  then have lo: "2 powr of_int E \<le> y"
    using u by (simp only: Eu y_def mult_right_mono less_imp_le)
  have "m + 1 \<le> 2 ^ p" using assms(4) by simp
  then have "(of_int (m + 1) :: real) \<le> of_int (2 ^ p)" by (simp only: of_int_le_iff)
  then have "of_int m + d < of_int (2 ^ p)" using assms(6) by simp
  then have hi: "y < 2 powr of_int (E + 1)"
    using u by (simp only: E1u y_def mult_strict_right_mono)
  have e: "\<lfloor>log 2 y\<rfloor> = E" by (rule floor_log2_eq [OF lo hi])
  have "y / u = of_int m + d" using u by (simp add: y_def)
  then have "rne (y / u) = m" using rne_near [OF assms(5,6)] by simp
  then have "round_mag p emin y = of_int m * u"
    by (simp only: round_mag_unfold e max_absorb1 [OF assms(1)] u_def [symmetric])
  then show ?thesis by (simp only: y_def u_def)
qed

lemma round_mag_mono:
  assumes "0 < x" and "x \<le> y" and "1 \<le> p"
  shows "round_mag p emin x \<le> round_mag p emin y"
proof -
  define ex where "ex = max \<lfloor>log 2 x\<rfloor> emin"
  define ey where "ey = max \<lfloor>log 2 y\<rfloor> emin"
  have ypos: "0 < y" using assms(1,2) by linarith
  have "log 2 x \<le> log 2 y" using assms(1,2) by simp
  then have fl: "\<lfloor>log 2 x\<rfloor> \<le> \<lfloor>log 2 y\<rfloor>" by (rule floor_mono)
  then have le: "ex \<le> ey" by (auto simp: ex_def ey_def)
  show ?thesis
  proof (cases "ex = ey")
    case True
    define u :: real where "u = 2 powr of_int (ex - int p + 1)"
    have u: "0 < u" by (simp add: u_def)
    have "x / u \<le> y / u" using assms(2) u by (simp add: divide_right_mono)
    then have "rne (x / u) \<le> rne (y / u)" by (rule rne_mono)
    then have "(of_int (rne (x / u)) :: real) \<le> of_int (rne (y / u))" by (simp only: of_int_le_iff)
    then have "of_int (rne (x / u)) * u \<le> of_int (rne (y / u)) * u"
      using u by (simp add: mult_right_mono)
    then have "round_mag p emin x \<le> of_int (rne (y / u)) * u"
      by (simp only: round_mag_unfold ex_def [symmetric] u_def [symmetric])
    then show ?thesis
      by (simp only: round_mag_unfold [of p emin y] ey_def [symmetric] True [symmetric]
          u_def [symmetric])
  next
    case False
    with le have lt: "ex + 1 \<le> ey" by simp
    have emin_ex: "emin \<le> ex" by (simp add: ex_def)
    from lt emin_ex have "ey \<noteq> emin" by linarith
    then have ey: "ey = \<lfloor>log 2 y\<rfloor>" by (auto simp: ey_def max_def split: if_splits)
    have "x < 2 powr of_int (\<lfloor>log 2 x\<rfloor> + 1)" using floor_log2_bounds [OF assms(1)] by simp
    moreover have "(2::real) powr of_int (\<lfloor>log 2 x\<rfloor> + 1) \<le> 2 powr of_int (ex + 1)"
      by (simp add: ex_def)
    ultimately have "x \<le> 2 powr of_int (ex + 1)" by linarith
    then have 1: "round_mag p emin x \<le> 2 powr of_int (ex + 1)"
      using round_mag_le_pow2 [OF assms(1) _ _ assms(3), of "ex + 1" emin] emin_ex by simp
    have "2 powr of_int ey \<le> y" using floor_log2_bounds [OF ypos] by (simp add: ey)
    then have 2: "2 powr of_int ey \<le> round_mag p emin y"
      using round_mag_ge_pow2 [OF _ _ assms(3), of ey y emin] lt emin_ex by simp
    have "(2::real) powr of_int (ex + 1) \<le> 2 powr of_int ey" using lt by simp
    with 1 2 show ?thesis by linarith
  qed
qed


lemma round_nearest_neg: "round_nearest p emin (- x) = - round_nearest p emin x"
  by (simp add: round_nearest_def)

lemma round_nearest_nonneg: "0 \<le> x \<Longrightarrow> 0 \<le> round_nearest p emin x"
  by (simp add: round_nearest_def round_mag_nonneg)

lemma round_nearest_mono:
  assumes "x \<le> y" and "1 \<le> p"
  shows "round_nearest p emin x \<le> round_nearest p emin y"
proof -
  consider (pp) "0 < x" | (zp) "x = 0" | (np) "x < 0" "0 \<le> y" | (nn) "x < 0" "y < 0"
    by linarith
  then show ?thesis
  proof cases
    case pp
    then show ?thesis using assms round_mag_mono [OF pp assms] by (simp add: round_nearest_def)
  next
    case zp
    then show ?thesis using assms round_nearest_nonneg [of y p emin] by (simp add: round_nearest_def)
  next
    case np
    have "0 \<le> round_mag p emin (- x)" using np(1) by (simp add: round_mag_nonneg)
    then show ?thesis using np round_nearest_nonneg [OF np(2), of p emin]
      by (simp add: round_nearest_def)
  next
    case nn
    have "round_mag p emin (- y) \<le> round_mag p emin (- x)"
      using round_mag_mono [of "- y" "- x" p emin] nn assms by simp
    then show ?thesis using nn by (simp add: round_nearest_def)
  qed
qed

lemma round_nearest_ge_pow2:
  "2 powr of_int k \<le> x \<Longrightarrow> emin \<le> k \<Longrightarrow> 1 \<le> p \<Longrightarrow> 2 powr of_int k \<le> round_nearest p emin x"
  using round_mag_ge_pow2 [of k x emin p] pos_of_two_powr_le [of "of_int k" x]
  by (simp add: round_nearest_def)

lemma round_nearest_le_pow2:
  assumes "x \<le> 2 powr of_int k" and "emin \<le> k" and "1 \<le> p"
  shows "round_nearest p emin x \<le> 2 powr of_int k"
proof (cases "0 < x")
  case True
  then show ?thesis using round_mag_le_pow2 [OF True assms] by (simp add: round_nearest_def)
next
  case False
  then have "round_nearest p emin x \<le> round_nearest p emin 0"
    using round_nearest_mono [of x 0 p emin] assms(3) by simp
  also have "round_nearest p emin 0 = 0" by (simp add: round_nearest_def)
  finally have "round_nearest p emin x \<le> 0" .
  moreover have "0 < (2::real) powr of_int k" by simp
  ultimately show ?thesis by linarith
qed

lemma round_nearest_abs_le_pow2:
  assumes "\<bar>x\<bar> \<le> 2 powr of_int k" and "emin \<le> k" and "1 \<le> p"
  shows "\<bar>round_nearest p emin x\<bar> \<le> 2 powr of_int k"
proof -
  have "round_nearest p emin x \<le> 2 powr of_int k"
    using round_nearest_le_pow2 [of x k emin p] assms by simp
  moreover have "round_nearest p emin (- x) \<le> 2 powr of_int k"
    using round_nearest_le_pow2 [of "- x" k emin p] assms by simp
  ultimately show ?thesis by (simp add: round_nearest_neg abs_le_iff)
qed

lemma round_nearest_grid:
  assumes "emin \<le> E" and "1 \<le> p" and "2 ^ (p - 1) \<le> m" and "m < 2 ^ p"
    and "0 \<le> d" and "d < 1 / 2"
    and "x = (of_int m + d) * 2 powr of_int (E - int p + 1)"
  shows "round_nearest p emin x = of_int m * 2 powr of_int (E - int p + 1)"
proof -
  have "(0::int) < 2 ^ (p - 1)" by simp
  with assms(3) have "0 < m" by linarith
  then have "(0::real) < of_int m + d" using assms(5) by (simp add: add_pos_nonneg)
  moreover have "(0::real) < 2 powr of_int (E - int p + 1)" by simp
  ultimately have "0 < (of_int m + d) * 2 powr of_int (E - int p + 1)"
    by (rule mult_pos_pos)
  then have "0 < x" by (simp only: assms(7))
  then have "round_nearest p emin x = round_mag p emin x" by (simp add: round_nearest_def)
  then show ?thesis by (simp only: assms(7) round_mag_grid [OF assms(1-6)])
qed

subsection \<open>Rounding to a format\<close>

lemma to_float_not_NaN [simp]: "to_float p emin emax x \<noteq> NaN"
  by (simp add: to_float_def Let_def)

lemma to_float_inside:
  assumes "y < 2 powr of_int (emax + 1)" and "- (2 powr of_int (emax + 1)) < y"
    and "round_nearest p emin x = y"
  shows "to_float p emin emax x = Fin y"
proof -
  have 1: "\<not> 2 powr of_int (emax + 1) \<le> y" using assms(1) by linarith
  have 2: "\<not> y \<le> - (2 powr of_int (emax + 1))" using assms(2) by linarith
  show ?thesis unfolding to_float_def Let_def assms(3) using 1 2 by (simp only: if_False)
qed

lemma to_float_bounded:
  assumes "\<bar>x\<bar> \<le> 2 powr of_int k" and "emin \<le> k" and "k \<le> emax" and "1 \<le> p"
  shows "to_float p emin emax x = Fin (round_nearest p emin x)"
    and "\<bar>round_nearest p emin x\<bar> \<le> 2 powr of_int k"
proof -
  show b: "\<bar>round_nearest p emin x\<bar> \<le> 2 powr of_int k"
    by (rule round_nearest_abs_le_pow2 [OF assms(1,2,4)])
  have "k < emax + 1" using assms(3) by simp
  then have lt: "(2::real) powr of_int k < 2 powr of_int (emax + 1)"
    by (simp only: two_powr_int_less)
  show "to_float p emin emax x = Fin (round_nearest p emin x)"
    by (rule to_float_inside) (use b lt in \<open>simp_all only: abs_le_iff\<close>, linarith+)
qed

lemma to_float_range:
  assumes "2 powr of_int k \<le> x" and "x \<le> 2 powr of_int j"
    and "emin \<le> k" and "j \<le> emax" and "1 \<le> p"
  shows "\<exists>y. to_float p emin emax x = Fin y \<and> 2 powr of_int k \<le> y \<and> y \<le> 2 powr of_int j"
proof -
  have "(2::real) powr of_int k \<le> 2 powr of_int j" using assms(1,2) by linarith
  then have kj: "k \<le> j" by simp
  have "0 < x" using assms(1) by (rule pos_of_two_powr_le)
  then have "\<bar>x\<bar> \<le> 2 powr of_int j" using assms(2) by simp
  from to_float_bounded(1) [OF this _ assms(4,5)] kj assms(3)
  have "to_float p emin emax x = Fin (round_nearest p emin x)" by simp
  moreover have "2 powr of_int k \<le> round_nearest p emin x"
    by (rule round_nearest_ge_pow2 [OF assms(1,3,5)])
  moreover have "round_nearest p emin x \<le> 2 powr of_int j"
    using round_nearest_le_pow2 [OF assms(2) _ assms(5)] kj assms(3) by simp
  ultimately show ?thesis by blast
qed

lemma to_float_overflow:
  assumes "2 powr of_int (emax + 1) \<le> x" and "emin \<le> emax + 1" and "1 \<le> p"
  shows "to_float p emin emax x = PInf"
  using round_nearest_ge_pow2 [OF assms] by (simp add: to_float_def Let_def)

lemma to_float_grid:
  assumes "emin \<le> E" and "E \<le> emax" and "1 \<le> p" and "2 ^ (p - 1) \<le> m" and "m < 2 ^ p"
    and "0 \<le> d" and "d < 1 / 2"
    and "x = (of_int m + d) * 2 powr of_int (E - int p + 1)"
  shows "to_float p emin emax x = Fin (of_int m * 2 powr of_int (E - int p + 1))"
proof -
  define u :: real where "u = 2 powr of_int (E - int p + 1)"
  have u: "0 < u" by (simp add: u_def)
  have r: "round_nearest p emin x = of_int m * u"
    unfolding u_def by (rule round_nearest_grid [OF assms(1,3,4,5,6,7,8)])
  have "(of_int m :: real) < of_int (2 ^ p)" using assms(5) by (simp only: of_int_less_iff)
  then have a: "of_int m * u < of_int (2 ^ p) * u" using u by (simp only: mult_strict_right_mono)
  have "(2::real) powr of_int (E + 1) = 2 powr of_int (int p) * u"
    unfolding u_def by (rule two_powr_split) simp
  then have b: "(2::real) powr of_int (E + 1) = of_int (2 ^ p) * u"
    by (simp only: two_powr_nat)
  have "E + 1 \<le> emax + 1" using assms(2) by simp
  then have c: "(2::real) powr of_int (E + 1) \<le> 2 powr of_int (emax + 1)"
    by (simp only: two_powr_int_le)
  have lt: "of_int m * u < 2 powr of_int (emax + 1)"
    using a b c by linarith
  have "(0::int) < 2 ^ (p - 1)" by simp
  with assms(4) have "0 < m" by linarith
  then have "(0::real) < of_int m" by simp
  then have "0 < of_int m * u" using u by (rule mult_pos_pos)
  moreover have "(0::real) < 2 powr of_int (emax + 1)" by simp
  ultimately have gt: "- (2 powr of_int (emax + 1)) < of_int m * u" by linarith
  show ?thesis using to_float_inside [OF lt gt r] by (simp only: u_def)
qed

text \<open>Rounding keeps the order: it makes no smaller number greater.\<close>

lemma to_float_mono:
  assumes "x \<le> y" and "1 \<le> p"
  shows "\<not> fl_gt (to_float p emin emax x) (to_float p emin emax y)"
  using round_nearest_mono [OF assms, of emin]
  by (auto simp: to_float_def Let_def)

subsection \<open>The two formats\<close>

lemma float32_range:
  assumes "2 powr of_int k \<le> x" and "x \<le> 2 powr of_int j" and "- 126 \<le> k" and "j \<le> 127"
  shows "\<exists>y. float32 x = Fin y \<and> 2 powr of_int k \<le> y \<and> y \<le> 2 powr of_int j"
  unfolding float32_def by (rule to_float_range [OF assms]) simp

lemma float64_range:
  assumes "2 powr of_int k \<le> x" and "x \<le> 2 powr of_int j" and "- 1022 \<le> k" and "j \<le> 1023"
  shows "\<exists>y. float64 x = Fin y \<and> 2 powr of_int k \<le> y \<and> y \<le> 2 powr of_int j"
  unfolding float64_def by (rule to_float_range [OF assms]) simp

lemma float32_bounded:
  assumes "\<bar>x\<bar> \<le> 2 powr of_int k" and "- 126 \<le> k" and "k \<le> 127"
  shows "\<exists>y. float32 x = Fin y \<and> \<bar>y\<bar> \<le> 2 powr of_int k"
  unfolding float32_def using to_float_bounded [OF assms, of 24] by simp

lemma float64_nonneg_bounded:
  assumes "0 \<le> x" and "x \<le> 2 powr of_int k" and "- 1022 \<le> k" and "k \<le> 1023"
  shows "\<exists>y. float64 x = Fin y \<and> 0 \<le> y \<and> y \<le> 2 powr of_int k"
proof -
  have "\<bar>x\<bar> \<le> 2 powr of_int k" using assms(1,2) by simp
  from to_float_bounded [OF this assms(3,4), of 53]
  have "float64 x = Fin (round_nearest 53 (- 1022) x)"
    and "\<bar>round_nearest 53 (- 1022) x\<bar> \<le> 2 powr of_int k"
    by (simp_all add: float64_def)
  moreover have "0 \<le> round_nearest 53 (- 1022) x" using assms(1) by (rule round_nearest_nonneg)
  ultimately show ?thesis by auto
qed

lemma float32_neg_range:
  assumes "x \<le> - (2 powr of_int k)" and "- (2 powr of_int j) \<le> x" and "- 126 \<le> k" and "j \<le> 127"
  shows "\<exists>y. float32 x = Fin y \<and> y \<le> - (2 powr of_int k) \<and> - (2 powr of_int j) \<le> y"
proof -
  have kj: "(2::real) powr of_int k \<le> 2 powr of_int j" using assms(1,2) by linarith
  then have "k \<le> j" by simp
  have "0 < (2::real) powr of_int k" by simp
  then have a: "\<bar>x\<bar> \<le> 2 powr of_int j"
    using assms(1,2) by linarith
  from to_float_bounded [OF a _ assms(4), of "- 126" 24] \<open>k \<le> j\<close> assms(3)
  have f: "float32 x = Fin (round_nearest 24 (- 126) x)"
    and b: "\<bar>round_nearest 24 (- 126) x\<bar> \<le> 2 powr of_int j"
    by (simp_all add: float32_def)
  have "2 powr of_int k \<le> round_nearest 24 (- 126) (- x)"
    by (rule round_nearest_ge_pow2) (use assms(1,3) in simp_all)
  then have "round_nearest 24 (- 126) x \<le> - (2 powr of_int k)"
    by (simp add: round_nearest_neg)
  with f b show ?thesis by (auto simp: abs_le_iff)
qed

lemma float32_mono: "x \<le> y \<Longrightarrow> \<not> fl_gt (float32 x) (float32 y)"
  unfolding float32_def by (rule to_float_mono) simp_all

lemma float32_grid:
  assumes "- 126 \<le> E" and "E \<le> 127" and "2 ^ 23 \<le> m" and "m < 2 ^ 24"
    and "0 \<le> d" and "d < 1 / 2"
    and "x = (of_int m + d) * 2 powr of_int (E - 23)"
  shows "float32 x = Fin (of_int m * 2 powr of_int (E - 23))"
proof -
  have x: "x = (of_int m + d) * 2 powr of_int (E - int 24 + 1)" using assms(7) by simp
  have "to_float 24 (- 126) 127 x = Fin (of_int m * 2 powr of_int (E - int 24 + 1))"
    by (rule to_float_grid [OF assms(1,2) _ _ _ assms(5,6) x]) (use assms(3,4) in simp_all)
  then show ?thesis by (simp add: float32_def)
qed

lemma float64_grid:
  assumes "- 1022 \<le> E" and "E \<le> 1023" and "2 ^ 52 \<le> m" and "m < 2 ^ 53"
    and "0 \<le> d" and "d < 1 / 2"
    and "x = (of_int m + d) * 2 powr of_int (E - 52)"
  shows "float64 x = Fin (of_int m * 2 powr of_int (E - 52))"
proof -
  have x: "x = (of_int m + d) * 2 powr of_int (E - int 53 + 1)" using assms(7) by simp
  have "to_float 53 (- 1022) 1023 x = Fin (of_int m * 2 powr of_int (E - int 53 + 1))"
    by (rule to_float_grid [OF assms(1,2) _ _ _ assms(5,6) x]) (use assms(3,4) in simp_all)
  then show ?thesis by (simp add: float64_def)
qed

subsection \<open>Numbers\<close>

lemma epsilon_pos: "0 < epsilon"
  by (simp add: epsilon_def)

lemma epsilon_bounds: "2 powr of_int (- 40) \<le> epsilon" "epsilon \<le> 2 powr of_int (- 39)"
  by (simp_all add: epsilon_def powr_neg_numeral)

lemma ln_2_bounds: "1 / 2 \<le> ln (2::real)" "ln (2::real) \<le> 3 / 4"
proof -
  have "exp (1 / 2 :: real) \<le> 2" using exp_bound_half [of "1 / 2 :: real"] by simp
  then show "1 / 2 \<le> ln (2::real)" using ln_ge_iff [of 2 "1 / 2"] by simp
  have "(2::real) \<le> 1 + 3 / 4 + (3 / 4)\<^sup>2 / 2" by (simp add: power2_eq_square)
  also have "\<dots> \<le> exp (3 / 4)" by (rule exp_lower_Taylor_quadratic) simp
  finally have "ln (2::real) \<le> ln (exp (3 / 4))" by (simp del: ln_exp)
  then show "ln (2::real) \<le> 3 / 4" by simp
qed

lemma float64_epsilon:
  "\<exists>v. float64 epsilon = Fin v \<and> 2 powr of_int (- 40) \<le> v \<and> v \<le> 2 powr of_int (- 39)"
  by (rule float64_range [OF epsilon_bounds]) simp_all

subsection \<open>The log-prior term\<close>

lemma arith_simps [simp]:
  "single ieee = float32" "double ieee = float64"
  "single exact_arith = Fin" "double exact_arith = Fin"
  by (simp_all add: ieee_def exact_arith_def)

lemma two_powr_7: "(2::real) powr of_int 7 = 128"
  by simp

lemma log_prior_term_finite:
  assumes "0 \<le> q" and "q powr t \<le> 2 powr of_int 126" and "0 < t"
  shows "\<exists>c. log_prior_term ieee q t = Fin c \<and> \<bar>c\<bar> \<le> 128"
proof -
  have "\<exists>y. np_power float64 q t = Fin y \<and> 0 \<le> y \<and> y \<le> 2 powr of_int 126"
  proof (cases "q = 0")
    case True
    then show ?thesis using assms(3) by (simp add: np_power_def)
  next
    case False
    with assms(1) have "0 < q" by simp
    then have "np_power float64 q t = float64 (q powr t)" using assms(3) by (simp add: np_power_def)
    moreover have "\<exists>y. float64 (q powr t) = Fin y \<and> 0 \<le> y \<and> y \<le> 2 powr of_int 126"
      by (rule float64_nonneg_bounded [OF _ assms(2)]) simp_all
    ultimately show ?thesis by simp
  qed
  then obtain y where y: "np_power float64 q t = Fin y" "0 \<le> y" "y \<le> 2 powr of_int 126"
    by blast
  from float64_epsilon obtain v where
    v: "float64 epsilon = Fin v" "2 powr of_int (- 40) \<le> v" "v \<le> 2 powr of_int (- 39)"
    by blast
  have lo: "2 powr of_int (- 40) \<le> y + v" using y(2) v(2) by linarith
  have "(2::real) powr of_int (- 39) \<le> 2 powr of_int 126" by (simp only: two_powr_int_le)
  then have "y + v \<le> 2 powr of_int 126 + 2 powr of_int 126" using y(3) v(3) by linarith
  also have "\<dots> = 2 powr of_int 126 * 2 powr of_int 1" by simp
  also have "\<dots> = 2 powr of_int 127" by (simp only: two_powr_int_add) simp
  finally have hi: "y + v \<le> 2 powr of_int 127" .
  from float64_range [OF lo hi] obtain u where
    u: "float64 (y + v) = Fin u" "2 powr of_int (- 40) \<le> u" "u \<le> 2 powr of_int 127"
    by auto
  from float32_range [OF u(2,3)] obtain w where
    w: "float32 u = Fin w" "2 powr of_int (- 40) \<le> w" "w \<le> 2 powr of_int 127"
    by auto
  have wpos: "0 < w" using w(2) by (rule pos_of_two_powr_le)
  have "ln w \<le> ln (2 powr of_int 127)" by (subst ln_le_cancel_iff) (use w(3) wpos in simp_all)
  also have "\<dots> = of_int 127 * ln 2" by (rule ln_powr)
  also have "\<dots> \<le> 128" using ln_2_bounds by simp
  finally have up: "ln w \<le> 128" .
  have "ln (2 powr of_int (- 40)) \<le> ln w" by (subst ln_le_cancel_iff) (use w(2) wpos in simp_all)
  then have "of_int (- 40) * ln 2 \<le> ln w" by (simp only: ln_powr)
  then have dn: "- 128 \<le> ln w" using ln_2_bounds by simp
  have "\<bar>ln w\<bar> \<le> 128" using up dn by simp
  then have "\<bar>ln w\<bar> \<le> 2 powr of_int 7" by (simp only: two_powr_7)
  from float32_bounded [OF this] have "\<exists>c. float32 (ln w) = Fin c \<and> \<bar>c\<bar> \<le> 2 powr of_int 7"
    by simp
  then obtain c where "float32 (ln w) = Fin c" "\<bar>c\<bar> \<le> 128"
    by (auto simp only: two_powr_7)
  then show ?thesis using y(1) v(1) u(1) w(1) wpos by (simp add: log_prior_term_def)
qed

lemma log_prior_term_zero:
  assumes "0 < t"
  shows "\<exists>c. log_prior_term ieee 0 t = Fin c \<and> c \<le> - 1 \<and> - 64 \<le> c"
proof -
  from float64_epsilon obtain v where
    v: "float64 epsilon = Fin v" "2 powr of_int (- 40) \<le> v" "v \<le> 2 powr of_int (- 39)"
    by blast
  from float64_range [OF v(2,3)] obtain u where
    u: "float64 v = Fin u" "2 powr of_int (- 40) \<le> u" "u \<le> 2 powr of_int (- 39)"
    by auto
  from float32_range [OF u(2,3)] obtain w where
    w: "float32 u = Fin w" "2 powr of_int (- 40) \<le> w" "w \<le> 2 powr of_int (- 39)"
    by auto
  have wpos: "0 < w" using w(2) by (rule pos_of_two_powr_le)
  have "ln w \<le> ln (2 powr of_int (- 39))" by (subst ln_le_cancel_iff) (use w(3) wpos in simp_all)
  also have "\<dots> = of_int (- 39) * ln 2" by (rule ln_powr)
  also have "\<dots> \<le> - 1" using ln_2_bounds by simp
  finally have up: "ln w \<le> - (2 powr of_int 0)" by simp
  have "ln (2 powr of_int (- 40)) \<le> ln w" by (subst ln_le_cancel_iff) (use w(2) wpos in simp_all)
  then have "of_int (- 40) * ln 2 \<le> ln w" by (simp only: ln_powr)
  then have dn: "- (2 powr of_int 6) \<le> ln w" using ln_2_bounds by simp
  from float32_neg_range [OF up dn] obtain c where "float32 (ln w) = Fin c" "c \<le> - 1" "- 64 \<le> c"
    by auto
  then show ?thesis using assms v(1) u(1) w(1) wpos by (simp add: log_prior_term_def np_power_def)
qed

text \<open>Without the guard a zero prior gives \<open>-inf\<close>.\<close>

lemma unguarded_log_of_zero_prior:
  "log_with float32 (cast_with float32 (np_power float64 0 1)) = NInf"
  by (simp add: np_power_def float32_def to_float_def round_nearest_def)

lemma log_prior_term_exact:
  assumes "0 \<le> q" and "0 < t"
  shows "log_prior_term exact_arith q t = Fin (ln (q powr t + epsilon))"
proof -
  have "0 \<le> q powr t" by simp
  then have "0 < q powr t + epsilon" using epsilon_pos by (rule add_nonneg_pos)
  then show ?thesis using assms epsilon_pos
    by (cases "q = 0") (simp_all add: log_prior_term_def np_power_def)
qed

lemma log_prior_term_overflow: "log_prior_term ieee (2 ^ 130) 1 = PInf"
proof -
  have "float64 (2 ^ 130) = Fin (of_int (2 ^ 52) * 2 powr of_int (130 - 52))"
    by (rule float64_grid [where d = 0]) (simp_all add: powr_numeral)
  then have p: "float64 (2 ^ 130) = Fin (2 ^ 130)" by (simp add: powr_numeral)
  from float64_epsilon obtain v where
    v: "float64 epsilon = Fin v" "2 powr of_int (- 40) \<le> v" "v \<le> 2 powr of_int (- 39)"
    by blast
  have "0 \<le> v" using pos_of_two_powr_le [OF v(2)] by simp
  have "2 powr of_int 130 \<le> (2 ^ 130 + v :: real)" using \<open>0 \<le> v\<close> by (simp add: powr_numeral)
  moreover have "2 ^ 130 + v \<le> (2::real) powr of_int 131"
    using v(3) by (simp add: powr_numeral powr_neg_numeral)
  ultimately obtain u where u: "float64 (2 ^ 130 + v) = Fin u" "2 powr of_int 130 \<le> u"
    using float64_range [of 130 "2 ^ 130 + v" 131] by auto
  have "(2::real) powr of_int (127 + 1) \<le> 2 powr of_int 130" by simp
  then have "2 powr of_int (127 + 1) \<le> u" using u(2) by linarith
  then have "float32 u = PInf" unfolding float32_def by (rule to_float_overflow) simp_all
  then show ?thesis using p v(1) u(1) by (simp add: log_prior_term_def np_power_def)
qed

subsection \<open>The term of a base probability of one quarter\<close>

lemma float64_quarter: "float64 (1 / 4) = Fin (1 / 4)"
proof -
  have "float64 (1 / 4) = Fin (of_int (2 ^ 52) * 2 powr of_int (- 2 - 52))"
    by (rule float64_grid [where d = 0]) (simp_all add: powr_neg_numeral)
  then show ?thesis by (simp add: powr_neg_numeral)
qed

lemma round64_near_quarter:
  assumes "0 \<le> v" and "v \<le> 2 powr of_int (- 39)"
  shows "\<exists>u. float64 (1 / 4 + v) = Fin u \<and> 1 / 4 \<le> u \<and> u \<le> 1 / 4 + 1 / 2 ^ 39"
proof -
  let ?r = "round_nearest 53 (- 1022)"
  have v39: "v \<le> 1 / 2 ^ 39" using assms(2) by (simp add: powr_neg_numeral)
  have "\<bar>1 / 4 + v\<bar> \<le> 2 powr of_int 0" using assms(1) v39 by simp
  from to_float_bounded(1) [OF this, of "- 1022" 1023 53]
  have f: "float64 (1 / 4 + v) = Fin (?r (1 / 4 + v))" by (simp add: float64_def)
  have lo: "?r (1 / 4) = of_int (2 ^ 52) * 2 powr of_int (- 2 - int 53 + 1)"
    by (rule round_nearest_grid [where d = 0]) (simp_all add: powr_neg_numeral)
  have hi: "?r (1 / 4 + 1 / 2 ^ 39) = of_int (2 ^ 52 + 2 ^ 15) * 2 powr of_int (- 2 - int 53 + 1)"
    by (rule round_nearest_grid [where d = 0]) (simp_all add: powr_neg_numeral)
  have lo2: "?r (1 / 4) = 1 / 4" unfolding lo by (simp add: powr_neg_numeral)
  have hi2: "?r (1 / 4 + 1 / 2 ^ 39) = 1 / 4 + 1 / 2 ^ 39" unfolding hi by (simp add: powr_neg_numeral)
  have "?r (1 / 4) \<le> ?r (1 / 4 + v)" by (rule round_nearest_mono) (use assms(1) in simp_all)
  then have 1: "1 / 4 \<le> ?r (1 / 4 + v)" by (simp only: lo2)
  have "?r (1 / 4 + v) \<le> ?r (1 / 4 + 1 / 2 ^ 39)" by (rule round_nearest_mono) (use v39 in simp_all)
  then have 2: "?r (1 / 4 + v) \<le> 1 / 4 + 1 / 2 ^ 39" by (simp only: hi2)
  from f 1 2 show ?thesis by blast
qed

lemma float32_near_quarter:
  assumes "1 / 4 \<le> u" and "u \<le> 1 / 4 + 1 / 2 ^ 39"
  shows "float32 u = Fin (1 / 4)"
proof -
  have "float32 u = Fin (of_int (2 ^ 23) * 2 powr of_int (- 2 - 23))"
    by (rule float32_grid [where d = "(u - 1 / 4) * 2 ^ 25"])
      (use assms in \<open>simp_all add: powr_neg_numeral field_simps\<close>)
  then show ?thesis by (simp add: powr_neg_numeral)
qed

lemma float32_ln_quarter:
  "\<exists>m. float32 (ln (1 / 4)) = Fin (- (of_int m * 2 powr of_int (- 23)))
       \<and> 2 ^ 23 \<le> m \<and> m \<le> 3 * 2 ^ 22"
proof -
  define z :: real where "z = ln 4"
  define m where "m = rne (z / 2 powr of_int (- 23))"
  have "z = ln (2 powr of_int 2)" by (simp add: z_def)
  also have "\<dots> = of_int 2 * ln 2" by (rule ln_powr)
  finally have z2: "z = 2 * ln 2" by simp
  have z1: "1 \<le> z" and z32: "z \<le> 3 / 2" using ln_2_bounds by (simp_all add: z2)
  have e: "\<lfloor>log 2 z\<rfloor> = 0"
    by (rule floor_log2_eq) (use z1 z32 in simp_all)
  have rm: "round_mag 24 (- 126) z = of_int m * 2 powr of_int (- 23)"
    by (simp add: round_mag_unfold e m_def)
  have "of_int (2 ^ 23) \<le> z / 2 powr of_int (- 23)"
    using z1 by (simp add: powr_neg_numeral)
  then have m1: "2 ^ 23 \<le> m" unfolding m_def by (rule rne_ge)
  have "z / 2 powr of_int (- 23) \<le> of_int (3 * 2 ^ 22)"
    using z32 by (simp add: powr_neg_numeral)
  then have m2: "m \<le> 3 * 2 ^ 22" unfolding m_def by (rule rne_le)
  have "ln (1 / 4 :: real) = - z" by (simp add: z_def ln_div)
  moreover have "z \<noteq> 0" "\<not> 0 < - z" using z1 by simp_all
  ultimately have rn: "round_nearest 24 (- 126) (ln (1 / 4)) = - (of_int m * 2 powr of_int (- 23))"
    by (simp add: round_nearest_def rm)
  have mr: "(of_int m :: real) \<le> 3 * 2 ^ 22" "(2 ^ 23 :: real) \<le> of_int m"
    using m1 m2 by (simp_all add: of_int_le_iff [symmetric] del: of_int_le_iff)
  have "float32 (ln (1 / 4)) = Fin (- (of_int m * 2 powr of_int (- 23)))"
    unfolding float32_def
    by (rule to_float_inside [OF _ _ rn]) (use mr in \<open>simp_all add: powr_neg_numeral\<close>)
  with m1 m2 show ?thesis by blast
qed

lemma log_prior_term_quarter:
  "\<exists>m. log_prior_term ieee (1 / 4) 1 = Fin (- (of_int m * 2 powr of_int (- 23)))
       \<and> 2 ^ 23 \<le> m \<and> m \<le> 3 * 2 ^ 22"
proof -
  from float64_epsilon obtain v where
    v: "float64 epsilon = Fin v" "2 powr of_int (- 40) \<le> v" "v \<le> 2 powr of_int (- 39)"
    by blast
  have "0 \<le> v" using pos_of_two_powr_le [OF v(2)] by simp
  from round64_near_quarter [OF this v(3)] obtain u where
    u: "float64 (1 / 4 + v) = Fin u" "1 / 4 \<le> u" "u \<le> 1 / 4 + 1 / 2 ^ 39" by blast
  have "log_prior_term ieee (1 / 4) 1 = float32 (ln (1 / 4))"
    by (simp add: log_prior_term_def np_power_def float64_quarter v(1) u(1)
        float32_near_quarter [OF u(2,3)])
  then show ?thesis using float32_ln_quarter by simp
qed

text \<open>Two logits that differ by \<open>2\<^sup>-\<^sup>2\<^sup>7\<close> are equal after the shift.\<close>

lemma shift_tie:
  assumes "2 ^ 23 \<le> m" and "m \<le> 3 * 2 ^ 22"
  shows "fl_sub (Fin 0) (Fin (- (of_int m * 2 powr of_int (- 23)))) = Fin (of_int m * 2 powr of_int (- 23))"
    and "fl_sub (Fin (1 / 2 ^ 27)) (Fin (- (of_int m * 2 powr of_int (- 23))))
      = Fin (of_int m * 2 powr of_int (- 23))"
proof -
  have lt: "m < 2 ^ 24" using assms(2) by simp
  have "float32 (of_int m * 2 powr of_int (- 23)) = Fin (of_int m * 2 powr of_int (0 - 23))"
    by (rule float32_grid [where d = 0]) (use assms(1) lt in simp_all)
  then show "fl_sub (Fin 0) (Fin (- (of_int m * 2 powr of_int (- 23)))) = Fin (of_int m * 2 powr of_int (- 23))"
    by (simp add: fl_sub_def sub_with_def)
  have "float32 (1 / 2 ^ 27 + of_int m * 2 powr of_int (- 23)) = Fin (of_int m * 2 powr of_int (0 - 23))"
    by (rule float32_grid [where d = "1 / 16"])
      (use assms(1) lt in \<open>simp_all add: powr_neg_numeral field_simps\<close>)
  then show "fl_sub (Fin (1 / 2 ^ 27)) (Fin (- (of_int m * 2 powr of_int (- 23))))
      = Fin (of_int m * 2 powr of_int (- 23))"
    by (simp add: fl_sub_def sub_with_def)
qed

section \<open>Properties of the two shifts\<close>

subsection \<open>Broadcasting\<close>

lemma broadcast_rows_same_length:
  "list_all (\<lambda>row. length row = length v) L \<Longrightarrow>
     broadcast_rows f L v = Inr (map (\<lambda>row. map2 f row v) L)"
  by (induction L) (simp_all add: broadcast_row_def)

lemma map2_map_right: "map2 f xs (map g ys) = map2 (\<lambda>x y. f x (g y)) xs ys"
  by (simp add: zip_map2 case_prod_unfold)

lemma map2_replicate:
  "length row = C \<Longrightarrow> map2 f row (replicate C b) = map (\<lambda>a. f a b) row"
  by (induction row arbitrary: C) auto

subsection \<open>The two shifts\<close>

lemma log_adjustment_Some:
  "log_adjustment (Some p) t = Inr (map (\<lambda>q. log_prior_term ieee q t) p)"
  by (simp add: log_adjustment_def log_adjustment_in_def)

lemma program_shifts:
  "posthoc_adjusted_logits bp t L =
     (case log_adjustment bp t of Inl e \<Rightarrow> Inl e | Inr v \<Rightarrow> broadcast_rows fl_sub L v)"
  "loss_adjusted_logits bp t L =
     (case log_adjustment bp t of Inl e \<Rightarrow> Inl e | Inr v \<Rightarrow> broadcast_rows fl_add L v)"
  by (simp_all add: posthoc_adjusted_logits_def posthoc_adjusted_logits_in_def
      loss_adjusted_logits_def loss_adjusted_logits_in_def log_adjustment_def fl_sub_def fl_add_def
      split: sum.splits)

lemma log_adjustment_uniform:
  "log_adjustment (Some (replicate C q)) t = Inr (replicate C (log_prior_term ieee q t))"
  by (simp add: log_adjustment_Some)

lemma posthoc_uniform:
  assumes "list_all (\<lambda>row. length row = C) L"
  shows "posthoc_adjusted_logits (Some (replicate C q)) t L
    = Inr (map (map (\<lambda>v. fl_sub v (log_prior_term ieee q t))) L)"
proof -
  let ?v = "replicate C (log_prior_term ieee q t)"
  have len: "list_all (\<lambda>row. length row = length ?v) L" using assms by simp
  have "map (\<lambda>row. map2 fl_sub row ?v) L = map (map (\<lambda>v. fl_sub v (log_prior_term ieee q t))) L"
    using assms by (induction L) (simp_all add: map2_replicate)
  then show ?thesis
    by (simp only: program_shifts log_adjustment_uniform sum.case
        broadcast_rows_same_length [OF len])
qed

text \<open>Subtraction is addition of the negated value: the two shifts have opposite signs.\<close>

lemma fl_sub_is_add_neg: "fl_sub a b = fl_add a (fl_neg b)"
  by (simp add: fl_sub_def fl_add_def sub_with_def)

lemma broadcast_rows_sub_neg:
  "broadcast_rows fl_sub L v = broadcast_rows fl_add L (map fl_neg v)"
proof -
  have m: "map2 fl_sub row v = map2 fl_add row (map fl_neg v)" for row
    by (simp only: map2_map_right fl_sub_is_add_neg)
  have h: "v \<noteq> [] \<Longrightarrow> hd (map fl_neg v) = fl_neg (hd v)"
    by (cases v) simp_all
  have row: "broadcast_row fl_sub row v = broadcast_row fl_add row (map fl_neg v)" for row
    unfolding broadcast_row_def m
    by (cases "v = []") (auto simp: h fl_sub_is_add_neg)
  show ?thesis by (induction L) (simp_all add: row split: sum.splits)
qed

subsection \<open>The shift and the order of the logits\<close>

lemma fl_gt_NInf [simp]: "fl_gt NInf b = False"
  by (cases b) simp_all

text \<open>The shift reverses no order: what is greater after it was greater before.\<close>

lemma fl_sub_mono:
  assumes "fl_gt (fl_sub a c) (fl_sub b c)"
  shows "fl_gt a b"
proof (cases c)
  case (Fin r)
  show ?thesis
  proof (cases a)
    case a: (Fin x)
    show ?thesis
    proof (cases b)
      case b: (Fin y)
      have "\<not> x \<le> y"
      proof
        assume "x \<le> y"
        then have "x - r \<le> y - r" by simp
        from float32_mono [OF this] assms show False
          by (simp add: a b Fin fl_sub_def sub_with_def)
      qed
      then show ?thesis by (simp add: a b)
    next
      case PInf
      then show ?thesis using assms
        by (cases "float32 (x - r)") (simp_all add: a Fin fl_sub_def sub_with_def)
    next
      case NInf
      then show ?thesis by (simp add: a)
    next
      case NaN
      then show ?thesis using assms
        by (cases "float32 (x - r)") (simp_all add: a Fin fl_sub_def sub_with_def)
    qed
  next
    case PInf
    then show ?thesis using assms by (cases b) (simp_all add: Fin fl_sub_def sub_with_def)
  next
    case NInf
    then show ?thesis using assms by (simp add: Fin fl_sub_def sub_with_def)
  next
    case NaN
    then show ?thesis using assms by (simp add: Fin fl_sub_def sub_with_def)
  qed
next
  case PInf
  then show ?thesis using assms by (cases a) (simp_all add: fl_sub_def sub_with_def)
next
  case NInf
  then show ?thesis using assms by (cases a; cases b) (simp_all add: fl_sub_def sub_with_def)
next
  case NaN
  then show ?thesis using assms by (cases a) (simp_all add: fl_sub_def sub_with_def)
qed

lemma fl_sub_above_NInf:
  assumes "fl_gt (fl_sub a c) NInf"
  shows "fl_gt a NInf"
  using assms by (cases a; cases c) (simp_all add: fl_sub_def sub_with_def)

subsection \<open>The accuracy under a shift that keeps the order\<close>

lemma argmax_from_shift:
  assumes "\<forall>a\<in>set row. fl_gt (f a) bv' = fl_gt a bv"
    and "\<forall>a\<in>set row. \<forall>b\<in>set row. fl_gt (f a) (f b) = fl_gt a b"
  shows "argmax_from i (j, bv') (map f row) = argmax_from i (j, bv) row"
  using assms
proof (induction row arbitrary: i j bv bv')
  case Nil
  then show ?case by simp
next
  case (Cons v row)
  have pairs: "\<forall>a\<in>set row. \<forall>b\<in>set row. fl_gt (f a) (f b) = fl_gt a b"
    using Cons.prems(2) by simp
  have head: "fl_gt (f v) bv' = fl_gt v bv" using Cons.prems(1) by simp
  show ?case
  proof (cases "fl_gt v bv")
    case True
    have "\<forall>a\<in>set row. fl_gt (f a) (f v) = fl_gt a v" using Cons.prems(2) by simp
    from Cons.IH [OF this pairs, of "Suc i" i] True head show ?thesis by simp
  next
    case False
    have "\<forall>a\<in>set row. fl_gt (f a) bv' = fl_gt a bv" using Cons.prems(1) by simp
    from Cons.IH [OF this pairs, of "Suc i" j] False head show ?thesis by simp
  qed
qed

lemma tf_argmax_shift:
  assumes "order_kept c row"
  shows "tf_argmax (map (\<lambda>v. fl_sub v c) row) = tf_argmax row"
proof -
  have 1: "\<forall>a\<in>set row. fl_gt (fl_sub a c) NInf = fl_gt a NInf"
    using assms fl_sub_above_NInf by (auto simp: order_kept_def list_all_iff)
  have 2: "\<forall>a\<in>set row. \<forall>b\<in>set row. fl_gt (fl_sub a c) (fl_sub b c) = fl_gt a b"
    using assms fl_sub_mono by (auto simp: order_kept_def list_all_iff)
  from argmax_from_shift [OF 1 2] show ?thesis by (simp add: tf_argmax_def)
qed

lemma argmax_rows_shift:
  "list_all (order_kept c) L \<Longrightarrow> argmax_rows (map (map (\<lambda>v. fl_sub v c)) L) = argmax_rows L"
  by (induction L) (simp_all add: tf_argmax_shift split: sum.splits)

lemma update_state_shift:
  "list_all (order_kept c) L \<Longrightarrow>
     update_state m y (map (map (\<lambda>v. fl_sub v c)) L) = update_state m y L"
  by (simp add: update_state_def matches_def argmax_rows_shift)

lemma accumulate_adjusted_uniform:
  "list_all (\<lambda>yl. list_all (\<lambda>row. length row = C \<and> order_kept (log_prior_term ieee q t) row) (snd yl)) obs \<Longrightarrow>
    adjust_all (Some (replicate C q)) t obs = Inr obs' \<Longrightarrow>
    accumulate m obs' = accumulate m obs"
proof (induction obs arbitrary: obs' m)
  case Nil
  then show ?case by simp
next
  case (Cons yl obs)
  have L: "list_all (\<lambda>row. length row = C) (snd yl)"
    and K: "list_all (order_kept (log_prior_term ieee q t)) (snd yl)"
    using Cons.prems(1) by (simp_all add: list_all_iff)
  note ph = posthoc_uniform [OF L]
  from Cons.prems(2) obtain rest where rest: "adjust_all (Some (replicate C q)) t obs = Inr rest"
    and obs': "obs' = (fst yl, map (map (\<lambda>v. fl_sub v (log_prior_term ieee q t))) (snd yl)) # rest"
    by (auto simp: ph split: sum.splits)
  have "accumulate m' rest = accumulate m' obs" for m'
    using Cons.IH [OF _ rest] Cons.prems(1) by simp
  then show ?case by (simp add: obs' update_state_shift [OF K] split: sum.splits)
qed

lemma log_prior_term_ieee:
  "log_prior_term ieee q t =
     tf_math_log (cast_with float32 (add_with float64 (np_power float64 q t) (float64 epsilon)))"
  by (simp add: log_prior_term_def tf_math_log_def)

lemma shifts_same_length:
  assumes "list_all (\<lambda>row. length row = length p) L"
  shows "loss_adjusted_logits (Some p) t L =
           Inr (map (\<lambda>row. map2 (\<lambda>l q. fl_add l (log_prior_term ieee q t)) row p) L)"
    and "posthoc_adjusted_logits (Some p) t L =
           Inr (map (\<lambda>row. map2 (\<lambda>l q. fl_sub l (log_prior_term ieee q t)) row p) L)"
proof -
  let ?v = "map (\<lambda>q. log_prior_term ieee q t) p"
  have len: "list_all (\<lambda>row. length row = length ?v) L" using assms by simp
  show "loss_adjusted_logits (Some p) t L =
           Inr (map (\<lambda>row. map2 (\<lambda>l q. fl_add l (log_prior_term ieee q t)) row p) L)"
    by (simp only: program_shifts log_adjustment_Some sum.case broadcast_rows_same_length [OF len]
        map2_map_right)
  show "posthoc_adjusted_logits (Some p) t L =
           Inr (map (\<lambda>row. map2 (\<lambda>l q. fl_sub l (log_prior_term ieee q t)) row p) L)"
    by (simp only: program_shifts log_adjustment_Some sum.case broadcast_rows_same_length [OF len]
        map2_map_right)
qed

subsection \<open>Broadcasting keeps what the operation keeps\<close>

lemma map2_pred:
  assumes "list_all P xs" and "list_all Q ys"
    and "\<And>a b. P a \<Longrightarrow> Q b \<Longrightarrow> R (f a b)"
  shows "list_all R (map2 f xs ys)"
  using assms(1,2)
proof (induction xs arbitrary: ys)
  case Nil
  then show ?case by simp
next
  case (Cons x xs)
  then show ?case by (cases ys) (simp_all add: assms(3))
qed

lemma broadcast_row_pred:
  assumes "list_all P row" and "list_all Q v"
    and f: "\<And>a b. P a \<Longrightarrow> Q b \<Longrightarrow> R (f a b)"
    and "broadcast_row f row v = Inr r"
  shows "list_all R r"
proof -
  consider (same) "length row = length v"
    | (vec1) "length row \<noteq> length v" "length v = 1"
    | (row1) "length row \<noteq> length v" "length v \<noteq> 1" "length row = 1"
    | (bad) "length row \<noteq> length v" "length v \<noteq> 1" "length row \<noteq> 1"
    by blast
  then show ?thesis
  proof cases
    case same
    then have "r = map2 f row v" using assms(4) by (simp add: broadcast_row_def)
    then show ?thesis using map2_pred [where P = P and Q = Q and R = R, OF assms(1,2) f] by simp
  next
    case vec1
    then obtain b where v: "v = [b]" by (cases v) simp_all
    then have "r = map (\<lambda>a. f a b) row" using vec1 assms(4) by (simp add: broadcast_row_def)
    then show ?thesis using assms(1,2) v by (simp add: list_all_iff f)
  next
    case row1
    then obtain a where row: "row = [a]" by (cases row) simp_all
    then have "r = map (\<lambda>b. f a b) v" using row1 assms(4) by (simp add: broadcast_row_def)
    then show ?thesis using assms(1,2) row by (simp add: list_all_iff f)
  next
    case bad
    then show ?thesis using assms(4) by (simp add: broadcast_row_def)
  qed
qed

lemma broadcast_rows_pred:
  assumes "list_all Q v"
    and f: "\<And>a b. P a \<Longrightarrow> Q b \<Longrightarrow> R (f a b)"
  shows "list_all (list_all P) L \<Longrightarrow> broadcast_rows f L v = Inr L' \<Longrightarrow>
    list_all (list_all R) L'"
proof (induction L arbitrary: L')
  case Nil
  then show ?case by simp
next
  case (Cons row rows)
  from Cons.prems(2) obtain r rs where r: "broadcast_row f row v = Inr r"
    and rs: "broadcast_rows f rows v = Inr rs" and L': "L' = r # rs"
    by (auto split: sum.splits)
  have "list_all R r"
    using broadcast_row_pred [where P = P and Q = Q and R = R, OF _ assms(1) f r] Cons.prems(1) by simp
  moreover have "list_all (list_all R) rs"
    using Cons.IH [OF _ rs] Cons.prems(1) by simp
  ultimately show ?case using L' by simp
qed

text \<open>A logit of magnitude at most \<open>2\<^sup>1\<^sup>2\<^sup>6\<close> shifted by at most 128 is a finite float32.\<close>

lemma shift_within:
  assumes "fl_within (2 powr of_int 126) a" and "fl_within 128 b"
  shows "fl_is_finite (fl_add a b)" and "fl_is_finite (fl_sub a b)"
proof -
  from assms obtain x y where a: "a = Fin x" "\<bar>x\<bar> \<le> 2 powr of_int 126"
    and b: "b = Fin y" "\<bar>y\<bar> \<le> 128"
    by (cases a; cases b) simp_all
  have "(128::real) \<le> 2 powr of_int 126" by (simp add: powr_numeral)
  then have s: "\<bar>y\<bar> \<le> 2 powr of_int 126" using b(2) by linarith
  have two: "(2::real) powr of_int 126 + 2 powr of_int 126 = 2 powr of_int 127"
    by (simp add: powr_numeral)
  have "\<bar>x + y\<bar> \<le> 2 powr of_int 127" using a(2) s two by linarith
  from float32_bounded [OF this] show "fl_is_finite (fl_add a b)"
    by (auto simp: a(1) b(1) fl_add_def)
  have "\<bar>x - y\<bar> \<le> 2 powr of_int 127" using a(2) s two by linarith
  from float32_bounded [OF this] show "fl_is_finite (fl_sub a b)"
    by (auto simp: a(1) b(1) fl_sub_def sub_with_def)
qed

lemma log_adjustment_within:
  assumes "list_all (\<lambda>q. 0 \<le> q \<and> q powr t \<le> 2 powr of_int 126) p" and "0 < t"
  shows "list_all (fl_within 128) (map (\<lambda>q. log_prior_term ieee q t) p)"
proof -
  have "fl_within 128 (log_prior_term ieee q t)" if "q \<in> set p" for q
  proof -
    from that assms(1) have "0 \<le> q" "q powr t \<le> 2 powr of_int 126"
      by (simp_all add: list_all_iff)
    from log_prior_term_finite [OF this assms(2)] show ?thesis by auto
  qed
  then show ?thesis by (simp add: list_all_iff)
qed

lemma fl_within_finite: "fl_within b a \<Longrightarrow> fl_is_finite a"
  by (cases a) simp_all

subsection \<open>The two shifts in exact arithmetic\<close>

lemma exact_sub_add_cancel:
  "fl_is_finite c \<Longrightarrow> add_with Fin (sub_with Fin a c) c = a"
  by (cases c; cases a) (simp_all add: sub_with_def)

lemma map2_exact_sub_add_cancel:
  "length row = length v \<Longrightarrow> list_all fl_is_finite v \<Longrightarrow>
     map2 (add_with Fin) (map2 (sub_with Fin) row v) v = row"
proof (induction row arbitrary: v)
  case Nil
  then show ?case by simp
next
  case (Cons a row)
  then obtain b v' where v: "v = b # v'" by (cases v) simp_all
  with Cons show ?case by (simp add: exact_sub_add_cancel)
qed

section \<open>Properties of the run\<close>

subsection \<open>Startup\<close>

lemma startup_InrD:
  assumes "startup env fl = Inr ps"
  shows "the_loss_fn ps = loss_fn (mode fl = ''loss'') (base_probs ps) (tau fl)"
    and "posthoc_adjusting ps = (mode fl = ''posthoc'')"
    and "test_adj_acc_metric (initial ps) = (if mode fl = ''posthoc'' then Some new_metric else None)"
    and "train_acc_metric (initial ps) = new_metric"
    and "test_acc_metric (initial ps) = new_metric"
    and "emitted (initial ps) = []"
    and "iterations (initial ps) = 0"
    and "read_base_probs env fl = Inr (base_probs ps)"
    and "dataset_mappings env (dataset fl) = Some (ds_info ps)"
  using assms
  by (auto simp: startup_def build_loss_fn_def split: option.splits if_splits sum.splits)

lemma startup_fresh: "startup env fl = Inr ps \<Longrightarrow> fresh ps (initial ps)"
  by (simp add: fresh_def startup_InrD)

text \<open>In \<^verbatim>\<open>main\<close> the loss function with adjustment is never built without base probabilities.\<close>

lemma startup_loss_mode_has_base_probs:
  assumes "startup env fl = Inr ps" and "mode fl = ''loss'' \<or> mode fl = ''posthoc''"
  shows "base_probs ps \<noteq> None"
proof
  assume "base_probs ps = None"
  then have "read_base_probs env fl = Inr None" using startup_InrD(8) [OF assms(1)] by simp
  then show False using assms(2)
    by (auto simp: read_base_probs_def split: read_result.splits if_splits)
qed

subsection \<open>One batch\<close>

lemma train_batch_InrD:
  assumes "train_batch env ps epoch step (x, y) st = Inr st'"
  shows "\<exists>l m. the_loss_fn ps y (model_call env (weights st) x True) = Inr l
          \<and> update_state (train_acc_metric st) y (model_call env (weights st) x True) = Inr m
          \<and> train_acc_metric st' = m
          \<and> test_acc_metric st' = test_acc_metric st
          \<and> test_adj_acc_metric st' = test_adj_acc_metric st
          \<and> iterations st' = Suc (iterations st)
          \<and> emitted st' = emitted st @
               (if step mod 1000 = 0
                then [PrintTrainingLoss step (fl_add l (tf_reduce_sum (model_losses env (weights st)))),
                      Scalar (train_summary_writer ps) ''batch loss''
                        (fl_add l (tf_reduce_sum (model_losses env (weights st))))
                        (epoch * batches_per_epoch ps + step)]
                else [])
          \<and> weights st' =
               apply_gradients env (lr_schedule (ds_info ps)) (batches_per_epoch ps) (iterations st)
                 (\<lambda>w. case the_loss_fn ps y (model_call env w x True) of
                         Inl e \<Rightarrow> Inl e
                       | Inr l' \<Rightarrow> Inr (fl_add l' (tf_reduce_sum (model_losses env w))))
                 (weights st)"
  using assms by (auto simp: train_batch_def Let_def split: sum.splits)

lemma test_batch_InrD:
  assumes "test_batch env ps fl (x, y) st = Inr st'"
  shows "\<exists>m. update_state (test_acc_metric st) y (model_call env (weights st) x False) = Inr m
          \<and> test_acc_metric st' = m
          \<and> train_acc_metric st' = train_acc_metric st
          \<and> weights st' = weights st
          \<and> iterations st' = iterations st
          \<and> emitted st' = emitted st
          \<and> (if posthoc_adjusting ps
              then \<exists>L' ma ma'. posthoc_adjusted_logits (base_probs ps) (tau fl)
                       (model_call env (weights st) x False) = Inr L'
                     \<and> test_adj_acc_metric st = Some ma
                     \<and> update_state ma y L' = Inr ma'
                     \<and> test_adj_acc_metric st' = Some ma'
              else test_adj_acc_metric st' = test_adj_acc_metric st)"
  using assms by (auto simp: test_batch_def Let_def split: sum.splits option.splits if_splits)

subsection \<open>The loops over the batches\<close>

lemma epoch_reports_append [simp]: "epoch_reports (xs @ ys) = epoch_reports xs @ epoch_reports ys"
  by (simp add: epoch_reports_def)

lemma train_loop_InrD:
  "train_loop env ps epoch step bs st = Inr st1 \<Longrightarrow>
     accumulate (train_acc_metric st) (train_seen env ps epoch step bs st) = Inr (train_acc_metric st1)
     \<and> test_acc_metric st1 = test_acc_metric st
     \<and> test_adj_acc_metric st1 = test_adj_acc_metric st
     \<and> iterations st1 = iterations st + length bs
     \<and> (\<exists>evs. emitted st1 = emitted st @ evs \<and> epoch_reports evs = [])"
proof (induction bs arbitrary: step st)
  case Nil
  then show ?case by (simp add: epoch_reports_def)
next
  case (Cons b bs)
  obtain x y where b: "b = (x, y)" by (cases b)
  from Cons.prems obtain st' where st': "train_batch env ps epoch step b st = Inr st'"
    and rest: "train_loop env ps epoch (Suc step) bs st' = Inr st1"
    by (auto split: sum.splits)
  from train_batch_InrD [OF st' [unfolded b]] obtain l m where
    m: "update_state (train_acc_metric st) y (model_call env (weights st) x True) = Inr m"
    and tr: "train_acc_metric st' = m"
    and te: "test_acc_metric st' = test_acc_metric st"
    and ta: "test_adj_acc_metric st' = test_adj_acc_metric st"
    and it: "iterations st' = Suc (iterations st)"
    and ev: "\<exists>evs. emitted st' = emitted st @ evs \<and> epoch_reports evs = []"
    by (auto simp: epoch_reports_def)
  from Cons.IH [OF rest] have
    acc: "accumulate (train_acc_metric st') (train_seen env ps epoch (Suc step) bs st') = Inr (train_acc_metric st1)"
    and te1: "test_acc_metric st1 = test_acc_metric st'"
    and ta1: "test_adj_acc_metric st1 = test_adj_acc_metric st'"
    and it1: "iterations st1 = iterations st' + length bs"
    and ev1: "\<exists>evs. emitted st1 = emitted st' @ evs \<and> epoch_reports evs = []"
    by simp_all
  have "accumulate (train_acc_metric st) (train_seen env ps epoch step (b # bs) st) = Inr (train_acc_metric st1)"
    using st' m tr acc by (simp add: b)
  moreover have "\<exists>evs. emitted st1 = emitted st @ evs \<and> epoch_reports evs = []"
  proof -
    from ev obtain e1 where e1: "emitted st' = emitted st @ e1" "epoch_reports e1 = []" by blast
    from ev1 obtain e2 where e2: "emitted st1 = emitted st' @ e2" "epoch_reports e2 = []" by blast
    have "emitted st1 = emitted st @ (e1 @ e2)" using e1 e2 by simp
    moreover have "epoch_reports (e1 @ e2) = []" using e1 e2 by simp
    ultimately show ?thesis by blast
  qed
  ultimately show ?case using te te1 ta ta1 it it1 by simp
qed

lemma test_loop_InrD:
  "test_loop env ps fl bs st = Inr st2 \<Longrightarrow>
     weights st2 = weights st
     \<and> iterations st2 = iterations st
     \<and> train_acc_metric st2 = train_acc_metric st
     \<and> emitted st2 = emitted st
     \<and> accumulate (test_acc_metric st) (test_seen env (weights st) bs) = Inr (test_acc_metric st2)
     \<and> (\<not> posthoc_adjusting ps \<longrightarrow> test_adj_acc_metric st2 = test_adj_acc_metric st)"
proof (induction bs arbitrary: st)
  case Nil
  then show ?case by (simp add: test_seen_def)
next
  case (Cons b bs)
  obtain x y where b: "b = (x, y)" by (cases b)
  from Cons.prems obtain st' where st': "test_batch env ps fl b st = Inr st'"
    and rest: "test_loop env ps fl bs st' = Inr st2"
    by (auto split: sum.splits)
  from test_batch_InrD [OF st' [unfolded b]] Cons.IH [OF rest]
  show ?case by (auto simp: b test_seen_def split: if_splits)
qed

lemma test_loop_adjusted:
  "posthoc_adjusting ps \<Longrightarrow> test_adj_acc_metric st = Some ma \<Longrightarrow>
   test_loop env ps fl bs st = Inr st2 \<Longrightarrow>
     \<exists>obs' ma'. adjust_all (base_probs ps) (tau fl) (test_seen env (weights st) bs) = Inr obs'
       \<and> accumulate ma obs' = Inr ma' \<and> test_adj_acc_metric st2 = Some ma'"
proof (induction bs arbitrary: st ma)
  case Nil
  then show ?case by (simp add: test_seen_def)
next
  case (Cons b bs)
  obtain x y where b: "b = (x, y)" by (cases b)
  from Cons.prems(3) obtain st' where st': "test_batch env ps fl b st = Inr st'"
    and rest: "test_loop env ps fl bs st' = Inr st2"
    by (auto split: sum.splits)
  from test_batch_InrD [OF st' [unfolded b]] Cons.prems(1,2)
  obtain L' ma1 where L': "posthoc_adjusted_logits (base_probs ps) (tau fl)
        (model_call env (weights st) x False) = Inr L'"
    and ma1: "update_state ma y L' = Inr ma1" "test_adj_acc_metric st' = Some ma1"
    and w: "weights st' = weights st"
    by auto
  from Cons.IH [OF Cons.prems(1) ma1(2) rest] obtain obs' ma' where
    "adjust_all (base_probs ps) (tau fl) (test_seen env (weights st') bs) = Inr obs'"
    "accumulate ma1 obs' = Inr ma'" "test_adj_acc_metric st2 = Some ma'"
    by blast
  then show ?case using L' ma1 w by (simp add: b test_seen_def)
qed

subsection \<open>One epoch\<close>

lemma report_train_fields:
  "train_acc_metric (report_train ps epoch st) = new_metric"
  "test_acc_metric (report_train ps epoch st) = test_acc_metric st"
  "test_adj_acc_metric (report_train ps epoch st) = test_adj_acc_metric st"
  "weights (report_train ps epoch st) = weights st"
  "iterations (report_train ps epoch st) = iterations st"
  "emitted (report_train ps epoch st) = emitted st @ train_report ps epoch (train_acc_metric st)"
  by (simp_all add: report_train_def Let_def reset_states_def new_metric_def train_report_def)

lemma report_test_InrD:
  assumes "report_test ps epoch st = Inr st'"
  shows "train_acc_metric st' = train_acc_metric st"
    and "test_acc_metric st' = new_metric"
    and "weights st' = weights st"
    and "iterations st' = iterations st"
    and "\<not> posthoc_adjusting ps \<Longrightarrow> test_adj_acc_metric st' = test_adj_acc_metric st"
    and "\<not> posthoc_adjusting ps \<Longrightarrow>
           emitted st' = emitted st @ test_report ps epoch (test_acc_metric st)"
    and "posthoc_adjusting ps \<Longrightarrow> test_adj_acc_metric st' = Some new_metric"
    and "posthoc_adjusting ps \<Longrightarrow> \<exists>ma. test_adj_acc_metric st = Some ma \<and>
           emitted st' = emitted st @ test_report ps epoch (test_acc_metric st)
             @ adjusted_report ps epoch ma"
  using assms
  by (auto simp: report_test_def Let_def reset_states_def new_metric_def test_report_def
      adjusted_report_def split: if_splits option.splits)

lemma epoch_reports_train_report [simp]:
  "epoch_reports (train_report ps epoch m) = train_report ps epoch m"
  by (simp add: epoch_reports_def train_report_def)

lemma epoch_reports_test_report [simp]:
  "epoch_reports (test_report ps epoch m) = test_report ps epoch m"
  by (simp add: epoch_reports_def test_report_def)

lemma epoch_reports_adjusted_report [simp]:
  "epoch_reports (adjusted_report ps epoch m) = adjusted_report ps epoch m"
  by (simp add: epoch_reports_def adjusted_report_def)

lemma run_epoch_InrD:
  assumes "fresh ps st" and "run_epoch env ps fl epoch st = Inr st'"
  shows "fresh ps st' \<and>
    (\<exists>mtr mte evs.
        accumulate new_metric (train_seen env ps epoch 0 (train_dataset ps epoch) st) = Inr mtr
      \<and> accumulate new_metric (test_seen env (weights st') (test_dataset ps epoch)) = Inr mte
      \<and> emitted st' = emitted st @ evs
      \<and> iterations st' = iterations st + length (train_dataset ps epoch)
      \<and> (if posthoc_adjusting ps
         then \<exists>obs' mad.
                adjust_all (base_probs ps) (tau fl)
                  (test_seen env (weights st') (test_dataset ps epoch)) = Inr obs'
              \<and> accumulate new_metric obs' = Inr mad
              \<and> epoch_reports evs =
                  train_report ps epoch mtr @ test_report ps epoch mte @ adjusted_report ps epoch mad
         else epoch_reports evs = train_report ps epoch mtr @ test_report ps epoch mte))"
proof -
  from assms(2) obtain st1 st2 where
    st1: "train_loop env ps epoch 0 (train_dataset ps epoch) st = Inr st1"
    and st2: "test_loop env ps fl (test_dataset ps epoch) (report_train ps epoch st1) = Inr st2"
    and st': "report_test ps epoch st2 = Inr st'"
    by (auto simp: run_epoch_def split: sum.splits)
  note f = assms(1) [unfolded fresh_def]
  note tr = train_loop_InrD [OF st1]
  note te = test_loop_InrD [OF st2, unfolded report_train_fields]
  note rp = report_test_InrD [OF st']
  from tr obtain e1 where e1: "emitted st1 = emitted st @ e1" "epoch_reports e1 = []" by blast
  have mtr: "accumulate new_metric (train_seen env ps epoch 0 (train_dataset ps epoch) st)
      = Inr (train_acc_metric st1)"
    using tr f by simp
  have w: "weights st' = weights st1" using rp(3) te by simp
  have mte: "accumulate new_metric (test_seen env (weights st') (test_dataset ps epoch))
      = Inr (test_acc_metric st2)"
    using te tr f w by simp
  have it: "iterations st' = iterations st + length (train_dataset ps epoch)"
    using rp(4) te tr by simp
  have em2: "emitted st2 = emitted st @ e1 @ train_report ps epoch (train_acc_metric st1)"
    using te e1 by simp
  show ?thesis
  proof (cases "posthoc_adjusting ps")
    case False
    have "fresh ps st'"
      using False rp(1,2,5) te tr f by (simp add: fresh_def)
    moreover have "emitted st' = emitted st @
        (e1 @ train_report ps epoch (train_acc_metric st1) @ test_report ps epoch (test_acc_metric st2))"
      using rp(6) [OF False] em2 by simp
    moreover have "epoch_reports
        (e1 @ train_report ps epoch (train_acc_metric st1) @ test_report ps epoch (test_acc_metric st2))
        = train_report ps epoch (train_acc_metric st1) @ test_report ps epoch (test_acc_metric st2)"
      using e1(2) by simp
    ultimately show ?thesis using False mtr mte it by auto
  next
    case True
    have adj0: "test_adj_acc_metric (report_train ps epoch st1) = Some new_metric"
      using True f tr by (simp add: report_train_fields)
    from test_loop_adjusted [OF True adj0 st2, unfolded report_train_fields] w
    obtain obs' mad where
      obs': "adjust_all (base_probs ps) (tau fl)
               (test_seen env (weights st') (test_dataset ps epoch)) = Inr obs'"
      and mad: "accumulate new_metric obs' = Inr mad" "test_adj_acc_metric st2 = Some mad"
      by auto
    have "fresh ps st'"
      using True rp(1,2,7) te tr f by (simp add: fresh_def)
    moreover have "emitted st' = emitted st @
        (e1 @ train_report ps epoch (train_acc_metric st1) @ test_report ps epoch (test_acc_metric st2)
          @ adjusted_report ps epoch mad)"
      using rp(8) [OF True] mad(2) em2 by simp
    moreover have "epoch_reports
        (e1 @ train_report ps epoch (train_acc_metric st1) @ test_report ps epoch (test_acc_metric st2)
          @ adjusted_report ps epoch mad)
        = train_report ps epoch (train_acc_metric st1) @ test_report ps epoch (test_acc_metric st2)
          @ adjusted_report ps epoch mad"
      using e1(2) by simp
    ultimately show ?thesis using True mtr mte it obs' mad(1) by auto
  qed
qed

lemma adjusted_report_not_batch_loss: "is_adjusted_report e \<Longrightarrow> \<not> is_batch_loss e"
  by (cases e) auto

lemma filter_adjusted_epoch_reports:
  "filter is_adjusted_report (epoch_reports evs) = filter is_adjusted_report evs"
  by (induction evs) (auto simp: epoch_reports_def adjusted_report_not_batch_loss)

lemma run_epoch_adjusted_reports:
  assumes "fresh ps st" and "run_epoch env ps fl k st = Inr st'"
  shows "\<exists>evs. emitted st' = emitted st @ evs
    \<and> (filter is_adjusted_report evs \<noteq> [] \<longleftrightarrow> posthoc_adjusting ps)"
proof -
  from run_epoch_InrD [OF assms] obtain mtr mte evs where
    ev: "emitted st' = emitted st @ evs"
    and rep: "if posthoc_adjusting ps
         then \<exists>mad. epoch_reports evs =
                  train_report ps k mtr @ test_report ps k mte @ adjusted_report ps k mad
         else epoch_reports evs = train_report ps k mtr @ test_report ps k mte"
    by (cases "posthoc_adjusting ps") auto
  have "filter is_adjusted_report (epoch_reports evs) \<noteq> [] \<longleftrightarrow> posthoc_adjusting ps"
  proof (cases "posthoc_adjusting ps")
    case True
    with rep obtain mad where "epoch_reports evs =
        train_report ps k mtr @ test_report ps k mte @ adjusted_report ps k mad" by auto
    then show ?thesis using True
      by (simp add: train_report_def test_report_def adjusted_report_def)
  next
    case False
    with rep have "epoch_reports evs = train_report ps k mtr @ test_report ps k mte" by simp
    then show ?thesis using False by (simp add: train_report_def test_report_def)
  qed
  then show ?thesis using ev by (auto simp: filter_adjusted_epoch_reports)
qed

subsection \<open>The loop over the epochs\<close>

lemma epochs_loop_append:
  "epochs_loop env ps fl (xs @ ys) st =
     (case epochs_loop env ps fl xs st of
        Inl e \<Rightarrow> Inl e
      | Inr st' \<Rightarrow> epochs_loop env ps fl ys st')"
  by (induction xs arbitrary: st) (simp_all split: sum.splits)

lemma epochs_loop_fresh:
  "fresh ps st \<Longrightarrow> epochs_loop env ps fl es st = Inr st' \<Longrightarrow> fresh ps st'"
proof (induction es arbitrary: st)
  case Nil
  then show ?case by simp
next
  case (Cons e es)
  from Cons.prems(2) obtain st1 where st1: "run_epoch env ps fl e st = Inr st1"
    and rest: "epochs_loop env ps fl es st1 = Inr st'"
    by (auto split: sum.splits)
  from run_epoch_InrD [OF Cons.prems(1) st1] have "fresh ps st1" by simp
  from Cons.IH [OF this rest] show ?case .
qed

lemma test_seen_rows:
  assumes "\<forall>w x. list_all P (model_call env w x False)"
  shows "list_all (\<lambda>yl. list_all P (snd yl)) (test_seen env w bs)"
  using assms by (simp add: test_seen_def list_all_iff)

subsection \<open>The concrete runs\<close>

lemmas eval_defs = main_def startup_def read_base_probs_def build_loss_fn_def
  example_env_def example_flags_def base_probs_path_def os_path_join_def new_metric_def
  run_epoch_def train_batch_def test_batch_def report_train_def report_test_def
  update_state_def matches_def tf_argmax_def result_def reset_states_def loss_fn_def xent_row_def
  tf_reduce_mean_def Let_def program_shifts log_adjustment_Some broadcast_row_def

lemma example_flags_simps [simp]:
  "mode (example_flags m) = m" "tau (example_flags m) = 1"
  by (simp_all add: example_flags_def)

lemma example_model [simp]:
  "model_call example_env w x training = [[Fin 1, Fin 0, Fin 3, Fin 2]]"
  by (simp add: example_env_def)

lemma example_startup:
  "m = ''baseline'' \<or> m = ''posthoc'' \<or> m = ''loss'' \<Longrightarrow>
   \<exists>ps. startup example_env (example_flags m) = Inr ps
      \<and> base_probs ps = Some (replicate 4 (1 / 4))
      \<and> num_epochs (ds_info ps) = 1
      \<and> train_dataset ps = (\<lambda>epoch. [(0, [2]), (1, [1])])
      \<and> test_dataset ps = (\<lambda>epoch. [(2, [2])])
      \<and> weights (initial ps) = 0
      \<and> train_summary_writer ps = ''log/train''
      \<and> batches_per_epoch ps = 2"
  by (auto simp: startup_def read_base_probs_def build_loss_fn_def example_env_def
      example_flags_def base_probs_path_def os_path_join_def eval_nat_numeral)

lemma example_main:
  "m = ''baseline'' \<or> m = ''posthoc'' \<or> m = ''loss'' \<Longrightarrow>
   \<exists>st. main example_env (example_flags m) = Inr st"
  by (auto simp: eval_defs simp del: argmax_from.simps)

lemma example_first_epoch:
  assumes "m = ''baseline'' \<or> m = ''posthoc'' \<or> m = ''loss''"
    and "startup example_env (example_flags m) = Inr ps"
  shows "\<exists>st'. run_epoch example_env ps (example_flags m) 0 (initial ps) = Inr st'"
proof -
  from example_startup [OF assms(1)] assms(2) have n: "num_epochs (ds_info ps) = 1" by auto
  from example_main [OF assms(1)] obtain st where "main example_env (example_flags m) = Inr st"
    by blast
  then have "epochs_loop example_env ps (example_flags m) [0] (initial ps) = Inr st"
    using assms(2) n by (simp add: main_def)
  then show ?thesis by (auto split: sum.splits)
qed

lemma example_first_train_batch:
  assumes "m = ''baseline'' \<or> m = ''posthoc'' \<or> m = ''loss''"
    and "startup example_env (example_flags m) = Inr ps"
  shows "\<exists>st'. train_batch example_env ps 0 0 (0, [2]) (initial ps) = Inr st'"
proof -
  from example_startup [OF assms(1)] assms(2)
  have tr: "train_dataset ps 0 = [(0, [2]), (1, [1])]" by auto
  from example_first_epoch [OF assms] obtain st' where
    "run_epoch example_env ps (example_flags m) 0 (initial ps) = Inr st'" by blast
  then show ?thesis by (auto simp: run_epoch_def tr split: sum.splits)
qed

lemma example_first_test_batch:
  assumes "m = ''baseline'' \<or> m = ''posthoc'' \<or> m = ''loss''"
    and "startup example_env (example_flags m) = Inr ps"
  shows "\<exists>st'. test_batch example_env ps (example_flags m) (2, [2]) (initial ps) = Inr st'"
proof -
  from example_startup [OF assms(1)] assms(2)
  have bp: "base_probs ps = Some (replicate 4 (1 / 4))" by auto
  note s = startup_InrD [OF assms(2)]
  show ?thesis
    using bp
    by (simp add: test_batch_def Let_def s(2,3,5) update_state_def matches_def tf_argmax_def
        broadcast_row_def program_shifts log_adjustment_Some del: argmax_from.simps)
qed

text \<open>The run with logits that are close to each other, and the one with logits far apart.\<close>

lemma tie_startup:
  "\<exists>ps. startup example_env_tie (example_flags ''posthoc'') = Inr ps
      \<and> base_probs ps = Some (replicate 4 (1 / 4))
      \<and> num_epochs (ds_info ps) = 1
      \<and> train_dataset ps = (\<lambda>epoch. [(0, [2]), (1, [1])])
      \<and> test_dataset ps = (\<lambda>epoch. [(2, [1])])"
  by (auto simp: startup_def read_base_probs_def build_loss_fn_def example_env_tie_def
      example_env_def example_flags_def base_probs_path_def os_path_join_def eval_nat_numeral)

lemma apart_order_kept:
  "order_kept (log_prior_term ieee (1 / 4) 1) [Fin 4, Fin 0, Fin 64, Fin 16]"
proof -
  from log_prior_term_quarter obtain m where
    c: "log_prior_term ieee (1 / 4) 1 = Fin (- (of_int m * 2 powr of_int (- 23)))"
    and m: "2 ^ 23 \<le> m" "m \<le> 3 * 2 ^ 22" by blast
  define g :: real where "g = of_int m * 2 powr of_int (- 23)"
  have "(2::real) ^ 23 \<le> of_int m" using m(1) by (metis of_int_le_iff of_int_numeral of_int_power)
  moreover have "of_int m \<le> (3 * 2 ^ 22 :: real)"
    using m(2) by (metis of_int_le_iff of_int_numeral of_int_power of_int_mult)
  ultimately have g: "1 \<le> g" "g \<le> 2" by (simp_all add: g_def powr_neg_numeral field_simps)
  have sub: "fl_sub (Fin a) (Fin (- g)) = float32 (a + g)" for a
    by (simp add: fl_sub_def sub_with_def)
  have "2 powr of_int 0 \<le> 0 + g" "0 + g \<le> 2 powr of_int 1" using g by simp_all
  from float32_range [OF this] obtain w0 where
    w0: "float32 (0 + g) = Fin w0" "1 \<le> w0" "w0 \<le> 2" by auto
  have "2 powr of_int 2 \<le> 4 + g" "4 + g \<le> 2 powr of_int 3" using g by simp_all
  from float32_range [OF this] obtain w4 where
    w4: "float32 (4 + g) = Fin w4" "4 \<le> w4" "w4 \<le> 8" by auto
  have "2 powr of_int 4 \<le> 16 + g" "16 + g \<le> 2 powr of_int 5" using g by simp_all
  from float32_range [OF this] obtain w16 where
    w16: "float32 (16 + g) = Fin w16" "16 \<le> w16" "w16 \<le> 32" by auto
  have "2 powr of_int 6 \<le> 64 + g" "64 + g \<le> 2 powr of_int 7" using g by simp_all
  from float32_range [OF this] obtain w64 where
    w64: "float32 (64 + g) = Fin w64" "64 \<le> w64" "w64 \<le> 128" by auto
  show ?thesis
    unfolding c g_def [symmetric]
    using w0 w4 w16 w64 by (simp add: order_kept_def sub)
qed

lemma apart_startup:
  "\<exists>ps. startup example_env_apart (example_flags ''posthoc'') = Inr ps
      \<and> base_probs ps = Some (replicate 4 (1 / 4))"
  by (auto simp: startup_def read_base_probs_def build_loss_fn_def example_env_apart_def
      example_env_def example_flags_def base_probs_path_def os_path_join_def eval_nat_numeral)

lemma apart_model [simp]:
  "model_call example_env_apart w x training = [[Fin 4, Fin 0, Fin 64, Fin 16]]"
  by (simp add: example_env_apart_def example_env_def)

lemma apart_first_epoch:
  assumes "startup example_env_apart (example_flags ''posthoc'') = Inr ps"
  shows "\<exists>st'. run_epoch example_env_apart ps (example_flags ''posthoc'') 0 (initial ps) = Inr st'"
  using assms
  by (auto simp: eval_defs example_env_apart_def simp del: argmax_from.simps)

text \<open>The run with two epochs.\<close>

lemma two_epochs_startup:
  "\<exists>ps. startup example_env_two_epochs (example_flags ''posthoc'') = Inr ps
      \<and> base_probs ps = Some (replicate 4 (1 / 4))
      \<and> num_epochs (ds_info ps) = 2
      \<and> train_dataset ps = (\<lambda>epoch. [(0, [2]), (1, [1])])
      \<and> test_dataset ps = (\<lambda>epoch. [(2, [2])])"
  by (auto simp: startup_def read_base_probs_def build_loss_fn_def example_env_two_epochs_def
      example_env_def example_flags_def base_probs_path_def os_path_join_def eval_nat_numeral)

lemma two_epochs_model [simp]:
  "model_call example_env_two_epochs w x training = [[Fin 1, Fin 0, Fin 3, Fin 2]]"
  "model_losses example_env_two_epochs w = []"
  by (simp_all add: example_env_two_epochs_def example_env_def)

lemma two_epochs_run_epoch:
  assumes "startup example_env_two_epochs (example_flags ''posthoc'') = Inr ps"
    and "fresh ps st"
  shows "\<exists>st'. run_epoch example_env_two_epochs ps (example_flags ''posthoc'') k st = Inr st'"
proof -
  from two_epochs_startup assms(1) have bp: "base_probs ps = Some (replicate 4 (1 / 4))"
    and tr: "train_dataset ps = (\<lambda>epoch. [(0, [2]), (1, [1])])"
    and te: "test_dataset ps = (\<lambda>epoch. [(2, [2])])" by auto
  note s = startup_InrD [OF assms(1)]
  have ad: "test_adj_acc_metric st = Some new_metric" using assms(2) s(2) by (simp add: fresh_def)
  show ?thesis
    using bp ad
    by (simp add: run_epoch_def tr te train_batch_def test_batch_def report_train_def
        report_test_def Let_def s(1,2) loss_fn_def xent_row_def update_state_def matches_def
        tf_argmax_def broadcast_row_def program_shifts log_adjustment_Some
        del: argmax_from.simps)
qed

section \<open>The claims\<close>

text \<open>
  C1, as stated: both roles of the transform compute \<open>L + log (p\<^sup>t + 1e-12)\<close>. The test loop
  does not: at the one row \<open>[0, 0]\<close> of logits, \<open>p = [0, 1/4]\<close> and \<open>t = 1\<close> its adjusted logits are not those
  of the transform. For the first class the term is the float32 logarithm of the float32
  nearest to \<open>1e-12\<close>, a number between \<open>-64\<close> and \<open>-1\<close>; the test loop subtracts it
  from 0 and gets a number of at least 1, the transform adds it and gets one of at
  most \<open>-1\<close>.
\<close>

theorem posthoc_is_not_the_additive_transform:
  "posthoc_adjusted_logits (Some [0, 1 / 4]) 1 [[Fin 0, Fin 0]]
     \<noteq> Inr (spec_transform [[Fin 0, Fin 0]] [0, 1 / 4] 1)"
proof -
  from log_prior_term_zero [of 1] obtain c where
    c: "log_prior_term ieee 0 1 = Fin c" "c \<le> - 1" "- 64 \<le> c" by auto
  have "c \<le> - (2 powr of_int 0)" "- (2 powr of_int 6) \<le> c" using c(2,3) by simp_all
  from float32_neg_range [OF this] obtain a where a: "float32 c = Fin a" "a \<le> - 1" by auto
  have "2 powr of_int 0 \<le> - c" "- c \<le> 2 powr of_int 6" using c(2,3) by simp_all
  from float32_range [OF this] obtain b where b: "float32 (- c) = Fin b" "1 \<le> b" by auto
  have "fl_sub (Fin 0) (log_prior_term ieee 0 1) \<noteq> fl_add (Fin 0) (log_prior_term ieee 0 1)"
    using a b by (simp add: c(1) fl_sub_def fl_add_def sub_with_def)
  then show ?thesis
    by (simp add: program_shifts log_adjustment_Some broadcast_row_def spec_transform_def)
qed
text \<open>
  C1, amended. For a logits matrix \<open>L\<close> with rows of length \<open>C\<close>, a vector \<open>p\<close> of length \<open>C\<close>
  and a temperature \<open>t\<close>: inside the loss the logits become \<open>L + log (p\<^sup>t + 1e-12)\<close>, the
  specification's transform, and the cross-entropy is taken of these; in the test loop
  the adjusted logits are \<open>L - log (p\<^sup>t + 1e-12)\<close>. Both shifts are broadcast across the
  batch dimension, and both are float32 operations with the same term.
\<close>

theorem loss_adds_and_posthoc_subtracts:
  assumes "list_all (\<lambda>row. length row = length p) L"
  shows "loss_adjusted_logits (Some p) t L = Inr (spec_transform L p t)
    \<and> loss_fn True (Some p) t y L =
        (case sparse_softmax_cross_entropy_with_logits y (spec_transform L p t) of
           Inl e \<Rightarrow> Inl e
         | Inr loss \<Rightarrow> Inr (tf_reduce_mean loss))
    \<and> posthoc_adjusted_logits (Some p) t L =
        Inr (map (\<lambda>row. map2 (\<lambda>l q. fl_sub l (log_prior_term ieee q t)) row p) L)"
proof -
  let ?v = "map (\<lambda>q. log_prior_term ieee q t) p"
  have len: "list_all (\<lambda>row. length row = length ?v) L" using assms by simp
  have 1: "loss_adjusted_logits (Some p) t L = Inr (spec_transform L p t)"
    by (simp only: program_shifts log_adjustment_Some sum.case broadcast_rows_same_length [OF len]
        spec_transform_def map2_map_right)
  have 2: "posthoc_adjusted_logits (Some p) t L =
        Inr (map (\<lambda>row. map2 (\<lambda>l q. fl_sub l (log_prior_term ieee q t)) row p) L)"
    by (simp only: program_shifts log_adjustment_Some sum.case broadcast_rows_same_length [OF len]
        map2_map_right)
  show ?thesis using 1 2 by (simp add: loss_fn_def)
qed
theorem loss_adds_and_posthoc_subtracts_witness:
  "loss_adjusted_logits (Some [0, 1 / 4]) 1 [[Fin 2, Fin 3]]
     = Inr [[fl_add (Fin 2) (log_prior_term ieee 0 1), fl_add (Fin 3) (log_prior_term ieee (1 / 4) 1)]]
   \<and> posthoc_adjusted_logits (Some [0, 1 / 4]) 1 [[Fin 2, Fin 3]]
     = Inr [[fl_sub (Fin 2) (log_prior_term ieee 0 1), fl_sub (Fin 3) (log_prior_term ieee (1 / 4) 1)]]"
proof -
  have L: "list_all (\<lambda>row. length row = length [0, 1 / 4 :: real]) [[Fin 2, Fin 3]]" by simp
  show ?thesis
    using loss_adds_and_posthoc_subtracts [OF L, of 1]
    by (simp add: spec_transform_def)
qed
text \<open>
  C2. When the base-probabilities file is not found (the dataset being known and the
  training batch size not zero): in the modes \<open>posthoc\<close> and \<open>loss\<close> the read, the startup
  and with it the whole run end with the not-found error, so the loop over the epochs is
  never entered; in every other mode, \<open>baseline\<close> among them, the read gives no base
  probabilities, the startup succeeds, and the run is the loop over the epochs.
\<close>

theorem missing_base_probs_file:
  assumes "dataset_mappings env (dataset fl) = Some ds"
    and "train_batch_size fl \<noteq> 0"
    and "gfile_loadtxt env (base_probs_path fl) = NotFound"
  shows "(mode fl = ''posthoc'' \<or> mode fl = ''loss'' \<longrightarrow>
            read_base_probs env fl = Inl NotFoundError
          \<and> startup env fl = Inl NotFoundError
          \<and> main env fl = Inl NotFoundError)
       \<and> (mode fl \<noteq> ''posthoc'' \<and> mode fl \<noteq> ''loss'' \<longrightarrow>
            read_base_probs env fl = Inr None
          \<and> (\<exists>ps. startup env fl = Inr ps \<and> base_probs ps = None
                \<and> main env fl = epochs_loop env ps fl [0..<num_epochs ds] (initial ps)))"
  using assms
  by (auto simp: read_base_probs_def startup_def main_def build_loss_fn_def)
theorem missing_base_probs_file_witness:
  "main example_env_without_file (example_flags ''loss'') = Inl NotFoundError
   \<and> main example_env_without_file (example_flags ''posthoc'') = Inl NotFoundError
   \<and> read_base_probs example_env_without_file (example_flags ''baseline'') = Inr None
   \<and> (\<exists>ps. startup example_env_without_file (example_flags ''baseline'') = Inr ps
         \<and> base_probs ps = None)"
proof -
  let ?ds = "\<lparr>num_train = 2, num_classes = 4, num_epochs = 1, lr_schedule = ()\<rparr>"
  have ds: "dataset_mappings example_env_without_file (dataset (example_flags m)) = Some ?ds" for m
    by (simp add: example_env_without_file_def example_env_def example_flags_def)
  have bs: "train_batch_size (example_flags m) \<noteq> 0" for m
    by (simp add: example_flags_def)
  have nf: "gfile_loadtxt example_env_without_file (base_probs_path (example_flags m)) = NotFound" for m
    by (simp add: example_env_without_file_def)
  have m: "mode (example_flags m) = m" for m
    by (simp add: example_flags_def)
  show ?thesis
    using missing_base_probs_file [OF ds bs nf, of "''loss''"]
      missing_base_probs_file [OF ds bs nf, of "''posthoc''"]
      missing_base_probs_file [OF ds bs nf, of "''baseline''"]
    by (simp add: m) blast
qed
text \<open>
  C3. After a successful startup:

  \<^item> the loss function of the run adjusts the logits exactly in the mode \<open>loss\<close> and is the
    plain cross-entropy in every other mode;
  \<^item> in the mode \<open>loss\<close> a training step that succeeds has computed the adjusted logits of
    the model's answer and the cross-entropy of these, reports their mean (plus the
    regularisation losses) as the batch loss, and has given the optimizer the loss of the
    adjusted logits as the objective; in every other mode, \<open>posthoc\<close> among them, the
    same holds with the logits as the model gives them, so these modes train with the
    unadjusted loss;
  \<^item> a training step changes neither test accumulator;
  \<^item> where base probabilities are needed they are present, and on logits with as many
    columns as there are classes the adjustment inside the loss adds the float32
    logarithm of the float32 cast of \<open>p\<^sup>t + 1e-12\<close> to each logit, and the adjustment of
    the test loop subtracts it;
  \<^item> the flag of the post-hoc adjustment is set and the second test accumulator exists
    exactly in the mode \<open>posthoc\<close>; there a test batch updates this accumulator with the
    adjusted logits, and in every other mode, \<open>loss\<close> among them, a test batch changes
    nothing but the plain test accumulator;
  \<^item> an epoch reports an adjusted accuracy exactly in the mode \<open>posthoc\<close>;
  \<^item> no mode adjusts both in the loss and in the test loop.
\<close>

theorem mode_gating:
  assumes "startup env fl = Inr ps"
  shows "(mode fl = ''loss'' \<longrightarrow>
            the_loss_fn ps =
              (\<lambda>y L. case loss_adjusted_logits (base_probs ps) (tau fl) L of
                        Inl e \<Rightarrow> Inl e
                      | Inr L' \<Rightarrow>
                          (case sparse_softmax_cross_entropy_with_logits y L' of
                             Inl e \<Rightarrow> Inl e
                           | Inr loss \<Rightarrow> Inr (tf_reduce_mean loss))))
       \<and> (mode fl \<noteq> ''loss'' \<longrightarrow>
            the_loss_fn ps =
              (\<lambda>y L. case sparse_softmax_cross_entropy_with_logits y L of
                        Inl e \<Rightarrow> Inl e
                      | Inr loss \<Rightarrow> Inr (tf_reduce_mean loss)))
       \<and> (mode fl = ''loss'' \<longrightarrow>
            (\<forall>epoch step x y st st'. train_batch env ps epoch step (x, y) st = Inr st' \<longrightarrow>
               (\<exists>L' loss.
                    loss_adjusted_logits (base_probs ps) (tau fl)
                      (model_call env (weights st) x True) = Inr L'
                  \<and> sparse_softmax_cross_entropy_with_logits y L' = Inr loss
                  \<and> emitted st' = emitted st @
                      (if step mod 1000 = 0
                       then [PrintTrainingLoss step
                               (fl_add (tf_reduce_mean loss)
                                  (tf_reduce_sum (model_losses env (weights st)))),
                             Scalar (train_summary_writer ps) ''batch loss''
                               (fl_add (tf_reduce_mean loss)
                                  (tf_reduce_sum (model_losses env (weights st))))
                               (epoch * batches_per_epoch ps + step)]
                       else []))
             \<and> weights st' =
                 apply_gradients env (lr_schedule (ds_info ps)) (batches_per_epoch ps)
                   (iterations st)
                   (\<lambda>w. case loss_adjusted_logits (base_probs ps) (tau fl)
                                (model_call env w x True) of
                           Inl e \<Rightarrow> Inl e
                         | Inr L' \<Rightarrow>
                             (case sparse_softmax_cross_entropy_with_logits y L' of
                                Inl e \<Rightarrow> Inl e
                              | Inr loss \<Rightarrow>
                                  Inr (fl_add (tf_reduce_mean loss)
                                         (tf_reduce_sum (model_losses env w)))))
                   (weights st)
             \<and> iterations st' = Suc (iterations st)))
       \<and> (mode fl \<noteq> ''loss'' \<longrightarrow>
            (\<forall>epoch step x y st st'. train_batch env ps epoch step (x, y) st = Inr st' \<longrightarrow>
               (\<exists>loss.
                    sparse_softmax_cross_entropy_with_logits y
                      (model_call env (weights st) x True) = Inr loss
                  \<and> emitted st' = emitted st @
                      (if step mod 1000 = 0
                       then [PrintTrainingLoss step
                               (fl_add (tf_reduce_mean loss)
                                  (tf_reduce_sum (model_losses env (weights st)))),
                             Scalar (train_summary_writer ps) ''batch loss''
                               (fl_add (tf_reduce_mean loss)
                                  (tf_reduce_sum (model_losses env (weights st))))
                               (epoch * batches_per_epoch ps + step)]
                       else []))
             \<and> weights st' =
                 apply_gradients env (lr_schedule (ds_info ps)) (batches_per_epoch ps)
                   (iterations st)
                   (\<lambda>w. case sparse_softmax_cross_entropy_with_logits y
                                (model_call env w x True) of
                           Inl e \<Rightarrow> Inl e
                         | Inr loss \<Rightarrow>
                             Inr (fl_add (tf_reduce_mean loss)
                                    (tf_reduce_sum (model_losses env w))))
                   (weights st)
             \<and> iterations st' = Suc (iterations st)))
       \<and> (\<forall>epoch step b st st'. train_batch env ps epoch step b st = Inr st' \<longrightarrow>
             test_acc_metric st' = test_acc_metric st
           \<and> test_adj_acc_metric st' = test_adj_acc_metric st)
       \<and> (mode fl = ''loss'' \<or> mode fl = ''posthoc'' \<longrightarrow>
            (\<exists>p. base_probs ps = Some p
               \<and> (\<forall>L. list_all (\<lambda>row. length row = length p) L \<longrightarrow>
                     loss_adjusted_logits (base_probs ps) (tau fl) L =
                       Inr (map (\<lambda>row. map2 (\<lambda>l q. fl_add l
                              (tf_math_log (cast_with float32
                                 (add_with float64 (np_power float64 q (tau fl)) (float64 epsilon)))))
                              row p) L)
                   \<and> posthoc_adjusted_logits (base_probs ps) (tau fl) L =
                       Inr (map (\<lambda>row. map2 (\<lambda>l q. fl_sub l
                              (tf_math_log (cast_with float32
                                 (add_with float64 (np_power float64 q (tau fl)) (float64 epsilon)))))
                              row p) L))))
       \<and> (posthoc_adjusting ps \<longleftrightarrow> mode fl = ''posthoc'')
       \<and> (test_adj_acc_metric (initial ps) \<noteq> None \<longleftrightarrow> mode fl = ''posthoc'')
       \<and> (mode fl = ''posthoc'' \<longrightarrow>
            (\<forall>x y st st'. test_batch env ps fl (x, y) st = Inr st' \<longrightarrow>
               (\<exists>L' ma ma'. posthoc_adjusted_logits (base_probs ps) (tau fl)
                                (model_call env (weights st) x False) = Inr L'
                   \<and> test_adj_acc_metric st = Some ma
                   \<and> update_state ma y L' = Inr ma'
                   \<and> test_adj_acc_metric st' = Some ma')))
       \<and> (mode fl \<noteq> ''posthoc'' \<longrightarrow>
            (\<forall>b st st'. test_batch env ps fl b st = Inr st' \<longrightarrow>
               st' = st\<lparr>test_acc_metric := test_acc_metric st'\<rparr>))
       \<and> (\<forall>k st st'. fresh ps st \<and> run_epoch env ps fl k st = Inr st' \<longrightarrow>
            (\<exists>evs. emitted st' = emitted st @ evs
               \<and> (filter is_adjusted_report evs \<noteq> [] \<longleftrightarrow> mode fl = ''posthoc'')))
       \<and> \<not> (mode fl = ''loss'' \<and> posthoc_adjusting ps)"
proof -
  note s = startup_InrD [OF assms]
  have 1: "mode fl = ''loss'' \<longrightarrow>
            the_loss_fn ps =
              (\<lambda>y L. case loss_adjusted_logits (base_probs ps) (tau fl) L of
                        Inl e \<Rightarrow> Inl e
                      | Inr L' \<Rightarrow>
                          (case sparse_softmax_cross_entropy_with_logits y L' of
                             Inl e \<Rightarrow> Inl e
                           | Inr loss \<Rightarrow> Inr (tf_reduce_mean loss)))"
    by (auto simp: s(1) loss_fn_def fun_eq_iff)
  have 2: "mode fl \<noteq> ''loss'' \<longrightarrow>
            the_loss_fn ps =
              (\<lambda>y L. case sparse_softmax_cross_entropy_with_logits y L of
                        Inl e \<Rightarrow> Inl e
                      | Inr loss \<Rightarrow> Inr (tf_reduce_mean loss))"
    by (auto simp: s(1) loss_fn_def fun_eq_iff)
  have obj_loss: "(\<lambda>w. case the_loss_fn ps y (model_call env w x True) of
                         Inl e \<Rightarrow> Inl e
                       | Inr l' \<Rightarrow> Inr (fl_add l' (tf_reduce_sum (model_losses env w))))
      = (\<lambda>w. case loss_adjusted_logits (base_probs ps) (tau fl) (model_call env w x True) of
                Inl e \<Rightarrow> Inl e
              | Inr L' \<Rightarrow>
                  (case sparse_softmax_cross_entropy_with_logits y L' of
                     Inl e \<Rightarrow> Inl e
                   | Inr loss \<Rightarrow>
                       Inr (fl_add (tf_reduce_mean loss) (tf_reduce_sum (model_losses env w)))))"
    if "mode fl = ''loss''" for x y
    using that by (auto simp: s(1) loss_fn_def fun_eq_iff split: sum.splits)
  have obj_plain: "(\<lambda>w. case the_loss_fn ps y (model_call env w x True) of
                         Inl e \<Rightarrow> Inl e
                       | Inr l' \<Rightarrow> Inr (fl_add l' (tf_reduce_sum (model_losses env w))))
      = (\<lambda>w. case sparse_softmax_cross_entropy_with_logits y (model_call env w x True) of
                Inl e \<Rightarrow> Inl e
              | Inr loss \<Rightarrow>
                  Inr (fl_add (tf_reduce_mean loss) (tf_reduce_sum (model_losses env w))))"
    if "mode fl \<noteq> ''loss''" for x y
    using that by (auto simp: s(1) loss_fn_def fun_eq_iff split: sum.splits)
  have 3: "mode fl = ''loss'' \<longrightarrow>
            (\<forall>epoch step x y st st'. train_batch env ps epoch step (x, y) st = Inr st' \<longrightarrow>
               (\<exists>L' loss.
                    loss_adjusted_logits (base_probs ps) (tau fl)
                      (model_call env (weights st) x True) = Inr L'
                  \<and> sparse_softmax_cross_entropy_with_logits y L' = Inr loss
                  \<and> emitted st' = emitted st @
                      (if step mod 1000 = 0
                       then [PrintTrainingLoss step
                               (fl_add (tf_reduce_mean loss)
                                  (tf_reduce_sum (model_losses env (weights st)))),
                             Scalar (train_summary_writer ps) ''batch loss''
                               (fl_add (tf_reduce_mean loss)
                                  (tf_reduce_sum (model_losses env (weights st))))
                               (epoch * batches_per_epoch ps + step)]
                       else []))
             \<and> weights st' =
                 apply_gradients env (lr_schedule (ds_info ps)) (batches_per_epoch ps)
                   (iterations st)
                   (\<lambda>w. case loss_adjusted_logits (base_probs ps) (tau fl)
                                (model_call env w x True) of
                           Inl e \<Rightarrow> Inl e
                         | Inr L' \<Rightarrow>
                             (case sparse_softmax_cross_entropy_with_logits y L' of
                                Inl e \<Rightarrow> Inl e
                              | Inr loss \<Rightarrow>
                                  Inr (fl_add (tf_reduce_mean loss)
                                         (tf_reduce_sum (model_losses env w)))))
                   (weights st)
             \<and> iterations st' = Suc (iterations st))"
  proof (intro impI allI)
    fix epoch step x y st st'
    assume m: "mode fl = ''loss''" and tb: "train_batch env ps epoch step (x, y) st = Inr st'"
    from train_batch_InrD [OF tb] obtain l where
      l: "the_loss_fn ps y (model_call env (weights st) x True) = Inr l"
      and it: "iterations st' = Suc (iterations st)"
      and em: "emitted st' = emitted st @
               (if step mod 1000 = 0
                then [PrintTrainingLoss step (fl_add l (tf_reduce_sum (model_losses env (weights st)))),
                      Scalar (train_summary_writer ps) ''batch loss''
                        (fl_add l (tf_reduce_sum (model_losses env (weights st))))
                        (epoch * batches_per_epoch ps + step)]
                else [])"
      and w: "weights st' =
               apply_gradients env (lr_schedule (ds_info ps)) (batches_per_epoch ps) (iterations st)
                 (\<lambda>w. case the_loss_fn ps y (model_call env w x True) of
                         Inl e \<Rightarrow> Inl e
                       | Inr l' \<Rightarrow> Inr (fl_add l' (tf_reduce_sum (model_losses env w))))
                 (weights st)"
      by blast
    from l m obtain L' loss where
      "loss_adjusted_logits (base_probs ps) (tau fl) (model_call env (weights st) x True) = Inr L'"
      "sparse_softmax_cross_entropy_with_logits y L' = Inr loss" "l = tf_reduce_mean loss"
      by (auto simp: s(1) loss_fn_def split: sum.splits)
    with em it w [unfolded obj_loss [OF m]]
    show "(\<exists>L' loss.
                    loss_adjusted_logits (base_probs ps) (tau fl)
                      (model_call env (weights st) x True) = Inr L'
                  \<and> sparse_softmax_cross_entropy_with_logits y L' = Inr loss
                  \<and> emitted st' = emitted st @
                      (if step mod 1000 = 0
                       then [PrintTrainingLoss step
                               (fl_add (tf_reduce_mean loss)
                                  (tf_reduce_sum (model_losses env (weights st)))),
                             Scalar (train_summary_writer ps) ''batch loss''
                               (fl_add (tf_reduce_mean loss)
                                  (tf_reduce_sum (model_losses env (weights st))))
                               (epoch * batches_per_epoch ps + step)]
                       else []))
             \<and> weights st' =
                 apply_gradients env (lr_schedule (ds_info ps)) (batches_per_epoch ps)
                   (iterations st)
                   (\<lambda>w. case loss_adjusted_logits (base_probs ps) (tau fl)
                                (model_call env w x True) of
                           Inl e \<Rightarrow> Inl e
                         | Inr L' \<Rightarrow>
                             (case sparse_softmax_cross_entropy_with_logits y L' of
                                Inl e \<Rightarrow> Inl e
                              | Inr loss \<Rightarrow>
                                  Inr (fl_add (tf_reduce_mean loss)
                                         (tf_reduce_sum (model_losses env w)))))
                   (weights st)
             \<and> iterations st' = Suc (iterations st)"
      by blast
  qed
  have 4: "mode fl \<noteq> ''loss'' \<longrightarrow>
            (\<forall>epoch step x y st st'. train_batch env ps epoch step (x, y) st = Inr st' \<longrightarrow>
               (\<exists>loss.
                    sparse_softmax_cross_entropy_with_logits y
                      (model_call env (weights st) x True) = Inr loss
                  \<and> emitted st' = emitted st @
                      (if step mod 1000 = 0
                       then [PrintTrainingLoss step
                               (fl_add (tf_reduce_mean loss)
                                  (tf_reduce_sum (model_losses env (weights st)))),
                             Scalar (train_summary_writer ps) ''batch loss''
                               (fl_add (tf_reduce_mean loss)
                                  (tf_reduce_sum (model_losses env (weights st))))
                               (epoch * batches_per_epoch ps + step)]
                       else []))
             \<and> weights st' =
                 apply_gradients env (lr_schedule (ds_info ps)) (batches_per_epoch ps)
                   (iterations st)
                   (\<lambda>w. case sparse_softmax_cross_entropy_with_logits y
                                (model_call env w x True) of
                           Inl e \<Rightarrow> Inl e
                         | Inr loss \<Rightarrow>
                             Inr (fl_add (tf_reduce_mean loss)
                                    (tf_reduce_sum (model_losses env w))))
                   (weights st)
             \<and> iterations st' = Suc (iterations st))"
  proof (intro impI allI)
    fix epoch step x y st st'
    assume m: "mode fl \<noteq> ''loss''" and tb: "train_batch env ps epoch step (x, y) st = Inr st'"
    from train_batch_InrD [OF tb] obtain l where
      l: "the_loss_fn ps y (model_call env (weights st) x True) = Inr l"
      and it: "iterations st' = Suc (iterations st)"
      and em: "emitted st' = emitted st @
               (if step mod 1000 = 0
                then [PrintTrainingLoss step (fl_add l (tf_reduce_sum (model_losses env (weights st)))),
                      Scalar (train_summary_writer ps) ''batch loss''
                        (fl_add l (tf_reduce_sum (model_losses env (weights st))))
                        (epoch * batches_per_epoch ps + step)]
                else [])"
      and w: "weights st' =
               apply_gradients env (lr_schedule (ds_info ps)) (batches_per_epoch ps) (iterations st)
                 (\<lambda>w. case the_loss_fn ps y (model_call env w x True) of
                         Inl e \<Rightarrow> Inl e
                       | Inr l' \<Rightarrow> Inr (fl_add l' (tf_reduce_sum (model_losses env w))))
                 (weights st)"
      by blast
    from l m obtain loss where
      "sparse_softmax_cross_entropy_with_logits y (model_call env (weights st) x True) = Inr loss"
      "l = tf_reduce_mean loss"
      by (auto simp: s(1) loss_fn_def split: sum.splits)
    with em it w [unfolded obj_plain [OF m]]
    show "(\<exists>loss.
                    sparse_softmax_cross_entropy_with_logits y
                      (model_call env (weights st) x True) = Inr loss
                  \<and> emitted st' = emitted st @
                      (if step mod 1000 = 0
                       then [PrintTrainingLoss step
                               (fl_add (tf_reduce_mean loss)
                                  (tf_reduce_sum (model_losses env (weights st)))),
                             Scalar (train_summary_writer ps) ''batch loss''
                               (fl_add (tf_reduce_mean loss)
                                  (tf_reduce_sum (model_losses env (weights st))))
                               (epoch * batches_per_epoch ps + step)]
                       else []))
             \<and> weights st' =
                 apply_gradients env (lr_schedule (ds_info ps)) (batches_per_epoch ps)
                   (iterations st)
                   (\<lambda>w. case sparse_softmax_cross_entropy_with_logits y
                                (model_call env w x True) of
                           Inl e \<Rightarrow> Inl e
                         | Inr loss \<Rightarrow>
                             Inr (fl_add (tf_reduce_mean loss)
                                    (tf_reduce_sum (model_losses env w))))
                   (weights st)
             \<and> iterations st' = Suc (iterations st)"
      by blast
  qed
  have 5: "\<forall>epoch step b st st'. train_batch env ps epoch step b st = Inr st' \<longrightarrow>
             test_acc_metric st' = test_acc_metric st
           \<and> test_adj_acc_metric st' = test_adj_acc_metric st"
  proof (intro allI impI)
    fix epoch step b st st'
    assume tb: "train_batch env ps epoch step b st = Inr st'"
    obtain x y where b: "b = (x, y)" by (cases b)
    from train_batch_InrD [OF tb [unfolded b]]
    show "test_acc_metric st' = test_acc_metric st
           \<and> test_adj_acc_metric st' = test_adj_acc_metric st" by blast
  qed
  have 6: "mode fl = ''loss'' \<or> mode fl = ''posthoc'' \<longrightarrow>
            (\<exists>p. base_probs ps = Some p
               \<and> (\<forall>L. list_all (\<lambda>row. length row = length p) L \<longrightarrow>
                     loss_adjusted_logits (base_probs ps) (tau fl) L =
                       Inr (map (\<lambda>row. map2 (\<lambda>l q. fl_add l
                              (tf_math_log (cast_with float32
                                 (add_with float64 (np_power float64 q (tau fl)) (float64 epsilon)))))
                              row p) L)
                   \<and> posthoc_adjusted_logits (base_probs ps) (tau fl) L =
                       Inr (map (\<lambda>row. map2 (\<lambda>l q. fl_sub l
                              (tf_math_log (cast_with float32
                                 (add_with float64 (np_power float64 q (tau fl)) (float64 epsilon)))))
                              row p) L)))"
  proof
    assume m: "mode fl = ''loss'' \<or> mode fl = ''posthoc''"
    from startup_loss_mode_has_base_probs [OF assms m] obtain p where p: "base_probs ps = Some p"
      by auto
    have "loss_adjusted_logits (Some p) (tau fl) L =
                       Inr (map (\<lambda>row. map2 (\<lambda>l q. fl_add l
                              (tf_math_log (cast_with float32
                                 (add_with float64 (np_power float64 q (tau fl)) (float64 epsilon)))))
                              row p) L)
                   \<and> posthoc_adjusted_logits (Some p) (tau fl) L =
                       Inr (map (\<lambda>row. map2 (\<lambda>l q. fl_sub l
                              (tf_math_log (cast_with float32
                                 (add_with float64 (np_power float64 q (tau fl)) (float64 epsilon)))))
                              row p) L)"
      if L: "list_all (\<lambda>row. length row = length p) L" for L
      using shifts_same_length [OF L, of "tau fl"] unfolding log_prior_term_ieee by blast
    then show "\<exists>p. base_probs ps = Some p
               \<and> (\<forall>L. list_all (\<lambda>row. length row = length p) L \<longrightarrow>
                     loss_adjusted_logits (base_probs ps) (tau fl) L =
                       Inr (map (\<lambda>row. map2 (\<lambda>l q. fl_add l
                              (tf_math_log (cast_with float32
                                 (add_with float64 (np_power float64 q (tau fl)) (float64 epsilon)))))
                              row p) L)
                   \<and> posthoc_adjusted_logits (base_probs ps) (tau fl) L =
                       Inr (map (\<lambda>row. map2 (\<lambda>l q. fl_sub l
                              (tf_math_log (cast_with float32
                                 (add_with float64 (np_power float64 q (tau fl)) (float64 epsilon)))))
                              row p) L))"
      unfolding p by blast
  qed
  have 7: "posthoc_adjusting ps \<longleftrightarrow> mode fl = ''posthoc''" by (simp add: s(2))
  have 8: "test_adj_acc_metric (initial ps) \<noteq> None \<longleftrightarrow> mode fl = ''posthoc''" by (simp add: s(3))
  have 9: "mode fl = ''posthoc'' \<longrightarrow>
            (\<forall>x y st st'. test_batch env ps fl (x, y) st = Inr st' \<longrightarrow>
               (\<exists>L' ma ma'. posthoc_adjusted_logits (base_probs ps) (tau fl)
                                (model_call env (weights st) x False) = Inr L'
                   \<and> test_adj_acc_metric st = Some ma
                   \<and> update_state ma y L' = Inr ma'
                   \<and> test_adj_acc_metric st' = Some ma'))"
    using test_batch_InrD [of env ps fl] 7 by fastforce
  have 10: "mode fl \<noteq> ''posthoc'' \<longrightarrow>
            (\<forall>b st st'. test_batch env ps fl b st = Inr st' \<longrightarrow>
               st' = st\<lparr>test_acc_metric := test_acc_metric st'\<rparr>)"
    using 7 by (auto simp: test_batch_def Let_def split: sum.splits prod.splits)
  have 11: "\<forall>k st st'. fresh ps st \<and> run_epoch env ps fl k st = Inr st' \<longrightarrow>
            (\<exists>evs. emitted st' = emitted st @ evs
               \<and> (filter is_adjusted_report evs \<noteq> [] \<longleftrightarrow> mode fl = ''posthoc''))"
    using run_epoch_adjusted_reports [of ps _ env fl] 7 by blast
  have 12: "\<not> (mode fl = ''loss'' \<and> posthoc_adjusting ps)" by (auto simp: s(2))
  show ?thesis
    by (intro conjI) (rule 1, rule 2, rule 3, rule 4, rule 5, rule 6, rule 7, rule 8, rule 9,
        rule 10, rule 11, rule 12)
qed
theorem mode_gating_witness:
  "\<exists>ps st' loss st''.
       startup example_env (example_flags ''loss'') = Inr ps
     \<and> \<not> posthoc_adjusting ps \<and> test_adj_acc_metric (initial ps) = None
     \<and> train_batch example_env ps 0 0 (0, [2]) (initial ps) = Inr st'
     \<and> sparse_softmax_cross_entropy_with_logits [2]
          (map (map (\<lambda>l. fl_add l (tf_math_log (cast_with float32
                  (add_with float64 (np_power float64 (1 / 4) 1) (float64 epsilon))))))
             [[Fin 1, Fin 0, Fin 3, Fin 2]]) = Inr loss
     \<and> emitted st' =
         [PrintTrainingLoss 0 (fl_add (tf_reduce_mean loss) (Fin 0)),
          Scalar ''log/train'' ''batch loss'' (fl_add (tf_reduce_mean loss) (Fin 0)) 0]
     \<and> weights st' = 1 \<and> iterations st' = 1
     \<and> run_epoch example_env ps (example_flags ''loss'') 0 (initial ps) = Inr st''
     \<and> filter is_adjusted_report (emitted st'') = []"
proof -
  have m: "''loss'' = ''baseline'' \<or> ''loss'' = ''posthoc'' \<or> ''loss'' = ''loss''" by simp
  from example_startup [OF m] obtain ps where
    ps: "startup example_env (example_flags ''loss'') = Inr ps"
    and bp: "base_probs ps = Some (replicate 4 (1 / 4))"
    and w0: "weights (initial ps) = 0"
    and wr: "train_summary_writer ps = ''log/train''" by blast
  note s = startup_InrD [OF ps]
  from example_first_train_batch [OF m ps] obtain st' where
    st': "train_batch example_env ps 0 0 (0, [2]) (initial ps) = Inr st'" by blast
  from example_first_epoch [OF m ps] obtain st'' where
    st'': "run_epoch example_env ps (example_flags ''loss'') 0 (initial ps) = Inr st''" by blast
  note g = mode_gating [OF ps]
  let ?c = "tf_math_log (cast_with float32
              (add_with float64 (np_power float64 (1 / 4) 1) (float64 epsilon)))"
  let ?L = "[[Fin 1, Fin 0, Fin 3, Fin 2]]"
  have rows: "list_all (\<lambda>row. length row = length (replicate 4 (1 / 4 :: real))) ?L" by simp
  from g bp rows
  have "loss_adjusted_logits (base_probs ps) (tau (example_flags ''loss'')) ?L =
          Inr (map (\<lambda>row. map2 (\<lambda>l q. fl_add l
                 (tf_math_log (cast_with float32
                    (add_with float64 (np_power float64 q (tau (example_flags ''loss'')))
                       (float64 epsilon)))))
                 row (replicate 4 (1 / 4))) ?L)"
    by auto
  then have la: "loss_adjusted_logits (base_probs ps) 1 ?L = Inr (map (map (\<lambda>l. fl_add l ?c)) ?L)"
    by (simp add: eval_nat_numeral)
  have md: "mode (example_flags ''loss'') = ''loss''" by simp
  note c3 = g [THEN conjunct2, THEN conjunct2, THEN conjunct1, rule_format, OF md st']
  from c3 obtain L' loss where
    L': "loss_adjusted_logits (base_probs ps) (tau (example_flags ''loss''))
           (model_call example_env (weights (initial ps)) 0 True) = Inr L'"
    and loss: "sparse_softmax_cross_entropy_with_logits [2] L' = Inr loss"
    and em: "emitted st' = emitted (initial ps) @
               (if (0::nat) mod 1000 = 0
                then [PrintTrainingLoss 0
                        (fl_add (tf_reduce_mean loss)
                           (tf_reduce_sum (model_losses example_env (weights (initial ps))))),
                      Scalar (train_summary_writer ps) ''batch loss''
                        (fl_add (tf_reduce_mean loss)
                           (tf_reduce_sum (model_losses example_env (weights (initial ps)))))
                        (0 * batches_per_epoch ps + 0)]
                else [])"
    and it: "iterations st' = Suc (iterations (initial ps))"
    and we: "weights st' =
               apply_gradients example_env (lr_schedule (ds_info ps)) (batches_per_epoch ps)
                 (iterations (initial ps))
                 (\<lambda>w. case loss_adjusted_logits (base_probs ps) (tau (example_flags ''loss''))
                              (model_call example_env w 0 True) of
                         Inl e \<Rightarrow> Inl e
                       | Inr L' \<Rightarrow>
                           (case sparse_softmax_cross_entropy_with_logits [2] L' of
                              Inl e \<Rightarrow> Inl e
                            | Inr loss \<Rightarrow>
                                Inr (fl_add (tf_reduce_mean loss)
                                       (tf_reduce_sum (model_losses example_env w)))))
                 (weights (initial ps))"
    by blast
  have L'eq: "L' = map (map (\<lambda>l. fl_add l ?c)) ?L" using L' la by simp
  have ml: "model_losses example_env w = []" for w by (simp add: example_env_def)
  have ag: "apply_gradients example_env sch n i obj w = Suc w" for sch n i obj w
    by (simp add: example_env_def)
  have 1: "sparse_softmax_cross_entropy_with_logits [2] (map (map (\<lambda>l. fl_add l ?c)) ?L) = Inr loss"
    using loss unfolding L'eq .
  have 2: "emitted st' =
         [PrintTrainingLoss 0 (fl_add (tf_reduce_mean loss) (Fin 0)),
          Scalar ''log/train'' ''batch loss'' (fl_add (tf_reduce_mean loss) (Fin 0)) 0]"
    using em by (simp add: s(6) ml wr)
  have 3: "weights st' = 1" "iterations st' = 1" using we it by (simp_all add: ag w0 s(7))
  from g startup_fresh [OF ps] st''
  have "\<exists>evs. emitted st'' = emitted (initial ps) @ evs \<and> filter is_adjusted_report evs = []"
    by auto
  then have 4: "filter is_adjusted_report (emitted st'') = []"
    by (auto simp: s(6))
  from g have 5: "\<not> posthoc_adjusting ps" "test_adj_acc_metric (initial ps) = None"
    by simp_all
  from ps st' st'' 1 2 3 4 5 show ?thesis by blast
qed
text \<open>
  C4, as stated: constructing the loss function with \<open>use_la_loss = True\<close> and absent base
  probabilities fails. It does not: \<^verbatim>\<open>build_loss_fn\<close> returns the closure.
\<close>

theorem construction_with_absent_base_probs_succeeds:
  "\<not> isl (build_loss_fn True None 1)"
  by (simp add: build_loss_fn_def)
text \<open>
  C4, amended. Constructing the loss function with \<open>use_la_loss = True\<close> and absent base
  probabilities succeeds; the function it returns raises a \<^verbatim>\<open>TypeError\<close> on every
  call, for all labels and logits, so it never gives the unadjusted loss.
\<close>

theorem absent_base_probs_fail_at_the_call:
  "\<exists>f. build_loss_fn True None t = Inr f \<and> (\<forall>y L. f y L = Inl TypeError)"
  by (simp add: build_loss_fn_def loss_fn_def loss_adjusted_logits_def loss_adjusted_logits_in_def
      log_adjustment_in_def)
theorem absent_base_probs_fail_at_the_call_witness:
  "\<exists>f. build_loss_fn True None 1 = Inr f \<and> f [0] [[Fin 1, Fin 2]] = Inl TypeError"
  using absent_base_probs_fail_at_the_call [of 1] by blast
text \<open>
  C5. The loss function built with \<open>use_la_loss = False\<close> is the same function for every
  choice of base probabilities (absent or present) and every temperature: the mean over
  the batch of the sparse softmax cross-entropy of the labels and the logits as given.
\<close>

theorem disabled_adjustment_is_inert:
  "build_loss_fn False bp t = build_loss_fn False bp' t'
   \<and> build_loss_fn False bp t =
       Inr (\<lambda>y L. case sparse_softmax_cross_entropy_with_logits y L of
                    Inl e \<Rightarrow> Inl e
                  | Inr loss \<Rightarrow> Inr (tf_reduce_mean loss))"
proof -
  have same: "loss_fn False bp t = loss_fn False bp' t'"
    by (rule ext, rule ext) (simp add: loss_fn_def)
  have plain: "loss_fn False bp t =
       (\<lambda>y L. case sparse_softmax_cross_entropy_with_logits y L of
                 Inl e \<Rightarrow> Inl e
               | Inr loss \<Rightarrow> Inr (tf_reduce_mean loss))"
    by (rule ext, rule ext) (simp add: loss_fn_def)
  have "build_loss_fn False bp t = build_loss_fn False bp' t'"
    by (simp only: build_loss_fn_def same)
  moreover have "build_loss_fn False bp t =
       Inr (\<lambda>y L. case sparse_softmax_cross_entropy_with_logits y L of
                    Inl e \<Rightarrow> Inl e
                  | Inr loss \<Rightarrow> Inr (tf_reduce_mean loss))"
    by (simp only: build_loss_fn_def plain)
  ultimately show ?thesis by (rule conjI)
qed
theorem disabled_adjustment_is_inert_witness:
  "build_loss_fn False None 1 = build_loss_fn False (Some [1 / 4, 3 / 4]) 2"
  using disabled_adjustment_is_inert [of None 1 "Some [1 / 4, 3 / 4]" 2] by simp
text \<open>
  C6, as stated: for every vector of non-negative entries and every \<open>t > 0\<close> the term is
  finite. It is not where \<open>p\<^sup>t + 1e-12\<close> is beyond the range of float32: at \<open>p = [2\<^sup>1\<^sup>3\<^sup>0]\<close>
  and \<open>t = 1\<close> the cast to float32 gives \<open>inf\<close>, the term is \<open>inf\<close>, the logits adjusted
  inside the loss are \<open>inf\<close> and those adjusted in the test loop are \<open>-inf\<close>.
\<close>

theorem log_adjustment_overflows:
  "log_adjustment (Some [2 ^ 130]) 1 = Inr [PInf]
   \<and> loss_adjusted_logits (Some [2 ^ 130]) 1 [[Fin 0]] = Inr [[PInf]]
   \<and> posthoc_adjusted_logits (Some [2 ^ 130]) 1 [[Fin 0]] = Inr [[NInf]]"
  using log_prior_term_overflow
  by (simp add: program_shifts log_adjustment_Some broadcast_row_def
      fl_add_def fl_sub_def sub_with_def)
text \<open>
  C6, amended. For a vector \<open>p\<close> of non-negative entries with \<open>p\<^sub>i\<^sup>t\<close> at most \<open>2\<^sup>1\<^sup>2\<^sup>6\<close>, as
  it is for probabilities, which are at most 1, and a temperature \<open>t > 0\<close>, the term
  \<open>log (p\<^sup>t + 1e-12)\<close> is a finite number for every class, also where \<open>p\<^sub>i = 0\<close>: the
  guard is added before the logarithm is taken. Hence the logits adjusted with it, in the
  test loop and in the loss, are finite wherever the logits are finite and of magnitude
  at most \<open>2\<^sup>1\<^sup>2\<^sup>6\<close>: a zero prior produces neither \<open>-inf\<close> nor NaN.
\<close>

theorem log_adjustment_is_finite:
  assumes "list_all (\<lambda>q. 0 \<le> q \<and> q powr t \<le> 2 powr of_int 126) p" and "0 < t"
  shows "(\<exists>v. log_adjustment (Some p) t = Inr v \<and> length v = length p \<and> list_all fl_is_finite v)
    \<and> (\<forall>L L'. list_all (list_all (fl_within (2 powr of_int 126))) L
            \<and> posthoc_adjusted_logits (Some p) t L = Inr L'
          \<longrightarrow> list_all (list_all fl_is_finite) L')
    \<and> (\<forall>L L'. list_all (list_all (fl_within (2 powr of_int 126))) L
            \<and> loss_adjusted_logits (Some p) t L = Inr L'
          \<longrightarrow> list_all (list_all fl_is_finite) L')"
proof -
  let ?v = "map (\<lambda>q. log_prior_term ieee q t) p"
  have v: "log_adjustment (Some p) t = Inr ?v" by (rule log_adjustment_Some)
  have w: "list_all (fl_within 128) ?v" by (rule log_adjustment_within [OF assms])
  have fin: "list_all fl_is_finite ?v"
    using w fl_within_finite by (auto simp: list_all_iff)
  have "\<exists>v. log_adjustment (Some p) t = Inr v \<and> length v = length p \<and> list_all fl_is_finite v"
    using v fin by simp
  moreover have "list_all (list_all fl_is_finite) L'"
    if "list_all (list_all (fl_within (2 powr of_int 126))) L"
      "posthoc_adjusted_logits (Some p) t L = Inr L'" for L L'
    using broadcast_rows_pred [where P = "fl_within (2 powr of_int 126)" and Q = "fl_within 128"
        and R = fl_is_finite, OF w shift_within(2) that(1)] that(2)
    by (simp add: program_shifts v)
  moreover have "list_all (list_all fl_is_finite) L'"
    if "list_all (list_all (fl_within (2 powr of_int 126))) L"
      "loss_adjusted_logits (Some p) t L = Inr L'" for L L'
    using broadcast_rows_pred [where P = "fl_within (2 powr of_int 126)" and Q = "fl_within 128"
        and R = fl_is_finite, OF w shift_within(1) that(1)] that(2)
    by (simp add: program_shifts v)
  ultimately show ?thesis by blast
qed
theorem log_adjustment_is_finite_witness:
  "(\<exists>v. log_adjustment (Some [0, 1 / 4]) 1 = Inr v \<and> length v = 2 \<and> list_all fl_is_finite v)
   \<and> (\<exists>L'. posthoc_adjusted_logits (Some [0, 1 / 4]) 1 [[Fin 2, Fin 3]] = Inr L'
         \<and> list_all (list_all fl_is_finite) L')"
proof -
  have p: "list_all (\<lambda>q. 0 \<le> q \<and> q powr 1 \<le> 2 powr of_int 126) [0, 1 / 4 :: real]"
    by (simp add: powr_numeral)
  have t: "0 < (1 :: real)" by simp
  have "\<exists>L'. posthoc_adjusted_logits (Some [0, 1 / 4]) 1 [[Fin 2, Fin 3]] = Inr L'"
    by (simp add: program_shifts log_adjustment_Some broadcast_row_def)
  then obtain L' where ph: "posthoc_adjusted_logits (Some [0, 1 / 4]) 1 [[Fin 2, Fin 3]] = Inr L'"
    by blast
  have L: "list_all (list_all (fl_within (2 powr of_int 126))) [[Fin 2, Fin 3]]"
    by (simp add: powr_numeral)
  note th = log_adjustment_is_finite [OF p t]
  from th L ph have "list_all (list_all fl_is_finite) L'" by blast
  moreover from th
  have "\<exists>v. log_adjustment (Some [0, 1 / 4]) 1 = Inr v \<and> length v = 2 \<and> list_all fl_is_finite v"
    by auto
  ultimately show ?thesis using ph by blast
qed
text \<open>
  C7, as stated: with a uniform prior the adjusted test accuracy equals the raw test
  accuracy on every stream of batches. It does not where the float32 subtraction rounds
  two different logits to the same number. With \<open>p = [1/4, 1/4, 1/4, 1/4]\<close>, \<open>t = 1\<close> and
  the test logits \<open>[0, 2\<^sup>-\<^sup>2\<^sup>7, 0, 0]\<close> of an example of class 1, the greatest logit is the
  second one; the term is \<open>-g\<close> with \<open>1 \<le> g < 2\<close>, where float32 numbers are \<open>2\<^sup>-\<^sup>2\<^sup>3\<close>
  apart, so both \<open>0 + g\<close> and \<open>2\<^sup>-\<^sup>2\<^sup>7 + g\<close> are rounded to \<open>g\<close>, all adjusted logits are
  equal, and the first class is taken. The run reports the test accuracy 1 and the
  adjusted test accuracy 0.
\<close>

theorem uniform_prior_changes_accuracy:
  "\<exists>st. main example_env_tie (example_flags ''posthoc'') = Inr st
     \<and> epoch_reports (emitted st) =
         [PrintTrainingAccuracy (1 / 2), Scalar ''log/train'' ''accuracy'' (Fin (1 / 2)) 2,
          PrintTestAccuracy 1, Scalar ''log/test'' ''accuracy'' (Fin 1) 2,
          PrintAdjustedTestAccuracy 0, Scalar ''log/test'' ''logit-adjusted accuracy'' (Fin 0) 2]"
proof -
  from tie_startup obtain ps where
    ps: "startup example_env_tie (example_flags ''posthoc'') = Inr ps"
    and bp: "base_probs ps = Some (replicate 4 (1 / 4))"
    and n: "num_epochs (ds_info ps) = 1"
    and tr: "train_dataset ps = (\<lambda>epoch. [(0, [2]), (1, [1])])"
    and te: "test_dataset ps = (\<lambda>epoch. [(2, [1])])" by blast
  note s = startup_InrD [OF ps]
  from log_prior_term_quarter obtain m where
    c: "log_prior_term ieee (1 / 4) 1 = Fin (- (of_int m * 2 powr of_int (- 23)))"
    and m: "2 ^ 23 \<le> m" "m \<le> 3 * 2 ^ 22" by blast
  let ?g = "Fin (of_int m * 2 powr of_int (- 23))"
  let ?L = "[[Fin 0, Fin (1 / 2 ^ 27), Fin 0, Fin 0]]"
  have L: "list_all (\<lambda>row. length row = 4) ?L" by simp
  have "posthoc_adjusted_logits (Some (replicate 4 (1 / 4))) 1 ?L
      = Inr (map (map (\<lambda>v. fl_sub v (log_prior_term ieee (1 / 4) 1))) ?L)"
    by (rule posthoc_uniform [OF L])
  also have "\<dots> = Inr [[?g, ?g, ?g, ?g]]"
    by (simp only: c list.map shift_tie [OF m])
  finally have ph: "posthoc_adjusted_logits (Some (replicate 4 (1 / 4))) 1 ?L = Inr [[?g, ?g, ?g, ?g]]" .
  have model: "model_call example_env_tie w x training = ?L" for w x training
    by (simp add: example_env_tie_def example_env_def)
  have losses: "model_losses example_env_tie w = []" for w
    by (simp add: example_env_tie_def example_env_def)
  have writers: "train_summary_writer ps = ''log/train''" "test_summary_writer ps = ''log/test''"
    "batches_per_epoch ps = 2"
    using ps by (auto simp: startup_def read_base_probs_def build_loss_fn_def example_env_tie_def
      example_env_def example_flags_def base_probs_path_def os_path_join_def
      split: option.splits if_splits sum.splits read_result.splits)
  have "\<exists>st. run_epoch example_env_tie ps (example_flags ''posthoc'') 0 (initial ps) = Inr st
     \<and> epoch_reports (emitted st) =
         [PrintTrainingAccuracy (1 / 2), Scalar ''log/train'' ''accuracy'' (Fin (1 / 2)) 2,
          PrintTestAccuracy 1, Scalar ''log/test'' ''accuracy'' (Fin 1) 2,
          PrintAdjustedTestAccuracy 0, Scalar ''log/test'' ''logit-adjusted accuracy'' (Fin 0) 2]"
    using bp ph
    by (simp add: run_epoch_def tr te train_batch_def test_batch_def report_train_def
        report_test_def Let_def model losses writers s(1-7) loss_fn_def xent_row_def
        update_state_def matches_def tf_argmax_def broadcast_row_def new_metric_def
        result_def reset_states_def tf_reduce_mean_def epoch_reports_def)
  then show ?thesis using ps n by (auto simp: main_def)
qed
text \<open>
  C7, amended. In the mode \<open>posthoc\<close>, with \<open>C\<close> equal base probabilities \<open>q\<close>, a temperature
  \<open>t\<close> (so also \<open>t = 1\<close>) and a model whose test logits have \<open>C\<close> columns and rows of which
  the shift keeps the order: the log-prior term is the same value \<open>c\<close> for every class,
  the adjusted logits are the logits minus \<open>c\<close>, the index of the greatest logit of a row
  and the update of an accumulator are unchanged by the shift, the adjusted accumulator
  equals the plain test accumulator after every list of test batches when it did
  before, and the adjusted accuracy an epoch reports is the test accuracy it reports.
\<close>

theorem uniform_prior_keeps_accuracy:
  assumes "posthoc_adjusting ps" and "base_probs ps = Some (replicate C q)"
    and "\<forall>w x. list_all (\<lambda>row. length row = C \<and> order_kept (log_prior_term ieee q (tau fl)) row)
                  (model_call env w x False)"
  shows "(\<exists>c. log_adjustment (base_probs ps) (tau fl) = Inr (replicate C c)
           \<and> (\<forall>L. list_all (\<lambda>row. length row = C) L \<longrightarrow>
                 posthoc_adjusted_logits (base_probs ps) (tau fl) L
                   = Inr (map (map (\<lambda>v. fl_sub v c)) L))
           \<and> (\<forall>row. order_kept c row \<longrightarrow>
                 tf_argmax (map (\<lambda>v. fl_sub v c) row) = tf_argmax row)
           \<and> (\<forall>m y L. list_all (order_kept c) L \<longrightarrow>
                 update_state m y (map (map (\<lambda>v. fl_sub v c)) L) = update_state m y L))
       \<and> (\<forall>bs st st'. test_adj_acc_metric st = Some (test_acc_metric st)
               \<and> test_loop env ps fl bs st = Inr st'
             \<longrightarrow> test_adj_acc_metric st' = Some (test_acc_metric st'))
       \<and> (\<forall>k st st'. fresh ps st \<and> run_epoch env ps fl k st = Inr st' \<longrightarrow>
             (\<exists>mtr mte evs. emitted st' = emitted st @ evs
                \<and> epoch_reports evs =
                    train_report ps k mtr @ test_report ps k mte @ adjusted_report ps k mte))"
proof -
  let ?c = "log_prior_term ieee q (tau fl)"
  have rows: "list_all (\<lambda>yl. list_all (\<lambda>row. length row = C \<and> order_kept ?c row) (snd yl))
      (test_seen env w bs)" for w bs
    by (rule test_seen_rows [OF assms(3)])
  have A: "\<exists>c. log_adjustment (base_probs ps) (tau fl) = Inr (replicate C c)
           \<and> (\<forall>L. list_all (\<lambda>row. length row = C) L \<longrightarrow>
                 posthoc_adjusted_logits (base_probs ps) (tau fl) L
                   = Inr (map (map (\<lambda>v. fl_sub v c)) L))
           \<and> (\<forall>row. order_kept c row \<longrightarrow>
                 tf_argmax (map (\<lambda>v. fl_sub v c) row) = tf_argmax row)
           \<and> (\<forall>m y L. list_all (order_kept c) L \<longrightarrow>
                 update_state m y (map (map (\<lambda>v. fl_sub v c)) L) = update_state m y L)"
    using log_adjustment_uniform [of C q] posthoc_uniform [of C _ q]
    by (intro exI [of _ ?c]) (simp add: assms(2) tf_argmax_shift update_state_shift)
  have B: "test_adj_acc_metric st' = Some (test_acc_metric st')"
    if "test_adj_acc_metric st = Some (test_acc_metric st)" "test_loop env ps fl bs st = Inr st'"
    for bs st st'
  proof -
    from test_loop_adjusted [OF assms(1) that] obtain obs' ma' where
      obs': "adjust_all (base_probs ps) (tau fl) (test_seen env (weights st) bs) = Inr obs'"
      and ma': "accumulate (test_acc_metric st) obs' = Inr ma'" "test_adj_acc_metric st' = Some ma'"
      by blast
    have "accumulate (test_acc_metric st) obs'
        = accumulate (test_acc_metric st) (test_seen env (weights st) bs)"
      using accumulate_adjusted_uniform [OF rows] obs' by (simp add: assms(2))
    then show ?thesis using test_loop_InrD [OF that(2)] ma' by simp
  qed
  have D: "\<exists>mtr mte evs. emitted st' = emitted st @ evs
                \<and> epoch_reports evs =
                    train_report ps k mtr @ test_report ps k mte @ adjusted_report ps k mte"
    if "fresh ps st" "run_epoch env ps fl k st = Inr st'" for k st st'
  proof -
    from run_epoch_InrD [OF that] assms(1) obtain mtr mte evs obs' mad where
      mte: "accumulate new_metric (test_seen env (weights st') (test_dataset ps k)) = Inr mte"
      and ev: "emitted st' = emitted st @ evs"
      and obs': "adjust_all (base_probs ps) (tau fl)
                  (test_seen env (weights st') (test_dataset ps k)) = Inr obs'"
      and mad: "accumulate new_metric obs' = Inr mad"
      and rep: "epoch_reports evs =
                  train_report ps k mtr @ test_report ps k mte @ adjusted_report ps k mad"
      by auto
    have "accumulate new_metric obs'
        = accumulate new_metric (test_seen env (weights st') (test_dataset ps k))"
      using accumulate_adjusted_uniform [OF rows] obs' by (simp add: assms(2))
    then have "mad = mte" using mad mte by simp
    then show ?thesis using ev rep by blast
  qed
  from A B D show ?thesis by blast
qed
theorem uniform_prior_keeps_accuracy_witness:
  "\<exists>ps st' mtr mte. startup example_env_apart (example_flags ''posthoc'') = Inr ps
     \<and> base_probs ps = Some [1 / 4, 1 / 4, 1 / 4, 1 / 4]
     \<and> run_epoch example_env_apart ps (example_flags ''posthoc'') 0 (initial ps) = Inr st'
     \<and> epoch_reports (emitted st') =
         train_report ps 0 mtr @ test_report ps 0 mte @ adjusted_report ps 0 mte"
proof -
  from apart_startup obtain ps where
    ps: "startup example_env_apart (example_flags ''posthoc'') = Inr ps"
    and bp: "base_probs ps = Some (replicate 4 (1 / 4))" by blast
  note s = startup_InrD [OF ps]
  have ph: "posthoc_adjusting ps" using s(2) by simp
  have rows: "\<forall>w x. list_all (\<lambda>row. length row = 4
        \<and> order_kept (log_prior_term ieee (1 / 4) (tau (example_flags ''posthoc''))) row)
      (model_call example_env_apart w x False)"
    using apart_order_kept by simp
  from apart_first_epoch [OF ps] obtain st' where
    st': "run_epoch example_env_apart ps (example_flags ''posthoc'') 0 (initial ps) = Inr st'"
    by blast
  from uniform_prior_keeps_accuracy [OF ph bp rows] startup_fresh [OF ps] st'
  obtain mtr mte evs where "emitted st' = emitted (initial ps) @ evs"
    "epoch_reports evs = train_report ps 0 mtr @ test_report ps 0 mte @ adjusted_report ps 0 mte"
    by blast
  then have "epoch_reports (emitted st') =
         train_report ps 0 mtr @ test_report ps 0 mte @ adjusted_report ps 0 mte"
    by (simp add: s(6))
  with ps st' bp show ?thesis by (auto simp: eval_nat_numeral)
qed
text \<open>
  C8. A training step updates the training accumulator with the labels and the logits of
  the model's forward pass in training mode, whatever the loss function of the run is,
  the adjusting one of the mode \<open>loss\<close> included; a test batch updates the plain test
  accumulator with the labels and the logits of the forward pass in inference mode, in
  every mode.
\<close>

theorem accuracy_metrics_use_raw_logits:
  "(train_batch env ps epoch step (x, y) st = Inr st' \<longrightarrow>
      update_state (train_acc_metric st) y (model_call env (weights st) x True)
        = Inr (train_acc_metric st'))
   \<and> (test_batch env ps fl (x, y) st = Inr st'' \<longrightarrow>
      update_state (test_acc_metric st) y (model_call env (weights st) x False)
        = Inr (test_acc_metric st''))"
  using train_batch_InrD [of env ps epoch step x y st st']
    test_batch_InrD [of env ps fl x y st st'']
  by auto
theorem accuracy_metrics_use_raw_logits_witness:
  "\<exists>ps st' st''. startup example_env (example_flags ''loss'') = Inr ps
     \<and> train_batch example_env ps 0 0 (0, [2]) (initial ps) = Inr st'
     \<and> update_state new_metric [2] [[Fin 1, Fin 0, Fin 3, Fin 2]] = Inr (train_acc_metric st')
     \<and> test_batch example_env ps (example_flags ''loss'') (2, [2]) (initial ps) = Inr st''
     \<and> update_state new_metric [2] [[Fin 1, Fin 0, Fin 3, Fin 2]] = Inr (test_acc_metric st'')"
proof -
  have m: "''loss'' = ''baseline'' \<or> ''loss'' = ''posthoc'' \<or> ''loss'' = ''loss''" by simp
  from example_startup [OF m] obtain ps where
    ps: "startup example_env (example_flags ''loss'') = Inr ps" by blast
  from example_first_train_batch [OF m ps] obtain st' where
    st': "train_batch example_env ps 0 0 (0, [2]) (initial ps) = Inr st'" by blast
  from example_first_test_batch [OF m ps] obtain st'' where
    st'': "test_batch example_env ps (example_flags ''loss'') (2, [2]) (initial ps) = Inr st''"
    by blast
  from accuracy_metrics_use_raw_logits
    [of example_env ps 0 0 0 "[2]" "initial ps" st' "example_flags ''loss''" st''] st'
  have 1: "update_state new_metric [2] [[Fin 1, Fin 0, Fin 3, Fin 2]] = Inr (train_acc_metric st')"
    by (simp add: startup_InrD [OF ps])
  from accuracy_metrics_use_raw_logits
    [of example_env ps 0 0 2 "[2]" "initial ps" st' "example_flags ''loss''" st''] st''
  have 2: "update_state new_metric [2] [[Fin 1, Fin 0, Fin 3, Fin 2]] = Inr (test_acc_metric st'')"
    by (simp add: startup_InrD [OF ps])
  note 1 2
  with ps st' st'' show ?thesis by blast
qed
text \<open>
  C9. When the epochs before \<open>k\<close> have run and epoch \<open>k\<close> runs to its end, epoch \<open>k\<close> starts
  with all accumulators fresh and ends with all of them fresh again, and, \<open>k\<close> being an
  epoch of the run, the run continues from there. The events of the epoch, the batch
  losses apart, are one report of the training accuracy, one of the test accuracy and, in
  the mode \<open>posthoc\<close>, one of the adjusted test accuracy, in this order; each reported
  value is the result of an accumulator updated, from new, with the batches of this
  epoch only: the training batches for the training accuracy, the test batches for the
  test accuracy, the test batches with adjusted logits for the adjusted accuracy.
\<close>

theorem accumulators_reset_every_epoch:
  assumes "startup env fl = Inr ps"
    and "epochs_loop env ps fl [0..<k] (initial ps) = Inr st"
    and "run_epoch env ps fl k st = Inr st'"
  shows "fresh ps st \<and> fresh ps st'
      \<and> (k < num_epochs (ds_info ps) \<longrightarrow>
           main env fl = epochs_loop env ps fl [Suc k..<num_epochs (ds_info ps)] st')
      \<and> (\<exists>mtr mte evs.
            accumulate new_metric (train_seen env ps k 0 (train_dataset ps k) st) = Inr mtr
          \<and> accumulate new_metric (test_seen env (weights st') (test_dataset ps k)) = Inr mte
          \<and> emitted st' = emitted st @ evs
          \<and> (if posthoc_adjusting ps
             then \<exists>obs' mad.
                    adjust_all (base_probs ps) (tau fl)
                      (test_seen env (weights st') (test_dataset ps k)) = Inr obs'
                  \<and> accumulate new_metric obs' = Inr mad
                  \<and> epoch_reports evs =
                      train_report ps k mtr @ test_report ps k mte @ adjusted_report ps k mad
             else epoch_reports evs = train_report ps k mtr @ test_report ps k mte))"
proof -
  let ?n = "num_epochs (ds_info ps)"
  have f: "fresh ps st"
    using epochs_loop_fresh [OF startup_fresh [OF assms(1)] assms(2)] .
  have m: "main env fl = epochs_loop env ps fl [Suc k..<?n] st'" if "k < ?n"
  proof -
    have split: "[0..<?n] = [0..<k] @ k # [Suc k..<?n]"
      using that by (metis less_imp_le_nat upt_add_eq_append upt_conv_Cons zero_le
          le_add_diff_inverse plus_nat.add_0)
    show ?thesis
      unfolding main_def by (simp add: assms split epochs_loop_append del: upt.simps)
  qed
  from run_epoch_InrD [OF f assms(3)] f m show ?thesis by blast
qed
theorem accumulators_reset_every_epoch_witness:
  "\<exists>ps st st' evs mad.
       startup example_env_two_epochs (example_flags ''posthoc'') = Inr ps
     \<and> epochs_loop example_env_two_epochs ps (example_flags ''posthoc'') [0..<1] (initial ps) = Inr st
     \<and> run_epoch example_env_two_epochs ps (example_flags ''posthoc'') 1 st = Inr st'
     \<and> fresh ps st \<and> fresh ps st'
     \<and> main example_env_two_epochs (example_flags ''posthoc'') = Inr st'
     \<and> emitted st' = emitted st @ evs
     \<and> epoch_reports evs =
         train_report ps 1 \<lparr>acc_total = 1, acc_count = 2\<rparr>
         @ test_report ps 1 \<lparr>acc_total = 1, acc_count = 1\<rparr>
         @ adjusted_report ps 1 mad
     \<and> acc_count mad = 1"
proof -
  from two_epochs_startup obtain ps where
    ps: "startup example_env_two_epochs (example_flags ''posthoc'') = Inr ps"
    and bp: "base_probs ps = Some (replicate 4 (1 / 4))"
    and n: "num_epochs (ds_info ps) = 2"
    and tr: "train_dataset ps = (\<lambda>epoch. [(0, [2]), (1, [1])])"
    and te: "test_dataset ps = (\<lambda>epoch. [(2, [2])])" by blast
  note s = startup_InrD [OF ps]
  have ph: "posthoc_adjusting ps" using s(2) by simp
  from two_epochs_run_epoch [OF ps startup_fresh [OF ps], of 0] obtain st where
    st0: "run_epoch example_env_two_epochs ps (example_flags ''posthoc'') 0 (initial ps) = Inr st"
    by blast
  then have st: "epochs_loop example_env_two_epochs ps (example_flags ''posthoc'') [0..<1] (initial ps)
      = Inr st" by simp
  have f: "fresh ps st" using epochs_loop_fresh [OF startup_fresh [OF ps] st] .
  from two_epochs_run_epoch [OF ps f, of 1] obtain st' where
    st': "run_epoch example_env_two_epochs ps (example_flags ''posthoc'') 1 st = Inr st'"
    by blast
  note th = accumulators_reset_every_epoch [OF ps st st']
  from th have fr: "fresh ps st" "fresh ps st'" by simp_all
  from th n have mn: "main example_env_two_epochs (example_flags ''posthoc'') = Inr st'"
    by simp
  from th ph obtain mtr mte evs obs' mad where
    mtr: "accumulate new_metric (train_seen example_env_two_epochs ps 1 0 (train_dataset ps 1) st)
            = Inr mtr"
    and mte: "accumulate new_metric (test_seen example_env_two_epochs (weights st') (test_dataset ps 1))
            = Inr mte"
    and ev: "emitted st' = emitted st @ evs"
    and obs': "adjust_all (base_probs ps) (tau (example_flags ''posthoc''))
                 (test_seen example_env_two_epochs (weights st') (test_dataset ps 1)) = Inr obs'"
    and mad: "accumulate new_metric obs' = Inr mad"
    and rep: "epoch_reports evs =
                train_report ps 1 mtr @ test_report ps 1 mte @ adjusted_report ps 1 mad"
    by auto
  have "accumulate new_metric (train_seen example_env_two_epochs ps 1 0 (train_dataset ps 1) st)
      = Inr \<lparr>acc_total = 1, acc_count = 2\<rparr>"
    by (simp add: tr train_batch_def Let_def s(1) loss_fn_def xent_row_def update_state_def
        matches_def tf_argmax_def broadcast_row_def new_metric_def)
  with mtr have 1: "mtr = \<lparr>acc_total = 1, acc_count = 2\<rparr>" by simp
  have "accumulate new_metric (test_seen example_env_two_epochs (weights st') (test_dataset ps 1))
      = Inr \<lparr>acc_total = 1, acc_count = 1\<rparr>"
    by (simp add: te test_seen_def update_state_def matches_def tf_argmax_def broadcast_row_def
        new_metric_def)
  with mte have 2: "mte = \<lparr>acc_total = 1, acc_count = 1\<rparr>" by simp
  let ?c = "log_prior_term ieee (1 / 4) 1"
  have "adjust_all (base_probs ps) (tau (example_flags ''posthoc''))
          (test_seen example_env_two_epochs (weights st') (test_dataset ps 1))
      = Inr [([2], [[fl_sub (Fin 1) ?c, fl_sub (Fin 0) ?c, fl_sub (Fin 3) ?c, fl_sub (Fin 2) ?c]])]"
    by (simp add: bp te test_seen_def program_shifts log_adjustment_Some broadcast_row_def
        eval_nat_numeral)
  with obs' have o: "obs' =
      [([2], [[fl_sub (Fin 1) ?c, fl_sub (Fin 0) ?c, fl_sub (Fin 3) ?c, fl_sub (Fin 2) ?c]])]"
    by simp
  have "\<exists>n. accumulate new_metric obs' = Inr \<lparr>acc_total = n, acc_count = 1\<rparr>"
    unfolding o
    by (simp add: update_state_def matches_def tf_argmax_def broadcast_row_def new_metric_def
        del: argmax_from.simps)
  with mad have 3: "acc_count mad = 1" by auto
  note 1 2 3
  then show ?thesis using ps st st' fr mn ev rep by blast
qed
text \<open>
  C10, as stated: for every \<open>L\<close>, \<open>p\<close> and \<open>t\<close>, adding the term to the logits the test loop
  has adjusted gives \<open>L\<close> again in exact arithmetic. It does not where the term is not
  finite: at \<open>p = [0]\<close> and \<open>t = -1\<close> the power is \<open>inf\<close> and so is the term, the test loop
  turns the logit 0 into \<open>-inf\<close>, and adding \<open>inf\<close> to that gives NaN, in exact arithmetic
  as in the arithmetic of the program.
\<close>

theorem round_trip_fails_for_infinite_term:
  "posthoc_adjusted_logits_in exact_arith (Some [0]) (- 1) [[Fin 0]] = Inr [[NInf]]
   \<and> loss_adjusted_logits_in exact_arith (Some [0]) (- 1) [[NInf]] = Inr [[NaN]]
   \<and> posthoc_adjusted_logits (Some [0]) (- 1) [[Fin 0]] = Inr [[NInf]]
   \<and> loss_adjusted_logits (Some [0]) (- 1) [[NInf]] = Inr [[NaN]]"
proof -
  have 1: "log_prior_term exact_arith 0 (- 1) = PInf"
    by (simp add: log_prior_term_def np_power_def)
  have "\<exists>v. float64 epsilon = Fin v" using float64_epsilon by blast
  then have 2: "log_prior_term ieee 0 (- 1) = PInf"
    by (auto simp: log_prior_term_def np_power_def)
  show ?thesis
    by (simp add: posthoc_adjusted_logits_in_def loss_adjusted_logits_in_def log_adjustment_in_def
        posthoc_adjusted_logits_def loss_adjusted_logits_def broadcast_row_def 1 2 sub_with_def)
qed
text \<open>
  C10, amended. For a logits matrix \<open>L\<close> with rows of length \<open>C\<close>, a vector \<open>p\<close> of length \<open>C\<close>
  and a temperature \<open>t\<close> for which the term \<open>log (p\<^sup>t + 1e-12)\<close> is a finite number for
  every class (as it is for non-negative \<open>p\<close> and \<open>t > 0\<close>, by \<open>log_prior_term_exact\<close>): in
  exact arithmetic, adding the term of the loss to the logits the test loop has adjusted
  gives \<open>L\<close> again; and in the arithmetic of the program the two places apply the same
  term with opposite signs, the loss adding it and the test loop adding its negation.
\<close>

theorem posthoc_shift_inverse_of_loss_shift:
  assumes "list_all (\<lambda>row. length row = length p) L"
    and "list_all (\<lambda>q. fl_is_finite (log_prior_term exact_arith q t)) p"
  shows "(\<exists>L'. posthoc_adjusted_logits_in exact_arith (Some p) t L = Inr L'
           \<and> loss_adjusted_logits_in exact_arith (Some p) t L' = Inr L)
       \<and> (\<exists>v. log_adjustment (Some p) t = Inr v
           \<and> loss_adjusted_logits (Some p) t L = Inr (map (\<lambda>row. map2 fl_add row v) L)
           \<and> posthoc_adjusted_logits (Some p) t L
               = Inr (map (\<lambda>row. map2 fl_add row (map fl_neg v)) L))"
proof -
  let ?v = "map (\<lambda>q. log_prior_term exact_arith q t) p"
  let ?L' = "map (\<lambda>row. map2 (sub_with Fin) row ?v) L"
  have v: "log_adjustment_in exact_arith (Some p) t = Inr ?v"
    by (simp add: log_adjustment_in_def)
  have len: "list_all (\<lambda>row. length row = length ?v) L" using assms(1) by simp
  have 1: "posthoc_adjusted_logits_in exact_arith (Some p) t L = Inr ?L'"
    by (simp only: posthoc_adjusted_logits_in_def v sum.case arith_simps
        broadcast_rows_same_length [OF len])
  have len': "list_all (\<lambda>row. length row = length ?v) ?L'"
    using assms(1) by (simp add: list_all_iff)
  have fin: "list_all fl_is_finite ?v" using assms(2) by (simp add: list_all_iff)
  have "map (\<lambda>row. map2 (add_with Fin) row ?v) ?L' = L"
    using assms(1) by (induction L) (simp_all add: map2_exact_sub_add_cancel [OF _ fin])
  then have 2: "loss_adjusted_logits_in exact_arith (Some p) t ?L' = Inr L"
    by (simp only: loss_adjusted_logits_in_def v sum.case arith_simps
        broadcast_rows_same_length [OF len'])
  let ?w = "map (\<lambda>q. log_prior_term ieee q t) p"
  have lw: "list_all (\<lambda>row. length row = length ?w) L" using assms(1) by simp
  have lw': "list_all (\<lambda>row. length row = length (map fl_neg ?w)) L" using assms(1) by simp
  have 3: "loss_adjusted_logits (Some p) t L = Inr (map (\<lambda>row. map2 fl_add row ?w) L)"
    by (simp only: program_shifts log_adjustment_Some sum.case broadcast_rows_same_length [OF lw])
  have 4: "posthoc_adjusted_logits (Some p) t L = Inr (map (\<lambda>row. map2 fl_add row (map fl_neg ?w)) L)"
    by (simp only: program_shifts log_adjustment_Some sum.case broadcast_rows_sub_neg
        broadcast_rows_same_length [OF lw'])
  from 1 2 3 4 log_adjustment_Some [of p t] show ?thesis by blast
qed
theorem posthoc_shift_inverse_of_loss_shift_witness:
  "\<exists>L'. posthoc_adjusted_logits_in exact_arith (Some [0, 1 / 4]) 1 [[Fin 2, Fin 3]] = Inr L'
     \<and> L' = [[Fin (2 - ln epsilon), Fin (3 - ln (1 / 4 + epsilon))]]
     \<and> loss_adjusted_logits_in exact_arith (Some [0, 1 / 4]) 1 L' = Inr [[Fin 2, Fin 3]]"
proof -
  have L: "list_all (\<lambda>row. length row = length [0, 1 / 4 :: real]) [[Fin 2, Fin 3]]" by simp
  have t0: "log_prior_term exact_arith 0 1 = Fin (ln epsilon)"
    using epsilon_pos by (simp add: log_prior_term_def np_power_def)
  have "0 < 1 / 4 + epsilon" using epsilon_pos by simp
  then have t1: "log_prior_term exact_arith (1 / 4) 1 = Fin (ln (1 / 4 + epsilon))"
    by (simp add: log_prior_term_def np_power_def)
  have p: "list_all (\<lambda>q. fl_is_finite (log_prior_term exact_arith q 1)) [0, 1 / 4]"
    by (simp add: t0 t1)
  have ph: "posthoc_adjusted_logits_in exact_arith (Some [0, 1 / 4]) 1 [[Fin 2, Fin 3]]
       = Inr [[Fin (2 - ln epsilon), Fin (3 - ln (1 / 4 + epsilon))]]"
    by (simp add: posthoc_adjusted_logits_in_def log_adjustment_in_def t0 t1 broadcast_row_def
        sub_with_def)
  from posthoc_shift_inverse_of_loss_shift [OF L p] ph show ?thesis by simp
qed

end
